theory Spec2Isabelle
  imports Main "HOL-Library.AList" "HOL-Library.Sublist" "HOL-Library.Multiset"
begin

section \<open>JavaScript values used by the script\<close>

text \<open>
  The script \<^verbatim>\<open>setup_table_shard.js\<close> drives a sharded MongoDB cluster through the
  \<^verbatim>\<open>mongosh\<close> objects \<^verbatim>\<open>db\<close> and \<^verbatim>\<open>sh\<close>. Theories are ASCII only, so the Chinese
  texts of the script appear either as UTF-8 bytes (the prefixes of the error messages the
  script builds itself, since the script searches error messages for substrings) or by the
  number of their source line (the log lines).
\<close>

datatype jsval = JNum int | JStr string | JBool bool

text \<open>
  A key pattern, a split point or an options object: an object literal, as the list of
  its properties in insertion order (the order \<^verbatim>\<open>JSON.stringify\<close> prints them in).
\<close>

type_synonym jsobj = "(string \<times> jsval) list"

function string_of_nat :: "nat \<Rightarrow> string" where
  "string_of_nat n =
     (if n < 10 then [char_of (48 + n)]
      else string_of_nat (n div 10) @ [char_of (48 + n mod 10)])"
  by pat_completeness auto
termination
  by (relation "measure id") auto

definition string_of_int :: "int \<Rightarrow> string" where
  "string_of_int i = (if i < 0 then CHR ''-'' # string_of_nat (nat (- i)) else string_of_nat (nat i))"

definition hex_digit :: "nat \<Rightarrow> char" where
  "hex_digit d = (if d < 10 then char_of (48 + d) else char_of (87 + d))"

text \<open>
  \<^verbatim>\<open>JSON.stringify\<close> on a string: the quotation mark, the backslash and the control
  characters are escaped, every other character is copied.
\<close>

definition json_escape :: "char \<Rightarrow> string" where
  "json_escape c =
     (if c = CHR 0x22 then [CHR 0x5C, CHR 0x22]
      else if c = CHR 0x5C then [CHR 0x5C, CHR 0x5C]
      else if c = CHR 0x08 then [CHR 0x5C, CHR ''b'']
      else if c = CHR 0x0C then [CHR 0x5C, CHR ''f'']
      else if c = CHR 0x0A then [CHR 0x5C, CHR ''n'']
      else if c = CHR 0x0D then [CHR 0x5C, CHR ''r'']
      else if c = CHR 0x09 then [CHR 0x5C, CHR ''t'']
      else if (of_char c :: nat) < 32
        then [CHR 0x5C, CHR ''u'', CHR ''0'', CHR ''0'',
              hex_digit (of_char c div 16), hex_digit (of_char c mod 16)]
      else [c])"

definition json_string :: "string \<Rightarrow> string" where
  "json_string s = [CHR 0x22] @ concat (map json_escape s) @ [CHR 0x22]"

fun json_value :: "jsval \<Rightarrow> string" where
  "json_value (JNum i) = string_of_int i"
| "json_value (JStr s) = json_string s"
| "json_value (JBool b) = (if b then ''true'' else ''false'')"

fun join :: "string \<Rightarrow> string list \<Rightarrow> string" where
  "join sep [] = []"
| "join sep [x] = x"
| "join sep (x # y # ys) = x @ sep @ join sep (y # ys)"

text \<open>\<^verbatim>\<open>JSON.stringify(obj)\<close> for an object of numbers, strings and booleans.\<close>

definition JSON_stringify :: "jsobj \<Rightarrow> string" where
  "JSON_stringify obj =
     ''{'' @ join '','' (map (\<lambda>(k, v). json_string k @ '':'' @ json_value v) obj) @ ''}''"

text \<open>\<^verbatim>\<open>s.includes(t)\<close>: \<open>t\<close> occurs in \<open>s\<close> as a contiguous substring.\<close>

fun str_includes :: "string \<Rightarrow> string \<Rightarrow> bool" where
  "str_includes [] t = (t = [])"
| "str_includes (c # cs) t = (prefix t (c # cs) \<or> str_includes cs t)"

section \<open>Configuration (lines 21-343)\<close>

record index_spec =
  key :: jsobj
  options :: jsobj

text \<open>
  \<open>indexes\<close>: a missing \<^verbatim>\<open>indexes\<close> property and an empty array take the same branch
  of \<^verbatim>\<open>createIndexes\<close> (its only reader), so both are the empty list.
\<close>

record coll_config =
  name :: string
  description :: string
  shardKey :: jsobj
  indexes :: "index_spec list"

record sharding_config =
  initialChunks :: int
  chunkSizeMB :: int
  enableBalancer :: bool

record exec_options =
  skipExistingSharded :: bool
  backgroundIndex :: bool
  validateResults_opt :: bool
  dryRun :: bool

record config =
  connectionString :: string
  database :: string
  collections :: "coll_config list"
  sharding :: sharding_config
  exec_opts :: exec_options

definition idx :: "jsobj \<Rightarrow> jsobj \<Rightarrow> index_spec" where
  "idx k opts = \<lparr>key = k, options = opts\<rparr>"

definition named :: "string \<Rightarrow> jsobj" where
  "named n = [(''name'', JStr n)]"

definition unique_named :: "string \<Rightarrow> jsobj" where
  "unique_named n = [(''unique'', JBool True), (''name'', JStr n)]"

definition ug_user :: coll_config where
  "ug_user = \<lparr>name = ''ug_user'', description = ''user table'',
     shardKey = [(''name'', JStr ''hashed'')],
     indexes = [
       idx [(''name'', JStr ''hashed'')] (unique_named ''idx_name''),
       idx [(''id'', JNum 1)] (named ''idx_id''),
       idx [(''appID'', JNum 1)] (named ''idx_appID''),
       idx [(''phoneNum'', JNum 1)] (named ''idx_phoneNum''),
       idx [(''lastLoginTime'', JNum 1)] (named ''idx_lastLoginTime''),
       idx [(''createTime'', JNum 1)] (named ''idx_createTime''),
       idx [(''accountType'', JNum 1)] (named ''idx_accountType''),
       idx [(''idCard'', JNum 1)] (named ''idx_idCard'')]\<rparr>"

definition ug_id_card :: coll_config where
  "ug_id_card = \<lparr>name = ''ug_id_card'', description = ''identity card table'',
     shardKey = [(''idCard'', JNum 1)],
     indexes = [idx [(''idCard'', JNum 1)] (unique_named ''idx_idCard'')]\<rparr>"

definition ug_device :: coll_config where
  "ug_device = \<lparr>name = ''ug_device'', description = ''device table'',
     shardKey = [(''appID'', JNum 1), (''deviceID'', JNum 1)],
     indexes = [
       idx [(''appID'', JNum 1), (''deviceID'', JNum 1)] (unique_named ''idx_deviceID''),
       idx [(''oaid'', JNum 1)] (named ''idx_oaid''),
       idx [(''imei'', JNum 1)] (named ''idx_imei''),
       idx [(''idfa'', JNum 1)] (named ''idx_idfa''),
       idx [(''createTime'', JNum 1)] (named ''idx_createTime'')]\<rparr>"

definition ug_order_notify_log :: coll_config where
  "ug_order_notify_log = \<lparr>name = ''ug_order_notify_log'',
     description = ''order notification log table'',
     shardKey = [(''orderID'', JNum 1)],
     indexes = [idx [(''orderID'', JNum 1)] (named ''idx_orderID'')]\<rparr>"

definition ug_order_platform_log :: coll_config where
  "ug_order_platform_log = \<lparr>name = ''ug_order_platform_log'',
     description = ''order platform log table'',
     shardKey = [(''orderID'', JNum 1)],
     indexes = [idx [(''orderID'', JNum 1)] (named ''idx_orderID'')]\<rparr>"

definition ug_game_user :: coll_config where
  "ug_game_user = \<lparr>name = ''ug_game_user'', description = ''game user table'',
     shardKey = [(''uid'', JNum 1)],
     indexes = [
       idx [(''uid'', JNum 1)] (named ''idx_uid''),
       idx [(''appID'', JNum 1)] (named ''idx_appID''),
       idx [(''name'', JNum 1)] (named ''idx_name''),
       idx [(''lastLoginTime'', JNum 1)] (named ''idx_lastLoginTime''),
       idx [(''accountType'', JNum 1)] (named ''idx_accountType'')]\<rparr>"

definition ug_order :: coll_config where
  "ug_order = \<lparr>name = ''ug_order'', description = ''order table'',
     shardKey = [(''uid'', JNum 1)],
     indexes = [
       idx [(''uid'', JNum 1)] (named ''idx_uid''),
       idx [(''id'', JNum 1)] (named ''idx_id''),
       idx [(''platformOrderID'', JNum 1)] (named ''idx_platformOrderID''),
       idx [(''appID'', JNum 1)] (named ''idx_appID''),
       idx [(''payType'', JNum 1)] (named ''idx_payType''),
       idx [(''roleID'', JNum 1)] (named ''idx_roleID''),
       idx [(''serverID'', JNum 1)] (named ''idx_serverID''),
       idx [(''createTime'', JNum 1)] (named ''idx_createTime''),
       idx [(''uid'', JNum 1), (''createTime'', JNum (- 1))] (named ''idx_uid_createTime''),
       idx [(''appID'', JNum 1), (''createTime'', JNum (- 1))] (named ''idx_appID_createTime'')]\<rparr>"

definition ug_login_log :: coll_config where
  "ug_login_log = \<lparr>name = ''ug_login_log'', description = ''login log table'',
     shardKey = [(''userID'', JNum 1)],
     indexes = [
       idx [(''userID'', JNum 1)] (named ''idx_userID''),
       idx [(''appID'', JNum 1)] (named ''idx_appID''),
       idx [(''loginTime'', JNum 1)] (named ''idx_loginTime'')]\<rparr>"

text \<open>
  The table \<^verbatim>\<open>CONFIG\<close>. The descriptions are Chinese in the source and are only
  printed; they stand here in translation.
\<close>

definition CONFIG :: config where
  "CONFIG = \<lparr>connectionString = '''', database = ''xsdk_v2_test'',
     collections = [ug_user, ug_id_card, ug_device, ug_order_notify_log,
       ug_order_platform_log, ug_game_user, ug_order, ug_login_log],
     sharding = \<lparr>initialChunks = 8, chunkSizeMB = 64, enableBalancer = True\<rparr>,
     exec_opts = \<lparr>skipExistingSharded = True, backgroundIndex = True,
       validateResults_opt = True, dryRun = False\<rparr>\<rparr>"

section \<open>The shell: log, trace of calls, results\<close>

text \<open>
  A log line is the level of the \<^verbatim>\<open>Logger\<close> method, the source line of the call (which
  fixes the text) and the values the template interpolates, as strings. The timestamp
  that \<^verbatim>\<open>Logger\<close> puts in front of a line is left out.
\<close>

datatype level = Info | Success | Warning | Error

datatype entry = Log level nat "string list" | Section nat "string list" | Divider

text \<open>The calls into \<^verbatim>\<open>mongosh\<close>, with the database \<^verbatim>\<open>db\<close> stands for where it matters.\<close>

datatype call =
    RunCommand_hello
  | RunCommand_connectionStatus
  | AdminCommand_usersInfo string string
  | EnableSharding string
  | Use string
  | GetCollectionNames string
  | CreateCollection string string
  | FindOne_collections string
  | GetIndexes string string
  | CreateIndex string string jsobj jsobj
  | ShardCollection string jsobj
  | CountDocuments_chunks string
  | SplitFind string jsobj
  | Find_chunks string
  | Stats string string

text \<open>The calls that change the cluster; all others only read.\<close>

fun is_mutating :: "call \<Rightarrow> bool" where
  "is_mutating (EnableSharding d) = True"
| "is_mutating (CreateCollection d c) = True"
| "is_mutating (CreateIndex d c k opts) = True"
| "is_mutating (ShardCollection ns k) = True"
| "is_mutating (SplitFind ns p) = True"
| "is_mutating _ = False"

record results =
  success :: "string list"
  skipped :: "string list"
  failed :: "(string \<times> string) list"

text \<open>
  The state a run threads through: the cluster (of any type \<open>'s\<close>), the database the
  shell variable \<^verbatim>\<open>db\<close> points to, the calls issued so far, the lines printed so far, the
  milliseconds spent in \<^verbatim>\<open>sleep\<close>, and \<^verbatim>\<open>this.results\<close>.
\<close>

record 's shell =
  cluster :: 's
  current_db :: string
  calls :: "call list"
  logs :: "entry list"
  slept :: nat
  results :: results

text \<open>A computation either throws an error message (\<open>Inl\<close>) or returns (\<open>Inr\<close>).\<close>

type_synonym ('s, 'a) prog = "'s shell \<Rightarrow> (string + 'a) \<times> 's shell"

definition ret :: "'a \<Rightarrow> ('s, 'a) prog" where
  "ret x st = (Inr x, st)"

definition throw :: "string \<Rightarrow> ('s, 'a) prog" where
  "throw e st = (Inl e, st)"

definition bnd :: "('s, 'a) prog \<Rightarrow> ('a \<Rightarrow> ('s, 'b) prog) \<Rightarrow> ('s, 'b) prog" where
  "bnd m f st = (case m st of (Inl e, st') \<Rightarrow> (Inl e, st') | (Inr x, st') \<Rightarrow> f x st')"

definition try_catch :: "('s, 'a) prog \<Rightarrow> (string \<Rightarrow> ('s, 'a) prog) \<Rightarrow> ('s, 'a) prog" where
  "try_catch m h st = (case m st of (Inl e, st') \<Rightarrow> h e st' | (Inr x, st') \<Rightarrow> (Inr x, st'))"

text \<open>Statements in sequence; the first one that throws ends the block.\<close>

fun block :: "('s, unit) prog list \<Rightarrow> ('s, unit) prog" where
  "block [] = ret ()"
| "block (m # ms) = bnd m (\<lambda>_. block ms)"

definition if_then :: "bool \<Rightarrow> ('s, unit) prog \<Rightarrow> ('s, unit) prog" where
  "if_then b m = (if b then m else ret ())"

text \<open>\<^verbatim>\<open>for (const x of xs) body(x)\<close>, for a body without \<^verbatim>\<open>break\<close>.\<close>

fun for_of :: "'a list \<Rightarrow> ('a \<Rightarrow> ('s, unit) prog) \<Rightarrow> ('s, unit) prog" where
  "for_of [] body = ret ()"
| "for_of (x # xs) body = bnd (body x) (\<lambda>_. for_of xs body)"

definition logger :: "entry \<Rightarrow> ('s, unit) prog" where
  "logger e st = (Inr (), st\<lparr>logs := logs st @ [e]\<rparr>)"

definition sleep :: "nat \<Rightarrow> ('s, unit) prog" where
  "sleep ms st = (Inr (), st\<lparr>slept := slept st + ms\<rparr>)"

definition get_db :: "('s, string) prog" where
  "get_db st = (Inr (current_db st), st)"

definition set_db :: "string \<Rightarrow> ('s, unit) prog" where
  "set_db d st = (Inr (), st\<lparr>current_db := d\<rparr>)"

definition get_results :: "('s, results) prog" where
  "get_results st = (Inr (results st), st)"

definition push_success :: "string \<Rightarrow> ('s, unit) prog" where
  "push_success n st =
     (Inr (), st\<lparr>results := (results st)\<lparr>success := success (results st) @ [n]\<rparr>\<rparr>)"

definition push_skipped :: "string \<Rightarrow> ('s, unit) prog" where
  "push_skipped n st =
     (Inr (), st\<lparr>results := (results st)\<lparr>skipped := skipped (results st) @ [n]\<rparr>\<rparr>)"

definition push_failed :: "string \<Rightarrow> string \<Rightarrow> ('s, unit) prog" where
  "push_failed n e st =
     (Inr (), st\<lparr>results := (results st)\<lparr>failed := failed (results st) @ [(n, e)]\<rparr>\<rparr>)"

section \<open>The cluster, as the script sees it\<close>

text \<open>
  \<^verbatim>\<open>db\<close> and \<^verbatim>\<open>sh\<close> belong to \<^verbatim>\<open>mongosh\<close>, not to the script, so their behaviour is a
  parameter: a record of functions over a cluster state of any type. A read answers from
  the cluster state; a mutating call also returns the next cluster state, whether it
  throws or not. \<open>Inl\<close> is the message of the error thrown, by the call or by reading a
  property of an answer that lacks it.
\<close>

record user_ref =
  user_name :: string
  user_db :: string

text \<open>The answer of \<^verbatim>\<open>sh.enableSharding\<close> and \<^verbatim>\<open>sh.shardCollection\<close>: its \<^verbatim>\<open>ok\<close> and its \<^verbatim>\<open>JSON.stringify\<close>.\<close>

record cmd_result =
  ok :: int
  json :: string

record index_doc =
  doc_key :: jsobj
  doc_name :: string
  doc_rest :: jsobj

record coll_stats =
  stats_sharded :: bool
  stats_count :: int
  stats_size :: int
  stats_shards :: "(string \<times> int) list option"

record 's mongosh =
  runCommand_hello :: "'s \<Rightarrow> string + string option"
  runCommand_connectionStatus :: "'s \<Rightarrow> string + user_ref option"
  adminCommand_usersInfo :: "'s \<Rightarrow> user_ref \<Rightarrow> string + string list"
  enableSharding :: "'s \<Rightarrow> string \<Rightarrow> (string + cmd_result) \<times> 's"
  use :: "'s \<Rightarrow> string \<Rightarrow> string + unit"
  getCollectionNames :: "'s \<Rightarrow> string \<Rightarrow> string + string list"
  createCollection :: "'s \<Rightarrow> string \<Rightarrow> string \<Rightarrow> (string + unit) \<times> 's"
  findOne_collections :: "'s \<Rightarrow> string \<Rightarrow> string + jsobj option option"
  getIndexes :: "'s \<Rightarrow> string \<Rightarrow> string \<Rightarrow> string + index_doc list"
  createIndex :: "'s \<Rightarrow> string \<Rightarrow> string \<Rightarrow> jsobj \<Rightarrow> jsobj \<Rightarrow> (string + unit) \<times> 's"
  shardCollection :: "'s \<Rightarrow> string \<Rightarrow> jsobj \<Rightarrow> (string + cmd_result) \<times> 's"
  countDocuments_chunks :: "'s \<Rightarrow> string \<Rightarrow> string + int"
  splitFind :: "'s \<Rightarrow> string \<Rightarrow> jsobj \<Rightarrow> (string + unit) \<times> 's"
  find_chunks :: "'s \<Rightarrow> string \<Rightarrow> string + string list"
  stats :: "'s \<Rightarrow> string \<Rightarrow> string \<Rightarrow> string + coll_stats"

text \<open>Issuing a call: it is appended to the trace, and a mutating call moves the cluster.\<close>

definition reading :: "call \<Rightarrow> ('s \<Rightarrow> string + 'a) \<Rightarrow> ('s, 'a) prog" where
  "reading c f st = (f (cluster st), st\<lparr>calls := calls st @ [c]\<rparr>)"

definition mutating :: "call \<Rightarrow> ('s \<Rightarrow> (string + 'a) \<times> 's) \<Rightarrow> ('s, 'a) prog" where
  "mutating c f st =
     (case f (cluster st) of (r, s') \<Rightarrow> (r, st\<lparr>cluster := s', calls := calls st @ [c]\<rparr>))"

section \<open>\<^verbatim>\<open>ShardingManager\<close> (lines 405-916)\<close>

text \<open>The Chinese prefixes of the errors the script throws itself, in UTF-8, up to \<^verbatim>\<open>": "\<close>.\<close>

definition err_connection :: string where
  "err_connection =
     [CHR 0xE8, CHR 0xBF, CHR 0x9E, CHR 0xE6, CHR 0x8E, CHR 0xA5, CHR 0xE9, CHR 0xAA, CHR 0x8C,
      CHR 0xE8, CHR 0xAF, CHR 0x81, CHR 0xE5, CHR 0xA4, CHR 0xB1, CHR 0xE8, CHR 0xB4, CHR 0xA5,
      CHR 0x3A, CHR 0x20]"

definition err_enable :: string where
  "err_enable =
     [CHR 0xE5, CHR 0x90, CHR 0xAF, CHR 0xE7, CHR 0x94, CHR 0xA8, CHR 0xE5, CHR 0xA4, CHR 0xB1,
      CHR 0xE8, CHR 0xB4, CHR 0xA5, CHR 0x3A, CHR 0x20]"

definition err_shard_key_index :: string where
  "err_shard_key_index =
     [CHR 0xE5, CHR 0x88, CHR 0x9B, CHR 0xE5, CHR 0xBB, CHR 0xBA, CHR 0x20, CHR 0x5F, CHR 0x69,
      CHR 0x64, CHR 0x20, CHR 0xE5, CHR 0x93, CHR 0x88, CHR 0xE5, CHR 0xB8, CHR 0x8C, CHR 0xE7,
      CHR 0xB4, CHR 0xA2, CHR 0xE5, CHR 0xBC, CHR 0x95, CHR 0xE5, CHR 0xA4, CHR 0xB1, CHR 0xE8,
      CHR 0xB4, CHR 0xA5, CHR 0x3A, CHR 0x20]"

definition err_shard :: string where
  "err_shard =
     [CHR 0xE5, CHR 0x88, CHR 0x86, CHR 0xE7, CHR 0x89, CHR 0x87, CHR 0xE5, CHR 0xA4, CHR 0xB1,
      CHR 0xE8, CHR 0xB4, CHR 0xA5, CHR 0x3A, CHR 0x20]"

subsection \<open>Step 1: \<^verbatim>\<open>validateConnection\<close> (lines 448-485)\<close>

definition validateConnection :: "'s mongosh \<Rightarrow> ('s, unit) prog" where
  "validateConnection api = block [
     logger (Log Info 449 []),
     try_catch
       (bnd (reading RunCommand_hello (runCommand_hello api)) (\<lambda>hello.
        bnd (if_then (hello \<noteq> Some ''isdbgrid'')
               (logger (Log Warning 455 [case hello of None \<Rightarrow> ''undefined'' | Some m \<Rightarrow> m]))) (\<lambda>_.
        bnd (reading RunCommand_connectionStatus (runCommand_connectionStatus api)) (\<lambda>user.
        bnd (case user of
               None \<Rightarrow> ret ()
             | Some u \<Rightarrow>
                 bnd (logger (Log Success 463 [user_name u, user_db u])) (\<lambda>_.
                 bnd (reading (AdminCommand_usersInfo (user_name u) (user_db u))
                        (\<lambda>s. adminCommand_usersInfo api s u)) (\<lambda>roles.
                 if_then (\<not> (\<exists>role \<in> set roles. role = ''clusterAdmin'' \<or> role = ''clusterManager''))
                   (logger (Log Warning 477 []))))) (\<lambda>_.
        logger (Log Success 481 []))))))
       (\<lambda>error. throw (err_connection @ error))]"

subsection \<open>Step 2: \<^verbatim>\<open>enableDatabaseSharding\<close> (lines 488-511)\<close>

definition enableDatabaseSharding :: "'s mongosh \<Rightarrow> config \<Rightarrow> ('s, unit) prog" where
  "enableDatabaseSharding api cfg = block [
     logger (Log Info 489 [database cfg]),
     if dryRun (exec_opts cfg) then logger (Log Info 492 [])
     else
       try_catch
         (bnd (mutating (EnableSharding (database cfg))
                 (\<lambda>s. enableSharding api s (database cfg))) (\<lambda>result.
          if ok result = 1 then logger (Log Success 500 [])
          else throw (err_enable @ json result)))
         (\<lambda>error.
            if str_includes error ''already enabled'' then logger (Log Info 506 [])
            else throw error)]"

subsection \<open>The checks (lines 567-577)\<close>

text \<open>\<^verbatim>\<open>use(d)\<close>: when it does not throw, \<^verbatim>\<open>db\<close> points to the database \<open>d\<close>.\<close>

definition use_db :: "'s mongosh \<Rightarrow> string \<Rightarrow> ('s, unit) prog" where
  "use_db api d = bnd (reading (Use d) (\<lambda>s. use api s d)) (\<lambda>_. set_db d)"

definition checkCollectionExists :: "'s mongosh \<Rightarrow> string \<Rightarrow> ('s, bool) prog" where
  "checkCollectionExists api collectionName =
     bnd get_db (\<lambda>d.
     bnd (reading (GetCollectionNames d) (\<lambda>s. getCollectionNames api s d)) (\<lambda>collectionNames.
     ret (collectionName \<in> set collectionNames)))"

text \<open>
  \<^verbatim>\<open>checkIfSharded\<close> returns \<^verbatim>\<open>collConfig && collConfig.key\<close>, which its caller only tests:
  the answer is its truth value, true when the document is there and has a key.
\<close>

definition checkIfSharded :: "'s mongosh \<Rightarrow> string \<Rightarrow> ('s, bool) prog" where
  "checkIfSharded api fullCollectionName =
     bnd (reading (FindOne_collections fullCollectionName)
            (\<lambda>s. findOne_collections api s fullCollectionName)) (\<lambda>collConfig.
     ret (case collConfig of None \<Rightarrow> False | Some k \<Rightarrow> k \<noteq> None))"

subsection \<open>\<^verbatim>\<open>createIndexes\<close> (lines 580-623)\<close>

definition index_exists :: "index_doc list \<Rightarrow> jsobj \<Rightarrow> bool" where
  "index_exists existingIndexes k =
     (\<exists>existing \<in> set existingIndexes. JSON_stringify (doc_key existing) = JSON_stringify k)"

text \<open>
  The body of the loop of lines 590-622, for the entry \<open>(index, idxConfig)\<close>; \<open>d\<close> is the
  database of \<^verbatim>\<open>coll\<close>.
\<close>

definition index_step ::
  "'s mongosh \<Rightarrow> config \<Rightarrow> coll_config \<Rightarrow> string \<Rightarrow> index_doc list \<Rightarrow> nat \<times> index_spec \<Rightarrow>
   ('s, unit) prog" where
  "index_step api cfg collConfig d existingIndexes = (\<lambda>(index, idxConfig).
     if index_exists existingIndexes (key idxConfig)
     then logger (Log Info 597 [string_of_nat (index + 1), JSON_stringify (key idxConfig)])
     else if dryRun (exec_opts cfg)
     then logger (Log Info 602 [JSON_stringify (key idxConfig)])
     else
       try_catch
         (let options = AList.update ''background'' (JBool (backgroundIndex (exec_opts cfg)))
                          (options idxConfig)
          in block [
            mutating (CreateIndex d (name collConfig) (key idxConfig) options)
              (\<lambda>s. createIndex api s d (name collConfig) (key idxConfig) options),
            logger (Log Success 613
              [string_of_nat (index + 1), JSON_stringify (key idxConfig)]),
            if_then (backgroundIndex (exec_opts cfg)) (sleep 100)])
         (\<lambda>error. logger (Log Warning 620
            [string_of_nat (index + 1), JSON_stringify (key idxConfig), error])))"

definition createIndexes :: "'s mongosh \<Rightarrow> config \<Rightarrow> coll_config \<Rightarrow> ('s, unit) prog" where
  "createIndexes api cfg collConfig =
     (if indexes collConfig = [] then ret ()
      else block [
        logger (Log Info 585 [string_of_nat (length (indexes collConfig))]),
        bnd get_db (\<lambda>d.
        bnd (reading (GetIndexes d (name collConfig))
               (\<lambda>s. getIndexes api s d (name collConfig))) (\<lambda>existingIndexes.
        for_of (enumerate 0 (indexes collConfig))
          (index_step api cfg collConfig d existingIndexes)))])"

subsection \<open>\<^verbatim>\<open>createShardKeyIndex\<close> (lines 626-663)\<close>

definition createShardKeyIndex :: "'s mongosh \<Rightarrow> config \<Rightarrow> coll_config \<Rightarrow> ('s, unit) prog" where
  "createShardKeyIndex api cfg collConfig = block [
     logger (Log Info 627 [JSON_stringify (shardKey collConfig)]),
     bnd get_db (\<lambda>d.
     bnd (reading (GetIndexes d (name collConfig))
            (\<lambda>s. getIndexes api s d (name collConfig))) (\<lambda>existingIndexes.
     if index_exists existingIndexes (shardKey collConfig)
     then logger (Log Info 638 [])
     else if dryRun (exec_opts cfg)
     then logger (Log Info 643 [])
     else
       try_catch
         (let options = [(''background'', JBool (backgroundIndex (exec_opts cfg)))]
          in block [
            mutating (CreateIndex d (name collConfig) (shardKey collConfig) options)
              (\<lambda>s. createIndex api s d (name collConfig) (shardKey collConfig) options),
            logger (Log Success 653 []),
            if_then (backgroundIndex (exec_opts cfg))
              (block [logger (Log Info 657 []), sleep 3000])])
         (\<lambda>error. throw (err_shard_key_index @ error))))]"

subsection \<open>\<^verbatim>\<open>enableCollectionSharding\<close> (lines 666-695)\<close>

definition fullName_of :: "config \<Rightarrow> coll_config \<Rightarrow> string" where
  "fullName_of cfg collConfig = database cfg @ ''.'' @ name collConfig"

definition enableCollectionSharding :: "'s mongosh \<Rightarrow> config \<Rightarrow> coll_config \<Rightarrow> ('s, unit) prog" where
  "enableCollectionSharding api cfg collConfig =
     (let fullName = fullName_of cfg collConfig in block [
        logger (Log Info 669 []),
        logger (Log Info 670 [JSON_stringify (shardKey collConfig)]),
        if dryRun (exec_opts cfg) then logger (Log Info 673 [fullName])
        else
          try_catch
            (bnd (mutating (ShardCollection fullName (shardKey collConfig))
                    (\<lambda>s. shardCollection api s fullName (shardKey collConfig))) (\<lambda>result.
             if ok result = 1 then logger (Log Success 681 [])
             else throw (err_shard @ json result)))
            (\<lambda>error.
               if str_includes error ''already sharded'' then logger (Log Info 687 [])
               else if str_includes error ''create an index''
               then block [logger (Log Warning 689 []), throw error]
               else throw error)])"

subsection \<open>\<^verbatim>\<open>preSplitChunks\<close> (lines 698-740)\<close>

datatype 'a flow = Continue 'a | Break 'a

definition split_point :: "int \<Rightarrow> jsobj" where
  "split_point i = [(''appID'', JNum i), (''deviceID'', JStr (''split_point_'' @ string_of_int i))]"

text \<open>The body of the loop of lines 720-735, at counter \<open>i\<close>; it returns the new \<open>created\<close>.\<close>

definition split_step :: "'s mongosh \<Rightarrow> string \<Rightarrow> int \<Rightarrow> int \<Rightarrow> int \<Rightarrow> ('s, int flow) prog" where
  "split_step api fullName chunksNeeded i created =
     try_catch
       (bnd (mutating (SplitFind fullName (split_point i))
               (\<lambda>s. splitFind api s fullName (split_point i))) (\<lambda>_.
        bnd (logger (Log Info 726 [string_of_int (created + 1), string_of_int chunksNeeded])) (\<lambda>_.
        bnd (sleep 50) (\<lambda>_.
        ret (Continue (created + 1))))))
       (\<lambda>error.
          if str_includes error ''chunk is too small''
          then bnd (logger (Log Info 730 [])) (\<lambda>_. ret (Break created))
          else bnd (logger (Log Warning 733 [string_of_int (i + 1), error])) (\<lambda>_.
               ret (Continue created)))"

function split_loop :: "'s mongosh \<Rightarrow> string \<Rightarrow> int \<Rightarrow> int \<Rightarrow> int \<Rightarrow> ('s, int) prog" where
  "split_loop api fullName chunksNeeded i created st =
     (if i < chunksNeeded then
        (case split_step api fullName chunksNeeded i created st of
           (Inr (Continue created'), st') \<Rightarrow>
             split_loop api fullName chunksNeeded (i + 1) created' st'
         | (Inr (Break created'), st') \<Rightarrow> (Inr created', st')
         | (Inl e, st') \<Rightarrow> (Inl e, st'))
      else (Inr created, st))"
  by pat_completeness auto
termination
  by (relation "measure (\<lambda>(api, fullName, chunksNeeded, i, created, st). nat (chunksNeeded - i))")
    auto

definition preSplitChunks :: "'s mongosh \<Rightarrow> config \<Rightarrow> coll_config \<Rightarrow> ('s, unit) prog" where
  "preSplitChunks api cfg collConfig =
     (let fullName = fullName_of cfg collConfig in block [
        logger (Log Info 701 [string_of_int (initialChunks (sharding cfg))]),
        if dryRun (exec_opts cfg) then logger (Log Info 704 [])
        else
          bnd (reading (CountDocuments_chunks fullName)
                 (\<lambda>s. countDocuments_chunks api s fullName)) (\<lambda>currentChunks.
          if currentChunks \<ge> initialChunks (sharding cfg)
          then logger (Log Info 712 [string_of_int currentChunks])
          else
            (let chunksNeeded = initialChunks (sharding cfg) - currentChunks in block [
               logger (Log Info 717 [string_of_int chunksNeeded]),
               bnd (split_loop api fullName chunksNeeded 0 0) (\<lambda>created.
               if_then (created > 0) (logger (Log Success 738 [string_of_int created])))]))])"

subsection \<open>Step 3: \<^verbatim>\<open>processCollection\<close> (lines 514-564)\<close>

text \<open>The \<^verbatim>\<open>try\<close> block of \<^verbatim>\<open>processCollection\<close> (lines 521-555).\<close>

definition collection_steps :: "'s mongosh \<Rightarrow> config \<Rightarrow> coll_config \<Rightarrow> ('s, unit) prog" where
  "collection_steps api cfg collConfig =
     (let fullName = fullName_of cfg collConfig in
      bnd (use_db api (database cfg)) (\<lambda>_.
      bnd (checkCollectionExists api (name collConfig)) (\<lambda>collectionExists.
      bnd (if_then (\<not> collectionExists) (block [
             logger (Log Warning 527 [name collConfig]),
             if_then (\<not> dryRun (exec_opts cfg)) (block [
               bnd get_db (\<lambda>d. mutating (CreateCollection d (name collConfig))
                 (\<lambda>s. createCollection api s d (name collConfig))),
               logger (Log Success 530 [])])])) (\<lambda>_.
      bnd (checkIfSharded api fullName) (\<lambda>isAlreadySharded.
      if isAlreadySharded \<and> skipExistingSharded (exec_opts cfg)
      then block [logger (Log Info 537 []), push_skipped (name collConfig)]
      else block [
        createIndexes api cfg collConfig,
        createShardKeyIndex api cfg collConfig,
        enableCollectionSharding api cfg collConfig,
        preSplitChunks api cfg collConfig,
        push_success (name collConfig),
        logger (Log Success 555 [name collConfig])])))))"

definition processCollection :: "'s mongosh \<Rightarrow> config \<Rightarrow> coll_config \<Rightarrow> ('s, unit) prog" where
  "processCollection api cfg collConfig = block [
     logger Divider,
     logger (Log Info 516 [name collConfig, description collConfig]),
     try_catch (collection_steps api cfg collConfig)
       (\<lambda>error. block [
          logger (Log Error 558 [name collConfig, error]),
          push_failed (name collConfig) error])]"

subsection \<open>Step 4: \<^verbatim>\<open>validateResults\<close> (lines 743-850)\<close>

text \<open>\<^verbatim>\<open>main\<close> builds the logger with \<^verbatim>\<open>verbose = true\<close>, so line 795 always prints.\<close>

definition validateIndexes :: "'s mongosh \<Rightarrow> config \<Rightarrow> coll_config \<Rightarrow> ('s, unit) prog" where
  "validateIndexes api cfg collConfig = block [
     use_db api (database cfg),
     bnd get_db (\<lambda>d.
     bnd (reading (GetIndexes d (name collConfig))
            (\<lambda>s. getIndexes api s d (name collConfig))) (\<lambda>indexes. block [
       logger (Log Info 780 [string_of_nat (length indexes)]),
       if index_exists indexes (shardKey collConfig)
       then logger (Log Success 787 []) else logger (Log Error 789 []),
       for_of (enumerate 0 indexes) (\<lambda>(i, idx).
         logger (Log Info 795
           [string_of_nat (i + 1), doc_name idx, JSON_stringify (doc_key idx)]))]))]"

text \<open>\<^verbatim>\<open>chunksByShard[chunk.shard] = (chunksByShard[chunk.shard] || 0) + 1\<close>\<close>

definition count_shard :: "jsobj \<Rightarrow> string \<Rightarrow> jsobj" where
  "count_shard chunksByShard shard =
     AList.update shard
       (case map_of chunksByShard shard of Some (JNum n) \<Rightarrow> JNum (n + 1) | _ \<Rightarrow> JNum 1)
       chunksByShard"

definition validateSharding :: "'s mongosh \<Rightarrow> string \<Rightarrow> ('s, unit) prog" where
  "validateSharding api fullName =
     bnd (reading (FindOne_collections fullName)
            (\<lambda>s. findOne_collections api s fullName)) (\<lambda>collConfig.
     bnd (case collConfig of
            Some (Some k) \<Rightarrow>
              block [logger (Log Success 805 []), logger (Log Info 806 [JSON_stringify k])]
          | _ \<Rightarrow> logger (Log Error 808 [])) (\<lambda>_.
     bnd (reading (CountDocuments_chunks fullName)
            (\<lambda>s. countDocuments_chunks api s fullName)) (\<lambda>chunkCount.
     bnd (logger (Log Info 813 [string_of_int chunkCount])) (\<lambda>_.
     bnd (reading (Find_chunks fullName) (\<lambda>s. find_chunks api s fullName)) (\<lambda>chunks.
     logger (Log Info 821 [JSON_stringify (foldl count_shard [] chunks)]))))))"

text \<open>
  The sizes that \<^verbatim>\<open>formatBytes\<close> and \<^verbatim>\<open>toFixed\<close> print in floating point are carried
  as the integers they are computed from.
\<close>

definition validateDataDistribution :: "'s mongosh \<Rightarrow> config \<Rightarrow> coll_config \<Rightarrow> ('s, unit) prog" where
  "validateDataDistribution api cfg collConfig = block [
     use_db api (database cfg),
     bnd get_db (\<lambda>d.
     try_catch
       (bnd (reading (Stats d (name collConfig)) (\<lambda>s. stats api s d (name collConfig))) (\<lambda>stats.
        if stats_sharded stats then block [
          logger (Log Success 833 []),
          logger (Log Info 834 [string_of_int (stats_count stats)]),
          logger (Log Info 835 [string_of_int (stats_size stats)]),
          case stats_shards stats of
            None \<Rightarrow> ret ()
          | Some shards \<Rightarrow>
              for_of shards (\<lambda>(shardName, shardSize).
                logger (Log Info 841
                  [shardName, string_of_int shardSize, string_of_int (stats_size stats)]))]
        else logger (Log Info 845 [])))
       (\<lambda>error. logger (Log Warning 848 [error])))]"

definition validateResults :: "'s mongosh \<Rightarrow> config \<Rightarrow> ('s, unit) prog" where
  "validateResults api cfg =
     (if \<not> validateResults_opt (exec_opts cfg) then ret ()
      else block [
        logger (Section 748 []),
        for_of (collections cfg) (\<lambda>collConfig. block [
          logger Divider,
          logger (Log Info 756 [name collConfig]),
          try_catch
            (block [
               validateIndexes api cfg collConfig,
               validateSharding api (fullName_of cfg collConfig),
               validateDataDistribution api cfg collConfig])
            (\<lambda>error. logger (Log Warning 769 [error]))])])"

subsection \<open>Step 5: \<^verbatim>\<open>showSummary\<close> (lines 853-915)\<close>

definition showRecommendations :: "config \<Rightarrow> ('s, unit) prog" where
  "showRecommendations cfg =
     (if dryRun (exec_opts cfg) then ret ()
      else block [
        logger (Section 893 []),
        logger (Log Info 895 []), logger (Log Info 896 []),
        logger (Log Info 898 []), logger (Log Info 899 []),
        if_then (enableBalancer (sharding cfg))
          (block [logger (Log Info 902 []), logger (Log Info 903 [])]),
        logger (Log Info 906 []),
        for_of (collections cfg) (\<lambda>coll. logger (Log Info 908 [name coll])),
        logger (Log Info 911 []),
        for_of (collections cfg) (\<lambda>coll. logger (Log Info 913 [name coll]))])"

text \<open>Line 875 prints the elapsed time, which is not modelled.\<close>

definition showSummary :: "config \<Rightarrow> ('s, unit) prog" where
  "showSummary cfg =
     bnd get_results (\<lambda>r.
     let total = length (collections cfg);
         n_success = length (success r);
         n_skipped = length (skipped r);
         n_failed = length (failed r)
     in block [
       logger (Section 854 []),
       logger (Log Info 861 [string_of_nat total]),
       logger (Log Success 862 [string_of_nat n_success]),
       logger (Log Info 863 [string_of_nat n_skipped]),
       if_then (n_failed > 0) (block [
         logger (Log Error 866 [string_of_nat n_failed]),
         logger Divider,
         logger (Log Info 868 []),
         for_of (failed r) (\<lambda>(collection, error). logger (Log Error 870 [collection, error]))]),
       logger Divider,
       logger (Log Info 875 []),
       if n_failed = 0 then logger (Log Success 878 []) else logger (Log Warning 880 []),
       showRecommendations cfg])"

subsection \<open>\<^verbatim>\<open>execute\<close> (lines 417-445)\<close>

text \<open>Line 421 prints one of two Chinese words for the mode; they stand here in translation.\<close>

definition execute :: "'s mongosh \<Rightarrow> config \<Rightarrow> ('s, unit) prog" where
  "execute api cfg = block [
     logger (Section 418 []),
     logger (Log Info 419 [database cfg]),
     logger (Log Info 420 [join '', '' (map name (collections cfg))]),
     logger (Log Info 421 [if dryRun (exec_opts cfg) then ''dry run'' else ''real run'']),
     try_catch
       (block [
          validateConnection api,
          enableDatabaseSharding api cfg,
          for_of (collections cfg) (processCollection api cfg),
          validateResults api cfg,
          showSummary cfg])
       (\<lambda>error. block [logger (Log Error 442 [error]), throw error])]"

section \<open>\<^verbatim>\<open>main\<close> (lines 919-938)\<close>

text \<open>
  What the process does at the end of \<^verbatim>\<open>main\<close>: it calls \<^verbatim>\<open>process.exit\<close> with a code,
  or \<^verbatim>\<open>main\<close> returns and the script ends by itself.
\<close>

datatype ending = Returned | Exit nat

text \<open>
  The constructor of \<^verbatim>\<open>ShardingManager\<close> starts from empty result lists. \<open>d\<close> is the
  database \<^verbatim>\<open>db\<close> points to when the script starts.
\<close>

definition new_shell :: "'s \<Rightarrow> string \<Rightarrow> 's shell" where
  "new_shell s d = \<lparr>cluster = s, current_db = d, calls = [], logs = [], slept = 0,
     results = \<lparr>success = [], skipped = [], failed = []\<rparr>\<rparr>"

text \<open>
  \<open>cfg\<close> is \<^verbatim>\<open>CONFIG\<close> after lines 941-964 have applied the command line to it.
  Line 926 prints the time of the start, which is not modelled.
\<close>

definition main :: "'s mongosh \<Rightarrow> config \<Rightarrow> 's \<Rightarrow> string \<Rightarrow> ending \<times> 's shell" where
  "main api cfg s d =
     (case block [
             logger (Section 923 []),
             logger (Log Info 924 []),
             logger (Log Info 925 []),
             logger (Log Info 926 []),
             execute api cfg] (new_shell s d) of
        (Inr _, st) \<Rightarrow> (Returned, st)
      | (Inl error, st) \<Rightarrow> (Exit 1, snd (logger (Log Error 935 [error]) st)))"

section \<open>A small cluster to run the script on\<close>

text \<open>
  One instance of the cluster interface, used to run the model on concrete inputs. It
  keeps the collections of the one database, their indexes, the sharded namespaces of
  \<^verbatim>\<open>config.collections\<close> and the number of chunks of each namespace. \<open>sim_faults\<close> lists
  calls that throw, with the message they throw.
\<close>

record sim =
  sim_colls :: "string list"
  sim_indexes :: "(string \<times> index_doc list) list"
  sim_sharded :: "(string \<times> jsobj) list"
  sim_chunks :: "(string \<times> int) list"
  sim_faults :: "(call \<times> string) list"

definition answer :: "sim \<Rightarrow> call \<Rightarrow> 'a \<Rightarrow> string + 'a" where
  "answer s c v = (case map_of (sim_faults s) c of Some e \<Rightarrow> Inl e | None \<Rightarrow> Inr v)"

definition id_index :: index_doc where
  "id_index = \<lparr>doc_key = [(''_id'', JNum 1)], doc_name = ''_id_'', doc_rest = []\<rparr>"

definition sim_indexes_of :: "sim \<Rightarrow> string \<Rightarrow> index_doc list" where
  "sim_indexes_of s c = (case map_of (sim_indexes s) c of None \<Rightarrow> [] | Some ds \<Rightarrow> ds)"

definition sim_chunks_of :: "sim \<Rightarrow> string \<Rightarrow> int" where
  "sim_chunks_of s ns = (case map_of (sim_chunks s) ns of None \<Rightarrow> 0 | Some n \<Rightarrow> n)"

definition sim_add_collection :: "string \<Rightarrow> sim \<Rightarrow> sim" where
  "sim_add_collection c s =
     (if c \<in> set (sim_colls s) then s
      else s\<lparr>sim_colls := sim_colls s @ [c],
             sim_indexes := AList.update c [id_index] (sim_indexes s)\<rparr>)"

definition ok_result :: cmd_result where
  "ok_result = \<lparr>ok = 1, json = JSON_stringify [(''ok'', JNum 1)]\<rparr>"

definition sim_api :: "sim mongosh" where
  "sim_api = \<lparr>
     runCommand_hello = (\<lambda>s. answer s RunCommand_hello (Some ''isdbgrid'')),
     runCommand_connectionStatus = (\<lambda>s. answer s RunCommand_connectionStatus
       (Some \<lparr>user_name = ''root'', user_db = ''admin''\<rparr>)),
     adminCommand_usersInfo = (\<lambda>s u.
       answer s (AdminCommand_usersInfo (user_name u) (user_db u)) [''clusterAdmin'']),
     enableSharding = (\<lambda>s d. (answer s (EnableSharding d) ok_result, s)),
     use = (\<lambda>s d. answer s (Use d) ()),
     getCollectionNames = (\<lambda>s d. answer s (GetCollectionNames d) (sim_colls s)),
     createCollection = (\<lambda>s d c.
       case answer s (CreateCollection d c) () of
         Inl e \<Rightarrow> (Inl e, s)
       | Inr _ \<Rightarrow> (Inr (), sim_add_collection c s)),
     findOne_collections = (\<lambda>s ns. answer s (FindOne_collections ns)
       (case map_of (sim_sharded s) ns of None \<Rightarrow> None | Some k \<Rightarrow> Some (Some k))),
     getIndexes = (\<lambda>s d c.
       if c \<in> set (sim_colls s) then answer s (GetIndexes d c) (sim_indexes_of s c)
       else Inl ''ns does not exist''),
     createIndex = (\<lambda>s d c k opts.
       case answer s (CreateIndex d c k opts) () of
         Inl e \<Rightarrow> (Inl e, s)
       | Inr _ \<Rightarrow>
           (let s' = sim_add_collection c s;
                doc = \<lparr>doc_key = k,
                  doc_name = (case map_of opts ''name'' of Some (JStr n) \<Rightarrow> n
                              | _ \<Rightarrow> JSON_stringify k),
                  doc_rest = opts\<rparr>
            in (Inr (), s'\<lparr>sim_indexes :=
                  AList.update c (sim_indexes_of s' c @ [doc]) (sim_indexes s')\<rparr>))),
     shardCollection = (\<lambda>s ns k.
       case answer s (ShardCollection ns k) ok_result of
         Inl e \<Rightarrow> (Inl e, s)
       | Inr r \<Rightarrow>
           if map_of (sim_sharded s) ns \<noteq> None then (Inl ''collection already sharded'', s)
           else (Inr r, s\<lparr>sim_sharded := AList.update ns k (sim_sharded s),
                           sim_chunks := AList.update ns 1 (sim_chunks s)\<rparr>)),
     countDocuments_chunks = (\<lambda>s ns. answer s (CountDocuments_chunks ns) (sim_chunks_of s ns)),
     splitFind = (\<lambda>s ns p.
       case answer s (SplitFind ns p) () of
         Inl e \<Rightarrow> (Inl e, s)
       | Inr _ \<Rightarrow>
           (Inr (), s\<lparr>sim_chunks := AList.update ns (sim_chunks_of s ns + 1) (sim_chunks s)\<rparr>)),
     find_chunks = (\<lambda>s ns. answer s (Find_chunks ns)
       (replicate (nat (sim_chunks_of s ns)) ''shard0'')),
     stats = (\<lambda>s d c. answer s (Stats d c)
       \<lparr>stats_sharded = (map_of (sim_sharded s) (d @ ''.'' @ c) \<noteq> None),
        stats_count = 0, stats_size = 0, stats_shards = None\<rparr>)\<rparr>"

definition empty_sim :: sim where
  "empty_sim = \<lparr>sim_colls = [], sim_indexes = [], sim_sharded = [], sim_chunks = [],
     sim_faults = []\<rparr>"

text \<open>A configuration with one collection and two indexes, and three initial chunks.\<close>

definition orders :: coll_config where
  "orders = \<lparr>name = ''orders'', description = ''orders'',
     shardKey = [(''uid'', JNum 1)],
     indexes = [
       idx [(''uid'', JNum 1)] (unique_named ''idx_uid''),
       idx [(''createTime'', JNum 1)] (named ''idx_createTime'')]\<rparr>"

definition small_config :: config where
  "small_config = \<lparr>connectionString = [], database = ''shop'',
     collections = [orders],
     sharding = \<lparr>initialChunks = 3, chunkSizeMB = 64, enableBalancer = True\<rparr>,
     exec_opts = \<lparr>skipExistingSharded = True, backgroundIndex = True,
       validateResults_opt = True, dryRun = False\<rparr>\<rparr>"

text \<open>A cluster where the collection is there, with its \<^verbatim>\<open>_id\<close> index, and not sharded.\<close>

definition orders_sim :: sim where
  "orders_sim = \<lparr>sim_colls = [''orders''], sim_indexes = [(''orders'', [id_index])],
     sim_sharded = [], sim_chunks = [], sim_faults = []\<rparr>"

definition dry :: "config \<Rightarrow> config" where
  "dry cfg = cfg\<lparr>exec_opts := (exec_opts cfg)\<lparr>dryRun := True\<rparr>\<rparr>"

text \<open>Clusters where one call throws.\<close>

definition hello_fault_sim :: sim where
  "hello_fault_sim = orders_sim\<lparr>sim_faults := [(RunCommand_hello, ''connection refused'')]\<rparr>"

definition enable_fault_sim :: sim where
  "enable_fault_sim = orders_sim\<lparr>sim_faults := [(EnableSharding ''shop'', ''not authorized'')]\<rparr>"

definition shard_fault_sim :: sim where
  "shard_fault_sim = orders_sim\<lparr>sim_faults :=
     [(ShardCollection ''shop.orders'' [(''uid'', JNum 1)], ''not authorized'')]\<rparr>"

text \<open>
  A cluster where the collection has an index on \<^verbatim>\<open>uid\<close> already, not unique and under
  another name.
\<close>

definition legacy_index_sim :: sim where
  "legacy_index_sim = orders_sim\<lparr>sim_indexes := [(''orders'',
     [id_index, \<lparr>doc_key = [(''uid'', JNum 1)], doc_name = ''uid_1'', doc_rest = []\<rparr>])]\<rparr>"

text \<open>The cluster a run with \<open>small_config\<close> leaves behind when it starts from \<open>orders_sim\<close>.\<close>

definition sharded_sim :: sim where
  "sharded_sim = \<lparr>sim_colls = [''orders''],
     sim_indexes = [(''orders'', [id_index,
       \<lparr>doc_key = [(''uid'', JNum 1)], doc_name = ''idx_uid'',
        doc_rest = [(''unique'', JBool True), (''name'', JStr ''idx_uid''),
          (''background'', JBool True)]\<rparr>,
       \<lparr>doc_key = [(''createTime'', JNum 1)], doc_name = ''idx_createTime'',
        doc_rest = [(''name'', JStr ''idx_createTime''), (''background'', JBool True)]\<rparr>])],
     sim_sharded = [(''shop.orders'', [(''uid'', JNum 1)])],
     sim_chunks = [(''shop.orders'', 3)], sim_faults = []\<rparr>"

text \<open>\<open>small_config\<close> with \<^verbatim>\<open>skipExistingSharded: false\<close>.\<close>

definition no_skip_config :: config where
  "no_skip_config = small_config\<lparr>exec_opts := (exec_opts small_config)\<lparr>skipExistingSharded := False\<rparr>\<rparr>"

text \<open>
  A cluster where the first two split points are refused, and one where the second index
  of \<open>orders\<close> cannot be built.
\<close>

definition split_fault_sim :: sim where
  "split_fault_sim = orders_sim\<lparr>sim_faults :=
     [(SplitFind ''shop.orders'' (split_point 0), ''no shard key found in chunk query''),
      (SplitFind ''shop.orders'' (split_point 1), ''no shard key found in chunk query'')]\<rparr>"

definition index_fault_sim :: sim where
  "index_fault_sim = orders_sim\<lparr>sim_faults :=
     [(CreateIndex ''shop'' ''orders'' [(''createTime'', JNum 1)]
         [(''name'', JStr ''idx_createTime''), (''background'', JBool True)],
       ''disk full'')]\<rparr>"

text \<open>The sharded cluster, before any split.\<close>

definition one_chunk_sim :: sim where
  "one_chunk_sim = sharded_sim\<lparr>sim_chunks := [(''shop.orders'', 1)]\<rparr>"

text \<open>Clusters that answer with the messages the script takes for "already done".\<close>

definition already_enabled_sim :: sim where
  "already_enabled_sim = orders_sim\<lparr>sim_faults :=
     [(EnableSharding ''shop'', ''sharding already enabled for database shop'')]\<rparr>"

definition small_chunk_sim :: sim where
  "small_chunk_sim = one_chunk_sim\<lparr>sim_faults :=
     [(SplitFind ''shop.orders'' (split_point 0), ''chunk is too small to split'')]\<rparr>"

text \<open>
  Clusters where reading the indexes of \<open>orders\<close>, building the index on its shard key,
  or counting its chunks throws, and one where the first index of \<open>orders\<close> cannot be
  built and the first split is refused.
\<close>

definition getIndexes_fault_sim :: sim where
  "getIndexes_fault_sim = orders_sim\<lparr>sim_faults :=
     [(GetIndexes ''shop'' ''orders'', ''not authorized'')]\<rparr>"

definition key_index_fault_sim :: sim where
  "key_index_fault_sim = orders_sim\<lparr>sim_faults :=
     [(CreateIndex ''shop'' ''orders'' [(''uid'', JNum 1)] [(''background'', JBool True)],
       ''disk full'')]\<rparr>"

definition count_fault_sim :: sim where
  "count_fault_sim = orders_sim\<lparr>sim_faults :=
     [(CountDocuments_chunks ''shop.orders'', ''not authorized'')]\<rparr>"

definition warnings_sim :: sim where
  "warnings_sim = orders_sim\<lparr>sim_faults :=
     [(CreateIndex ''shop'' ''orders'' [(''uid'', JNum 1)]
         [(''unique'', JBool True), (''name'', JStr ''idx_uid''), (''background'', JBool True)],
       ''disk full''),
      (SplitFind ''shop.orders'' (split_point 0), ''no shard key found in chunk query'')]\<rparr>"

text \<open>
  A shell that answers \<^verbatim>\<open>getIndexes\<close> with the empty list for a collection that does not
  exist, where \<open>sim_api\<close> throws.
\<close>

definition lenient_api :: "sim mongosh" where
  "lenient_api = sim_api\<lparr>getIndexes := (\<lambda>s d c. answer s (GetIndexes d c) (sim_indexes_of s c))\<rparr>"

section \<open>Notions used in the statements\<close>

text \<open>A computation leaves the part \<open>F\<close> of the state as it was, whatever it returns.\<close>

definition keeps :: "('s shell \<Rightarrow> 'b) \<Rightarrow> ('s, 'a) prog \<Rightarrow> bool" where
  "keeps F m = (\<forall>st. F (snd (m st)) = F st)"

text \<open>The cluster, and the mutating calls issued so far.\<close>

definition frame :: "'s shell \<Rightarrow> 's \<times> call list" where
  "frame st = (cluster st, filter is_mutating (calls st))"

text \<open>A computation never throws.\<close>

definition returns :: "('s, 'a) prog \<Rightarrow> bool" where
  "returns m = (\<forall>st. \<exists>x. fst (m st) = Inr x)"

text \<open>A computation only appends to the trace of calls.\<close>

definition extends :: "('s, 'a) prog \<Rightarrow> bool" where
  "extends m = (\<forall>st. prefix (calls st) (calls (snd (m st))))"

text \<open>The calls a computation issues when it runs from the state \<open>st\<close>.\<close>

definition issued :: "('s, 'a) prog \<Rightarrow> 's shell \<Rightarrow> call list" where
  "issued m st = drop (length (calls st)) (calls (snd (m st)))"

text \<open>The lines a computation prints when it runs from the state \<open>st\<close>.\<close>

definition printed :: "('s, 'a) prog \<Rightarrow> 's shell \<Rightarrow> entry list" where
  "printed m st = drop (length (logs st)) (logs (snd (m st)))"

text \<open>The collections recorded in the three result lists, with their multiplicity.\<close>

definition recorded :: "results \<Rightarrow> string multiset" where
  "recorded r = mset (success r) + mset (skipped r) + mset (map fst (failed r))"

text \<open>
  A computation records the collection \<open>n\<close> once when it returns, and leaves the result
  lists as they were when it throws.
\<close>

definition records :: "string \<Rightarrow> ('s, 'a) prog \<Rightarrow> bool" where
  "records n m =
     (\<forall>st. case m st of
        (Inl e, st') \<Rightarrow> results st' = results st
      | (Inr x, st') \<Rightarrow> recorded (results st') = recorded (results st) + {#n#})"

text \<open>
  The \<^verbatim>\<open>createIndex\<close> call of line 612 for a configured index, on the collection \<open>n\<close> of
  the database \<open>d\<close>.
\<close>

definition index_call :: "config \<Rightarrow> string \<Rightarrow> string \<Rightarrow> index_spec \<Rightarrow> call" where
  "index_call cfg d n spec =
     CreateIndex d n (key spec)
       (AList.update ''background'' (JBool (backgroundIndex (exec_opts cfg))) (options spec))"

text \<open>The split attempts number \<open>i\<close> up to, and without, \<open>k\<close> on the namespace \<open>ns\<close>.\<close>

definition split_calls :: "string \<Rightarrow> int \<Rightarrow> int \<Rightarrow> call list" where
  "split_calls ns i k = map (\<lambda>j. SplitFind ns (split_point j)) [i..k - 1]"

text \<open>
  The line \<open>index_step\<close> prints in a dry run for the entry \<open>(index, idxConfig)\<close>: the index
  exists (line 597), or it would be created (line 602).
\<close>

definition index_line :: "index_doc list \<Rightarrow> nat \<times> index_spec \<Rightarrow> entry" where
  "index_line existing = (\<lambda>(index, spec).
     if index_exists existing (key spec)
     then Log Info 597 [string_of_nat (index + 1), JSON_stringify (key spec)]
     else Log Info 602 [JSON_stringify (key spec)])"

text \<open>
  The state \<open>processCollection\<close> hands to its \<^verbatim>\<open>try\<close> block (lines 515-516), the state its
  \<^verbatim>\<open>catch\<close> block leaves when the error \<open>e\<close> reaches it (lines 558-562), and the state
  lines 554-555 leave.
\<close>

definition entered :: "coll_config \<Rightarrow> 's shell \<Rightarrow> 's shell" where
  "entered cc st = st\<lparr>logs := logs st @ [Divider, Log Info 516 [name cc, description cc]]\<rparr>"

definition failed_with :: "coll_config \<Rightarrow> string \<Rightarrow> 's shell \<Rightarrow> 's shell" where
  "failed_with cc e st =
     st\<lparr>logs := logs st @ [Log Error 558 [name cc, e]],
        results := (results st)\<lparr>failed := failed (results st) @ [(name cc, e)]\<rparr>\<rparr>"

definition succeeded :: "coll_config \<Rightarrow> 's shell \<Rightarrow> 's shell" where
  "succeeded cc st =
     st\<lparr>logs := logs st @ [Log Success 555 [name cc]],
        results := (results st)\<lparr>success := success (results st) @ [name cc]\<rparr>\<rparr>"

text \<open>
  The checks of lines 522-535 all answer: \<^verbatim>\<open>use\<close> succeeds, \<^verbatim>\<open>getCollectionNames\<close> answers
  \<open>names\<close>, a collection that is not among them is created unless the run is a dry run,
  which leaves the cluster \<open>s1\<close>, and there the sharding document of the namespace is
  \<open>doc\<close>. \<open>after_checks\<close> is the state the script is in then.
\<close>

definition checks_answer ::
  "'s mongosh \<Rightarrow> config \<Rightarrow> coll_config \<Rightarrow> 's shell \<Rightarrow> string list \<Rightarrow> 's \<Rightarrow> jsobj option option \<Rightarrow> bool"
  where
  "checks_answer api cfg cc st names s1 doc =
     (use api (cluster st) (database cfg) = Inr () \<and>
      getCollectionNames api (cluster st) (database cfg) = Inr names \<and>
      (if name cc \<in> set names \<or> dryRun (exec_opts cfg) then s1 = cluster st
       else createCollection api (cluster st) (database cfg) (name cc) = (Inr (), s1)) \<and>
      findOne_collections api s1 (fullName_of cfg cc) = Inr doc)"

definition after_checks :: "config \<Rightarrow> coll_config \<Rightarrow> string list \<Rightarrow> 's \<Rightarrow> 's shell \<Rightarrow> 's shell" where
  "after_checks cfg cc names s1 st =
     st\<lparr>cluster := s1, current_db := database cfg,
        calls := calls st @ [Use (database cfg), GetCollectionNames (database cfg)] @
          (if name cc \<in> set names \<or> dryRun (exec_opts cfg) then []
           else [CreateCollection (database cfg) (name cc)]) @
          [FindOne_collections (fullName_of cfg cc)],
        logs := logs st @
          (if name cc \<in> set names then []
           else Log Warning 527 [name cc] #
                (if dryRun (exec_opts cfg) then [] else [Log Success 530 []]))\<rparr>"

text \<open>The truth value of \<^verbatim>\<open>collConfig && collConfig.key\<close> for the answer of \<^verbatim>\<open>findOne\<close>.\<close>

definition is_sharded :: "jsobj option option \<Rightarrow> bool" where
  "is_sharded doc = (case doc of None \<Rightarrow> False | Some k \<Rightarrow> k \<noteq> None)"

text \<open>
  The split loop as the specification words it: attempts at the split points \<open>i\<close>,
  \<open>i + 1\<close>, ... are made one after the other until \<open>m\<close> of them are made, or one of them
  is answered by an error whose message contains \<^verbatim>\<open>chunk is too small\<close>.
  \<open>split_answers\<close> lists the answers of the attempts made, from the cluster \<open>s\<close> on.
\<close>

definition stops :: "string + unit \<Rightarrow> bool" where
  "stops r = (case r of Inl e \<Rightarrow> str_includes e ''chunk is too small'' | Inr _ \<Rightarrow> False)"

fun split_answers :: "'s mongosh \<Rightarrow> string \<Rightarrow> nat \<Rightarrow> int \<Rightarrow> 's \<Rightarrow> (string + unit) list" where
  "split_answers api ns 0 i s = []"
| "split_answers api ns (Suc m) i s =
     (case splitFind api s ns (split_point i) of
        (r, s') \<Rightarrow> r # (if stops r then [] else split_answers api ns m (i + 1) s'))"

text \<open>The state lines 537-538 leave.\<close>

definition skipped_over :: "coll_config \<Rightarrow> 's shell \<Rightarrow> 's shell" where
  "skipped_over cc st =
     st\<lparr>logs := logs st @ [Log Info 537 []],
        results := (results st)\<lparr>skipped := skipped (results st) @ [name cc]\<rparr>\<rparr>"

section \<open>Reasoning about computations\<close>

subsection \<open>Running one step\<close>

lemma bnd_Inr: "m st = (Inr x, st') \<Longrightarrow> bnd m f st = f x st'"
  by (simp add: bnd_def)

lemma bnd_Inl: "m st = (Inl e, st') \<Longrightarrow> bnd m f st = (Inl e, st')"
  by (simp add: bnd_def)

lemma try_catch_Inr: "m st = (Inr x, st') \<Longrightarrow> try_catch m h st = (Inr x, st')"
  by (simp add: try_catch_def)

lemma try_catch_Inl: "m st = (Inl e, st') \<Longrightarrow> try_catch m h st = h e st'"
  by (simp add: try_catch_def)

subsection \<open>A computation that leaves a part of the state as it was\<close>

lemma keepsD: "keeps F m \<Longrightarrow> m st = (r, st') \<Longrightarrow> F st' = F st"
  unfolding keeps_def by (metis snd_conv)

lemma keeps_ret: "keeps F (ret x)"
  by (simp add: keeps_def ret_def)

lemma keeps_throw: "keeps F (throw e)"
  by (simp add: keeps_def throw_def)

lemma keeps_get_db: "keeps F get_db"
  by (simp add: keeps_def get_db_def)

lemma keeps_get_results: "keeps F get_results"
  by (simp add: keeps_def get_results_def)

lemma keeps_bnd: "keeps F m \<Longrightarrow> (\<And>x. keeps F (f x)) \<Longrightarrow> keeps F (bnd m f)"
  unfolding keeps_def bnd_def
  by (auto split: prod.splits sum.splits) (metis snd_conv)+

lemma keeps_try_catch: "keeps F m \<Longrightarrow> (\<And>e. keeps F (h e)) \<Longrightarrow> keeps F (try_catch m h)"
  unfolding keeps_def try_catch_def
  by (auto split: prod.splits sum.splits) (metis snd_conv)+

lemma keeps_block_Nil: "keeps F (block [])"
  by (simp add: keeps_ret)

lemma keeps_block_Cons: "keeps F m \<Longrightarrow> keeps F (block ms) \<Longrightarrow> keeps F (block (m # ms))"
  by (simp add: keeps_bnd)

lemma keeps_if_then: "(b \<Longrightarrow> keeps F m) \<Longrightarrow> keeps F (if_then b m)"
  by (simp add: if_then_def keeps_ret)

lemma keeps_if: "(b \<Longrightarrow> keeps F m) \<Longrightarrow> (\<not> b \<Longrightarrow> keeps F n) \<Longrightarrow> keeps F (if b then m else n)"
  by simp

lemma keeps_for_of: "(\<And>x. x \<in> set xs \<Longrightarrow> keeps F (body x)) \<Longrightarrow> keeps F (for_of xs body)"
  by (induction xs) (simp_all add: keeps_ret keeps_bnd)

lemma keeps_case_option:
  "keeps F m \<Longrightarrow> (\<And>x. keeps F (f x)) \<Longrightarrow> keeps F (case v of None \<Rightarrow> m | Some x \<Rightarrow> f x)"
  by (cases v) simp_all

lemma keeps_case_prod: "(\<And>a b. keeps F (f a b)) \<Longrightarrow> keeps F (case p of (a, b) \<Rightarrow> f a b)"
  by (cases p) simp

lemma keeps_Let: "keeps F (f v) \<Longrightarrow> keeps F (Let v f)"
  by simp

declare split_loop.simps [simp del]

declare string_of_nat.simps [simp del]

lemma keeps_split_loop_aux:
  "(\<And>i created. keeps F (split_step api fullName chunksNeeded i created)) \<Longrightarrow>
   F (snd (split_loop api fullName chunksNeeded i created st)) = F st"
proof (induction api fullName chunksNeeded i created st rule: split_loop.induct)
  case (1 api fullName chunksNeeded i created st)
  note unfold = split_loop.simps [of api fullName chunksNeeded i created st]
  show ?case
  proof (cases "i < chunksNeeded")
    case False
    then show ?thesis by (simp add: unfold)
  next
    case True
    obtain r st' where step: "split_step api fullName chunksNeeded i created st = (r, st')"
      by (cases "split_step api fullName chunksNeeded i created st")
    have F: "F st' = F st"
      using keepsD [OF "1.prems" step] .
    show ?thesis
    proof (cases r)
      case (Inl e)
      with True step F show ?thesis by (simp add: unfold)
    next
      case (Inr fl)
      show ?thesis
      proof (cases fl)
        case (Continue c)
        have "F (snd (split_loop api fullName chunksNeeded (i + 1) c st')) = F st'"
          using "1.IH" [OF True step [symmetric] Inr Continue "1.prems"] .
        with True step F Inr Continue show ?thesis by (simp add: unfold)
      next
        case (Break c)
        with True step F Inr show ?thesis by (simp add: unfold)
      qed
    qed
  qed
qed

lemma keeps_split_loop:
  assumes "\<And>i created. keeps F (split_step api fullName chunksNeeded i created)"
  shows "keeps F (split_loop api fullName chunksNeeded i created)"
  unfolding keeps_def
proof
  fix st
  show "F (snd (split_loop api fullName chunksNeeded i created st)) = F st"
    using keeps_split_loop_aux [OF assms] .
qed

lemmas keeps_rules = keeps_ret keeps_throw keeps_get_db keeps_get_results keeps_bnd
  keeps_try_catch keeps_block_Nil keeps_block_Cons keeps_if_then keeps_if keeps_for_of
  keeps_case_option keeps_case_prod keeps_Let

subsection \<open>The cluster and the mutating calls issued\<close>

lemma frame_logger: "keeps frame (logger e)"
  by (simp add: keeps_def logger_def frame_def)

lemma frame_sleep: "keeps frame (sleep n)"
  by (simp add: keeps_def sleep_def frame_def)

lemma frame_set_db: "keeps frame (set_db d)"
  by (simp add: keeps_def set_db_def frame_def)

lemma frame_push_success: "keeps frame (push_success n)"
  by (simp add: keeps_def push_success_def frame_def)

lemma frame_push_skipped: "keeps frame (push_skipped n)"
  by (simp add: keeps_def push_skipped_def frame_def)

lemma frame_push_failed: "keeps frame (push_failed n e)"
  by (simp add: keeps_def push_failed_def frame_def)

lemma frame_reading: "\<not> is_mutating c \<Longrightarrow> keeps frame (reading c f)"
  by (simp add: keeps_def reading_def frame_def)

lemmas frame_rules = keeps_rules frame_logger frame_sleep frame_set_db frame_push_success
  frame_push_skipped frame_push_failed frame_reading

lemma frame_use_db: "keeps frame (use_db api d)"
  unfolding use_db_def by (intro frame_rules) simp

lemma frame_validateConnection: "keeps frame (validateConnection api)"
  unfolding validateConnection_def by (intro frame_rules) simp_all

lemma frame_enableDatabaseSharding:
  "dryRun (exec_opts cfg) \<Longrightarrow> keeps frame (enableDatabaseSharding api cfg)"
  unfolding enableDatabaseSharding_def by (intro frame_rules) simp_all

lemma frame_checkCollectionExists: "keeps frame (checkCollectionExists api n)"
  unfolding checkCollectionExists_def by (intro frame_rules) simp

lemma frame_checkIfSharded: "keeps frame (checkIfSharded api ns)"
  unfolding checkIfSharded_def by (intro frame_rules) simp

lemma frame_createIndexes:
  "dryRun (exec_opts cfg) \<Longrightarrow> keeps frame (createIndexes api cfg cc)"
  unfolding createIndexes_def index_step_def by (intro frame_rules) simp_all

lemma frame_createShardKeyIndex:
  "dryRun (exec_opts cfg) \<Longrightarrow> keeps frame (createShardKeyIndex api cfg cc)"
  unfolding createShardKeyIndex_def by (intro frame_rules) simp_all

lemma frame_enableCollectionSharding:
  "dryRun (exec_opts cfg) \<Longrightarrow> keeps frame (enableCollectionSharding api cfg cc)"
  unfolding enableCollectionSharding_def by (intro frame_rules) simp_all

lemma frame_preSplitChunks:
  "dryRun (exec_opts cfg) \<Longrightarrow> keeps frame (preSplitChunks api cfg cc)"
  unfolding preSplitChunks_def by (intro frame_rules) simp_all

lemma frame_collection_steps:
  "dryRun (exec_opts cfg) \<Longrightarrow> keeps frame (collection_steps api cfg cc)"
  unfolding collection_steps_def
  by (intro frame_rules frame_use_db frame_checkCollectionExists frame_checkIfSharded
      frame_createIndexes frame_createShardKeyIndex frame_enableCollectionSharding
      frame_preSplitChunks) simp_all

lemma frame_processCollection:
  "dryRun (exec_opts cfg) \<Longrightarrow> keeps frame (processCollection api cfg cc)"
  unfolding processCollection_def by (intro frame_rules frame_collection_steps)

lemma frame_validateIndexes: "keeps frame (validateIndexes api cfg cc)"
  unfolding validateIndexes_def by (intro frame_rules frame_use_db) simp

lemma frame_validateSharding: "keeps frame (validateSharding api ns)"
  unfolding validateSharding_def
  by (intro frame_rules) (simp_all add: frame_rules split: option.split)

lemma frame_validateDataDistribution: "keeps frame (validateDataDistribution api cfg cc)"
  unfolding validateDataDistribution_def by (intro frame_rules frame_use_db) simp

lemma frame_validateResults: "keeps frame (validateResults api cfg)"
  unfolding validateResults_def
  by (intro frame_rules frame_validateIndexes frame_validateSharding
      frame_validateDataDistribution)

lemma frame_showRecommendations: "keeps frame (showRecommendations cfg)"
  unfolding showRecommendations_def by (intro frame_rules)

lemma frame_showSummary: "keeps frame (showSummary cfg)"
  unfolding showSummary_def by (intro frame_rules frame_showRecommendations)

lemma frame_execute: "dryRun (exec_opts cfg) \<Longrightarrow> keeps frame (execute api cfg)"
  unfolding execute_def
  by (intro frame_rules frame_validateConnection frame_enableDatabaseSharding
      frame_processCollection frame_validateResults frame_showSummary)

lemma frame_main:
  assumes "dryRun (exec_opts cfg)"
  shows "frame (snd (main api cfg s d)) = (s, [])"
proof -
  let ?m = "block [logger (Section 923 []), logger (Log Info 924 []), logger (Log Info 925 []),
    logger (Log Info 926 []), execute api cfg]"
  have k: "keeps frame ?m"
    by (intro frame_rules frame_execute assms)
  obtain r st where run: "?m (new_shell s d) = (r, st)"
    by (cases "?m (new_shell s d)")
  have "frame st = frame (new_shell s d)"
    using keepsD [OF k run] .
  then have st: "frame st = (s, [])"
    by (simp add: frame_def new_shell_def)
  have l: "frame (snd (logger e st)) = frame st" for e
    by (simp add: logger_def frame_def)
  show ?thesis
    using run st l by (cases r) (simp_all add: main_def)
qed

subsection \<open>Computations that never throw\<close>

lemma returnsD: "returns m \<Longrightarrow> \<exists>x st'. m st = (Inr x, st')"
  unfolding returns_def by (metis prod.collapse)

lemma returns_unit: "returns m \<Longrightarrow> fst (m st) = Inr ()"
  by (auto simp: returns_def)

lemma returns_ret: "returns (ret x)"
  by (simp add: returns_def ret_def)

lemma returns_logger: "returns (logger e)"
  by (simp add: returns_def logger_def)

lemma returns_sleep: "returns (sleep n)"
  by (simp add: returns_def sleep_def)

lemma returns_get_db: "returns get_db"
  by (simp add: returns_def get_db_def)

lemma returns_get_results: "returns get_results"
  by (simp add: returns_def get_results_def)

lemma returns_push_success: "returns (push_success n)"
  by (simp add: returns_def push_success_def)

lemma returns_push_skipped: "returns (push_skipped n)"
  by (simp add: returns_def push_skipped_def)

lemma returns_push_failed: "returns (push_failed n e)"
  by (simp add: returns_def push_failed_def)

lemma returns_bnd:
  assumes m: "returns m" and f: "\<And>x. returns (f x)"
  shows "returns (bnd m f)"
  unfolding returns_def
proof
  fix st
  obtain x st' where "m st = (Inr x, st')"
    using returnsD [OF m] by blast
  then have "bnd m f st = f x st'"
    by (rule bnd_Inr)
  then show "\<exists>y. fst (bnd m f st) = Inr y"
    using f [of x] by (simp add: returns_def)
qed

lemma returns_try_catch: "(\<And>e. returns (h e)) \<Longrightarrow> returns (try_catch m h)"
  unfolding returns_def try_catch_def
  by (auto split: prod.splits sum.splits)

lemma returns_block_Nil: "returns (block [])"
  by (simp add: returns_ret)

lemma returns_block_Cons: "returns m \<Longrightarrow> returns (block ms) \<Longrightarrow> returns (block (m # ms))"
  by (simp add: returns_bnd)

lemma returns_if_then: "(b \<Longrightarrow> returns m) \<Longrightarrow> returns (if_then b m)"
  by (simp add: if_then_def returns_ret)

lemma returns_if:
  "(b \<Longrightarrow> returns m) \<Longrightarrow> (\<not> b \<Longrightarrow> returns n) \<Longrightarrow> returns (if b then m else n)"
  by simp

lemma returns_for_of:
  "(\<And>x. x \<in> set xs \<Longrightarrow> returns (body x)) \<Longrightarrow> returns (for_of xs body)"
  by (induction xs) (simp_all add: returns_ret returns_bnd)

lemma returns_case_prod: "(\<And>a b. returns (f a b)) \<Longrightarrow> returns (case p of (a, b) \<Rightarrow> f a b)"
  by (cases p) simp

lemma returns_Let: "returns (f v) \<Longrightarrow> returns (Let v f)"
  by simp

lemmas returns_rules = returns_ret returns_logger returns_sleep returns_get_db
  returns_get_results returns_push_success returns_push_skipped returns_push_failed
  returns_bnd returns_try_catch returns_block_Nil returns_block_Cons returns_if_then
  returns_if returns_for_of returns_case_prod returns_Let

lemma returns_processCollection: "returns (processCollection api cfg cc)"
  unfolding processCollection_def by (intro returns_rules)

lemma returns_validateResults: "returns (validateResults api cfg)"
  unfolding validateResults_def by (intro returns_rules)

lemma returns_showRecommendations: "returns (showRecommendations cfg)"
  unfolding showRecommendations_def by (intro returns_rules)

lemma returns_showSummary: "returns (showSummary cfg)"
  unfolding showSummary_def by (intro returns_rules returns_showRecommendations)

subsection \<open>The result lists\<close>

lemma results_logger: "keeps results (logger e)"
  by (simp add: keeps_def logger_def)

lemma results_sleep: "keeps results (sleep n)"
  by (simp add: keeps_def sleep_def)

lemma results_set_db: "keeps results (set_db d)"
  by (simp add: keeps_def set_db_def)

lemma results_reading: "keeps results (reading c f)"
  by (simp add: keeps_def reading_def)

lemma results_mutating: "keeps results (mutating c f)"
  by (simp add: keeps_def mutating_def split: prod.splits)

lemmas results_rules = keeps_rules results_logger results_sleep results_set_db
  results_reading results_mutating

lemma results_use_db: "keeps results (use_db api d)"
  unfolding use_db_def by (intro results_rules)

lemma results_validateConnection: "keeps results (validateConnection api)"
  unfolding validateConnection_def by (intro results_rules)

lemma results_enableDatabaseSharding: "keeps results (enableDatabaseSharding api cfg)"
  unfolding enableDatabaseSharding_def by (intro results_rules)

lemma results_checkCollectionExists: "keeps results (checkCollectionExists api n)"
  unfolding checkCollectionExists_def by (intro results_rules)

lemma results_checkIfSharded: "keeps results (checkIfSharded api ns)"
  unfolding checkIfSharded_def by (intro results_rules)

lemma results_createIndexes: "keeps results (createIndexes api cfg cc)"
  unfolding createIndexes_def index_step_def by (intro results_rules)

lemma results_createShardKeyIndex: "keeps results (createShardKeyIndex api cfg cc)"
  unfolding createShardKeyIndex_def by (intro results_rules)

lemma results_enableCollectionSharding: "keeps results (enableCollectionSharding api cfg cc)"
  unfolding enableCollectionSharding_def by (intro results_rules)

lemma results_split_step: "keeps results (split_step api fullName chunksNeeded i created)"
  unfolding split_step_def by (intro results_rules)

lemma results_preSplitChunks: "keeps results (preSplitChunks api cfg cc)"
  unfolding preSplitChunks_def
  by (intro results_rules keeps_split_loop results_split_step)

lemma results_validateIndexes: "keeps results (validateIndexes api cfg cc)"
  unfolding validateIndexes_def by (intro results_rules results_use_db)

lemma results_validateSharding: "keeps results (validateSharding api ns)"
  unfolding validateSharding_def by (intro results_rules)

lemma results_validateDataDistribution: "keeps results (validateDataDistribution api cfg cc)"
  unfolding validateDataDistribution_def by (intro results_rules results_use_db)

lemma results_validateResults: "keeps results (validateResults api cfg)"
  unfolding validateResults_def
  by (intro results_rules results_validateIndexes results_validateSharding
      results_validateDataDistribution)

lemma results_showRecommendations: "keeps results (showRecommendations cfg)"
  unfolding showRecommendations_def by (intro results_rules)

lemma results_showSummary: "keeps results (showSummary cfg)"
  unfolding showSummary_def by (intro results_rules results_showRecommendations)

subsection \<open>Blocks, statement by statement\<close>

lemma block_Cons_Inr: "fst (m st) = Inr () \<Longrightarrow> block (m # ms) st = block ms (snd (m st))"
  by (cases "m st") (simp add: bnd_def)

lemma block_Cons_Inl: "fst (m st) = Inl e \<Longrightarrow> block (m # ms) st = (Inl e, snd (m st))"
  by (cases "m st") (simp add: bnd_def)

lemma block_Cons_returns: "returns m \<Longrightarrow> block (m # ms) st = block ms (snd (m st))"
  by (rule block_Cons_Inr) (rule returns_unit)

lemma block_Nil_run: "block [] st = (Inr (), st)"
  by (simp add: ret_def)

lemma block_single: "block [m] = m"
proof
  fix st
  show "block [m] st = m st"
    by (cases "m st"; cases "fst (m st)") (auto simp add: bnd_def ret_def)
qed

lemma block_rethrow:
  "block [logger l, throw e] st = (Inl e, snd (logger l st))"
  by (simp add: bnd_def logger_def throw_def)

lemma keeps_run: "keeps F m \<Longrightarrow> F (snd (m st)) = F st"
  by (simp add: keeps_def)

lemma frame_cluster: "keeps frame m \<Longrightarrow> cluster (snd (m st)) = cluster st"
  using keeps_run [of frame m st] by (simp add: frame_def)

subsection \<open>One outcome for each collection\<close>

lemma records_Inl:
  assumes "records n m" and "m st = (Inl e, st')"
  shows "results st' = results st"
proof -
  have "case m st of
          (Inl e, st') \<Rightarrow> results st' = results st
        | (Inr x, st') \<Rightarrow> recorded (results st') = recorded (results st) + {#n#}"
    using assms(1) unfolding records_def by (rule spec)
  then show ?thesis
    using assms(2) by simp
qed

lemma records_Inr:
  assumes "records n m" and "m st = (Inr x, st')"
  shows "recorded (results st') = recorded (results st) + {#n#}"
proof -
  have "case m st of
          (Inl e, st') \<Rightarrow> results st' = results st
        | (Inr x, st') \<Rightarrow> recorded (results st') = recorded (results st) + {#n#}"
    using assms(1) unfolding records_def by (rule spec)
  then show ?thesis
    using assms(2) by simp
qed

lemma records_pre:
  assumes m: "keeps results m" and f: "\<And>x. records n (f x)"
  shows "records n (bnd m f)"
  unfolding records_def
proof
  fix st
  obtain r st1 where run: "m st = (r, st1)"
    by (cases "m st")
  have same: "results st1 = results st"
    using keepsD [OF m run] .
  show "case bnd m f st of
          (Inl e, st') \<Rightarrow> results st' = results st
        | (Inr x, st') \<Rightarrow> recorded (results st') = recorded (results st) + {#n#}"
  proof (cases r)
    case (Inl e)
    with run same show ?thesis by (simp add: bnd_def)
  next
    case (Inr x)
    with run have "bnd m f st = f x st1" by (simp add: bnd_def)
    moreover have "case f x st1 of
          (Inl e, st') \<Rightarrow> results st' = results st1
        | (Inr y, st') \<Rightarrow> recorded (results st') = recorded (results st1) + {#n#}"
      using f [of x] unfolding records_def by (rule spec)
    ultimately show ?thesis unfolding same by simp
  qed
qed

lemma records_post:
  assumes m: "records n m" and k: "\<And>x. keeps results (f x)" and r: "\<And>x. returns (f x)"
  shows "records n (bnd m f)"
  unfolding records_def
proof
  fix st
  obtain r1 st1 where run: "m st = (r1, st1)"
    by (cases "m st")
  show "case bnd m f st of
          (Inl e, st') \<Rightarrow> results st' = results st
        | (Inr x, st') \<Rightarrow> recorded (results st') = recorded (results st) + {#n#}"
  proof (cases r1)
    case (Inl e)
    with run records_Inl [OF m, of st e st1] show ?thesis by (simp add: bnd_def)
  next
    case (Inr x)
    obtain y st2 where run2: "f x st1 = (Inr y, st2)"
      using returnsD [OF r] by blast
    have "results st2 = results st1"
      using keepsD [OF k run2] .
    moreover have "recorded (results st1) = recorded (results st) + {#n#}"
      using records_Inr [OF m, of st x st1] run Inr by simp
    ultimately show ?thesis
      using run Inr run2 by (simp add: bnd_def)
  qed
qed

lemma records_push_success: "records n (push_success n)"
  by (simp add: records_def push_success_def recorded_def)

lemma records_push_skipped: "records n (push_skipped n)"
  by (simp add: records_def push_skipped_def recorded_def)

lemma records_if: "records n a \<Longrightarrow> records n b \<Longrightarrow> records n (if c then a else b)"
  by simp

lemma records_block_pre: "keeps results m \<Longrightarrow> records n (block ms) \<Longrightarrow> records n (block (m # ms))"
  by (simp add: records_pre)

lemma records_collection_steps: "records (name cc) (collection_steps api cfg cc)"
proof -
  have skip: "records (name cc) (block [logger (Log Info 537 []), push_skipped (name cc)])"
    by (rule records_block_pre [OF results_logger])
      (simp only: block_single records_push_skipped)
  have fin: "records (name cc) (block [push_success (name cc), logger (Log Success 555 [name cc])])"
    unfolding block.simps
    by (intro records_post records_push_success results_rules returns_rules)
  have go: "records (name cc) (block [
        createIndexes api cfg cc, createShardKeyIndex api cfg cc,
        enableCollectionSharding api cfg cc, preSplitChunks api cfg cc,
        push_success (name cc), logger (Log Success 555 [name cc])])"
    by (intro records_block_pre results_createIndexes results_createShardKeyIndex
        results_enableCollectionSharding results_preSplitChunks fin)
  show ?thesis
    unfolding collection_steps_def Let_def
    apply (rule records_pre [OF results_use_db])
    apply (rule records_pre [OF results_checkCollectionExists])
    apply (rule records_pre)
     apply (intro results_rules)
    apply (rule records_pre [OF results_checkIfSharded])
    apply (rule records_if [OF skip go])
    done
qed

lemma processCollection_recorded:
  "recorded (results (snd (processCollection api cfg cc st))) =
   recorded (results st) + {#name cc#}"
proof -
  define st2 where
    "st2 = snd (logger (Log Info 516 [name cc, description cc]) (snd (logger Divider st)))"
  have same: "results st2 = results st"
    by (simp add: st2_def logger_def)
  let ?h = "\<lambda>error. block [logger (Log Error 558 [name cc, error]), push_failed (name cc) error]"
  have run: "processCollection api cfg cc st = try_catch (collection_steps api cfg cc) ?h st2"
    by (simp only: processCollection_def block_Cons_returns [OF returns_logger] block_single
        st2_def)
  obtain r st3 where steps: "collection_steps api cfg cc st2 = (r, st3)"
    by (cases "collection_steps api cfg cc st2")
  show ?thesis
  proof (cases r)
    case (Inl e)
    then have "results st3 = results st2"
      using records_Inl [OF records_collection_steps, of api cfg cc st2 e st3] steps by simp
    with Inl steps same show ?thesis
      by (simp add: run try_catch_def bnd_def logger_def push_failed_def ret_def recorded_def)
  next
    case (Inr x)
    then have "recorded (results st3) = recorded (results st2) + {#name cc#}"
      using records_Inr [OF records_collection_steps, of api cfg cc st2 x st3] steps by simp
    with Inr steps same show ?thesis
      by (simp add: run try_catch_def)
  qed
qed

lemma for_of_returns_step:
  "returns (body x) \<Longrightarrow> for_of (x # xs) body st = for_of xs body (snd (body x st))"
  using returnsD [of "body x" st] by (auto simp add: bnd_def)

lemma for_of_processCollection_recorded:
  "recorded (results (snd (for_of ccs (processCollection api cfg) st))) =
   recorded (results st) + mset (map name ccs)"
proof (induction ccs arbitrary: st)
  case Nil
  show ?case by (simp add: ret_def)
next
  case (Cons cc ccs)
  have "for_of (cc # ccs) (processCollection api cfg) st =
      for_of ccs (processCollection api cfg) (snd (processCollection api cfg cc st))"
    by (rule for_of_returns_step [OF returns_processCollection])
  then show ?case
    by (simp del: for_of.simps add: Cons.IH processCollection_recorded)
qed

lemma returns_for_of_processCollection: "returns (for_of ccs (processCollection api cfg))"
  by (intro returns_rules returns_processCollection)

subsection \<open>The outcome of \<^verbatim>\<open>execute\<close> and of \<^verbatim>\<open>main\<close>\<close>

text \<open>
  Whether the first two steps throw depends on the cluster only, and the connection check
  leaves the cluster as it is: both can be asked at any state of the shell with the same
  cluster.
\<close>

lemma validateConnection_cluster:
  "cluster st' = cluster st \<Longrightarrow> fst (validateConnection api st') = fst (validateConnection api st)"
  by (simp add: validateConnection_def bnd_def try_catch_def reading_def logger_def
      if_then_def ret_def throw_def split: sum.splits option.splits prod.splits)

lemma enableDatabaseSharding_cluster:
  "cluster st' = cluster st \<Longrightarrow>
   fst (enableDatabaseSharding api cfg st') = fst (enableDatabaseSharding api cfg st)"
  by (simp add: enableDatabaseSharding_def bnd_def try_catch_def mutating_def logger_def
      if_then_def ret_def throw_def split: sum.splits option.splits prod.splits)

text \<open>The state in which \<^verbatim>\<open>execute\<close> enters its \<^verbatim>\<open>try\<close> block (after lines 418-421).\<close>

lemma execute_unfold:
  "\<exists>st0. cluster st0 = cluster st \<and> results st0 = results st \<and>
     execute api cfg st =
       try_catch
         (block [validateConnection api, enableDatabaseSharding api cfg,
            for_of (collections cfg) (processCollection api cfg),
            validateResults api cfg, showSummary cfg])
         (\<lambda>error. block [logger (Log Error 442 [error]), throw error]) st0"
proof -
  let ?l1 = "logger (Section 418 [])"
  let ?l2 = "logger (Log Info 419 [database cfg])"
  let ?l3 = "logger (Log Info 420 [join '', '' (map name (collections cfg))])"
  let ?l4 = "logger (Log Info 421 [if dryRun (exec_opts cfg) then ''dry run'' else ''real run''])"
  let ?st0 = "snd (?l4 (snd (?l3 (snd (?l2 (snd (?l1 st)))))))"
  have "cluster ?st0 = cluster st" "results ?st0 = results st"
    by (simp_all add: logger_def)
  moreover have "execute api cfg st =
       try_catch
         (block [validateConnection api, enableDatabaseSharding api cfg,
            for_of (collections cfg) (processCollection api cfg),
            validateResults api cfg, showSummary cfg])
         (\<lambda>error. block [logger (Log Error 442 [error]), throw error]) ?st0"
    by (simp only: execute_def block_Cons_returns [OF returns_logger] block_single)
  ultimately show ?thesis by blast
qed

lemma execute_connection_fails:
  assumes "fst (validateConnection api st) = Inl e"
  shows "fst (execute api cfg st) = Inl e \<and> results (snd (execute api cfg st)) = results st"
proof -
  obtain st0 where st0: "cluster st0 = cluster st" "results st0 = results st"
    and ex: "execute api cfg st =
       try_catch
         (block [validateConnection api, enableDatabaseSharding api cfg,
            for_of (collections cfg) (processCollection api cfg),
            validateResults api cfg, showSummary cfg])
         (\<lambda>error. block [logger (Log Error 442 [error]), throw error]) st0"
    using execute_unfold [of st api cfg] by blast
  have vc: "fst (validateConnection api st0) = Inl e"
    using assms validateConnection_cluster [OF st0(1)] by simp
  have r1: "results (snd (validateConnection api st0)) = results st0"
    by (rule keeps_run [OF results_validateConnection])
  have "block [validateConnection api, enableDatabaseSharding api cfg,
            for_of (collections cfg) (processCollection api cfg),
            validateResults api cfg, showSummary cfg] st0 =
        (Inl e, snd (validateConnection api st0))"
    by (rule block_Cons_Inl) (rule vc)
  then show ?thesis
    using st0 r1 by (simp del: block.simps add: ex try_catch_def block_rethrow logger_def)
qed

lemma execute_database_fails:
  assumes "fst (validateConnection api st) = Inr ()"
    and "fst (enableDatabaseSharding api cfg st) = Inl e"
  shows "fst (execute api cfg st) = Inl e \<and> results (snd (execute api cfg st)) = results st"
proof -
  obtain st0 where st0: "cluster st0 = cluster st" "results st0 = results st"
    and ex: "execute api cfg st =
       try_catch
         (block [validateConnection api, enableDatabaseSharding api cfg,
            for_of (collections cfg) (processCollection api cfg),
            validateResults api cfg, showSummary cfg])
         (\<lambda>error. block [logger (Log Error 442 [error]), throw error]) st0"
    using execute_unfold [of st api cfg] by blast
  let ?st1 = "snd (validateConnection api st0)"
  have vc: "fst (validateConnection api st0) = Inr ()"
    using assms(1) validateConnection_cluster [OF st0(1)] by simp
  have c1: "cluster ?st1 = cluster st"
    using frame_cluster [OF frame_validateConnection, of api st0] st0 by simp
  have r1: "results ?st1 = results st"
    using keeps_run [OF results_validateConnection, of api st0] st0 by simp
  have ed: "fst (enableDatabaseSharding api cfg ?st1) = Inl e"
    using assms(2) enableDatabaseSharding_cluster [OF c1] by simp
  have r2: "results (snd (enableDatabaseSharding api cfg ?st1)) = results ?st1"
    by (rule keeps_run [OF results_enableDatabaseSharding])
  have "block [validateConnection api, enableDatabaseSharding api cfg,
            for_of (collections cfg) (processCollection api cfg),
            validateResults api cfg, showSummary cfg] st0 =
        block [enableDatabaseSharding api cfg,
            for_of (collections cfg) (processCollection api cfg),
            validateResults api cfg, showSummary cfg] ?st1"
    by (rule block_Cons_Inr) (rule vc)
  also have "\<dots> = (Inl e, snd (enableDatabaseSharding api cfg ?st1))"
    by (rule block_Cons_Inl) (rule ed)
  finally show ?thesis
    using r1 r2 by (simp del: block.simps add: ex try_catch_def block_rethrow logger_def)
qed

lemma execute_completes:
  assumes "fst (validateConnection api st) = Inr ()"
    and "fst (enableDatabaseSharding api cfg st) = Inr ()"
  shows "fst (execute api cfg st) = Inr () \<and>
         recorded (results (snd (execute api cfg st))) =
         recorded (results st) + mset (map name (collections cfg))"
proof -
  obtain st0 where st0: "cluster st0 = cluster st" "results st0 = results st"
    and ex: "execute api cfg st =
       try_catch
         (block [validateConnection api, enableDatabaseSharding api cfg,
            for_of (collections cfg) (processCollection api cfg),
            validateResults api cfg, showSummary cfg])
         (\<lambda>error. block [logger (Log Error 442 [error]), throw error]) st0"
    using execute_unfold [of st api cfg] by blast
  let ?st1 = "snd (validateConnection api st0)"
  let ?st2 = "snd (enableDatabaseSharding api cfg ?st1)"
  let ?st3 = "snd (for_of (collections cfg) (processCollection api cfg) ?st2)"
  let ?st4 = "snd (validateResults api cfg ?st3)"
  let ?st5 = "snd (showSummary cfg ?st4)"
  have vc: "fst (validateConnection api st0) = Inr ()"
    using assms(1) validateConnection_cluster [OF st0(1)] by simp
  have c1: "cluster ?st1 = cluster st"
    using frame_cluster [OF frame_validateConnection, of api st0] st0 by simp
  have r1: "results ?st1 = results st"
    using keeps_run [OF results_validateConnection, of api st0] st0 by simp
  have ed: "fst (enableDatabaseSharding api cfg ?st1) = Inr ()"
    using assms(2) enableDatabaseSharding_cluster [OF c1] by simp
  have r2: "results ?st2 = results ?st1"
    by (rule keeps_run [OF results_enableDatabaseSharding])
  have r3: "recorded (results ?st3) =
      recorded (results ?st2) + mset (map name (collections cfg))"
    by (rule for_of_processCollection_recorded)
  have r4: "results ?st4 = results ?st3"
    by (rule keeps_run [OF results_validateResults])
  have r5: "results ?st5 = results ?st4"
    by (rule keeps_run [OF results_showSummary])
  have "block [validateConnection api, enableDatabaseSharding api cfg,
            for_of (collections cfg) (processCollection api cfg),
            validateResults api cfg, showSummary cfg] st0 =
        block [enableDatabaseSharding api cfg,
            for_of (collections cfg) (processCollection api cfg),
            validateResults api cfg, showSummary cfg] ?st1"
    by (rule block_Cons_Inr) (rule vc)
  also have "\<dots> = block [for_of (collections cfg) (processCollection api cfg),
            validateResults api cfg, showSummary cfg] ?st2"
    by (rule block_Cons_Inr) (rule ed)
  also have "\<dots> = (Inr (), ?st5)"
    by (simp only: block_Cons_returns [OF returns_for_of_processCollection]
        block_Cons_returns [OF returns_validateResults]
        block_Cons_returns [OF returns_showSummary] block_Nil_run)
  finally have "block [validateConnection api, enableDatabaseSharding api cfg,
            for_of (collections cfg) (processCollection api cfg),
            validateResults api cfg, showSummary cfg] st0 = (Inr (), ?st5)" .
  then have "execute api cfg st = (Inr (), ?st5)"
    by (simp add: ex try_catch_def)
  then show ?thesis
    using r1 r2 r3 r4 r5 by simp
qed

lemma main_unfold:
  "\<exists>st0. cluster st0 = s \<and> results st0 = \<lparr>success = [], skipped = [], failed = []\<rparr> \<and>
     main api cfg s d =
       (case execute api cfg st0 of
          (Inr _, st) \<Rightarrow> (Returned, st)
        | (Inl error, st) \<Rightarrow> (Exit 1, snd (logger (Log Error 935 [error]) st)))"
proof -
  let ?st0 = "snd (logger (Log Info 926 []) (snd (logger (Log Info 925 [])
    (snd (logger (Log Info 924 []) (snd (logger (Section 923 []) (new_shell s d))))))))"
  have "cluster ?st0 = s" "results ?st0 = \<lparr>success = [], skipped = [], failed = []\<rparr>"
    by (simp_all add: logger_def new_shell_def)
  moreover have "main api cfg s d =
       (case execute api cfg ?st0 of
          (Inr _, st) \<Rightarrow> (Returned, st)
        | (Inl error, st) \<Rightarrow> (Exit 1, snd (logger (Log Error 935 [error]) st)))"
    by (simp only: main_def block_Cons_returns [OF returns_logger] block_single)
  ultimately show ?thesis by blast
qed

subsection \<open>The trace only grows\<close>

lemma extendsD: "extends m \<Longrightarrow> m st = (r, st') \<Longrightarrow> prefix (calls st) (calls st')"
  unfolding extends_def by (metis snd_conv)

lemma extends_run: "extends m \<Longrightarrow> prefix (calls st) (calls (snd (m st)))"
  by (simp add: extends_def)

lemma extends_ret: "extends (ret x)"
  by (simp add: extends_def ret_def)

lemma extends_throw: "extends (throw e)"
  by (simp add: extends_def throw_def)

lemma extends_get_db: "extends get_db"
  by (simp add: extends_def get_db_def)

lemma extends_get_results: "extends get_results"
  by (simp add: extends_def get_results_def)

lemma extends_logger: "extends (logger e)"
  by (simp add: extends_def logger_def)

lemma extends_sleep: "extends (sleep n)"
  by (simp add: extends_def sleep_def)

lemma extends_set_db: "extends (set_db d)"
  by (simp add: extends_def set_db_def)

lemma extends_push_success: "extends (push_success n)"
  by (simp add: extends_def push_success_def)

lemma extends_push_skipped: "extends (push_skipped n)"
  by (simp add: extends_def push_skipped_def)

lemma extends_push_failed: "extends (push_failed n e)"
  by (simp add: extends_def push_failed_def)

lemma extends_reading: "extends (reading c f)"
  by (simp add: extends_def reading_def)

lemma extends_mutating: "extends (mutating c f)"
  by (simp add: extends_def mutating_def split: prod.splits)

lemma extends_bnd:
  assumes m: "extends m" and f: "\<And>x. extends (f x)"
  shows "extends (bnd m f)"
  unfolding extends_def
proof
  fix st
  obtain r st1 where run: "m st = (r, st1)"
    by (cases "m st")
  have p: "prefix (calls st) (calls st1)"
    using extendsD [OF m run] .
  show "prefix (calls st) (calls (snd (bnd m f st)))"
  proof (cases r)
    case (Inl e)
    with run p show ?thesis by (simp add: bnd_def)
  next
    case (Inr x)
    with run have "bnd m f st = f x st1" by (simp add: bnd_def)
    with p extends_run [OF f [of x], of st1] show ?thesis
      by (auto intro: prefix_order.trans)
  qed
qed

lemma extends_try_catch:
  assumes m: "extends m" and h: "\<And>e. extends (h e)"
  shows "extends (try_catch m h)"
  unfolding extends_def
proof
  fix st
  obtain r st1 where run: "m st = (r, st1)"
    by (cases "m st")
  have p: "prefix (calls st) (calls st1)"
    using extendsD [OF m run] .
  show "prefix (calls st) (calls (snd (try_catch m h st)))"
  proof (cases r)
    case (Inr x)
    with run p show ?thesis by (simp add: try_catch_def)
  next
    case (Inl e)
    with run have "try_catch m h st = h e st1" by (simp add: try_catch_def)
    with p extends_run [OF h [of e], of st1] show ?thesis
      by (auto intro: prefix_order.trans)
  qed
qed

lemma extends_block_Nil: "extends (block [])"
  by (simp add: extends_ret)

lemma extends_block_Cons: "extends m \<Longrightarrow> extends (block ms) \<Longrightarrow> extends (block (m # ms))"
  by (simp add: extends_bnd)

lemma extends_if_then: "(b \<Longrightarrow> extends m) \<Longrightarrow> extends (if_then b m)"
  by (simp add: if_then_def extends_ret)

lemma extends_if:
  "(b \<Longrightarrow> extends m) \<Longrightarrow> (\<not> b \<Longrightarrow> extends n) \<Longrightarrow> extends (if b then m else n)"
  by simp

lemma extends_for_of: "(\<And>x. x \<in> set xs \<Longrightarrow> extends (body x)) \<Longrightarrow> extends (for_of xs body)"
  by (induction xs) (simp_all add: extends_ret extends_bnd)

lemma extends_case_option:
  "extends m \<Longrightarrow> (\<And>x. extends (f x)) \<Longrightarrow> extends (case v of None \<Rightarrow> m | Some x \<Rightarrow> f x)"
  by (cases v) simp_all

lemma extends_case_prod: "(\<And>a b. extends (f a b)) \<Longrightarrow> extends (case p of (a, b) \<Rightarrow> f a b)"
  by (cases p) simp

lemma extends_Let: "extends (f v) \<Longrightarrow> extends (Let v f)"
  by simp

lemma extends_split_loop_aux:
  "(\<And>i created. extends (split_step api fullName chunksNeeded i created)) \<Longrightarrow>
   prefix (calls st) (calls (snd (split_loop api fullName chunksNeeded i created st)))"
proof (induction api fullName chunksNeeded i created st rule: split_loop.induct)
  case (1 api fullName chunksNeeded i created st)
  note unfold = split_loop.simps [of api fullName chunksNeeded i created st]
  show ?case
  proof (cases "i < chunksNeeded")
    case False
    then show ?thesis by (simp add: unfold)
  next
    case True
    obtain r st' where step: "split_step api fullName chunksNeeded i created st = (r, st')"
      by (cases "split_step api fullName chunksNeeded i created st")
    have p: "prefix (calls st) (calls st')"
      using extendsD [OF "1.prems" step] .
    show ?thesis
    proof (cases r)
      case (Inl e)
      with True step p show ?thesis by (simp add: unfold)
    next
      case (Inr fl)
      show ?thesis
      proof (cases fl)
        case (Continue c)
        have "prefix (calls st') (calls (snd (split_loop api fullName chunksNeeded (i + 1) c st')))"
          using "1.IH" [OF True step [symmetric] Inr Continue "1.prems"] .
        with p have "prefix (calls st)
            (calls (snd (split_loop api fullName chunksNeeded (i + 1) c st')))"
          by (rule prefix_order.trans)
        with True step Inr Continue show ?thesis by (simp add: unfold)
      next
        case (Break c)
        with True step p Inr show ?thesis by (simp add: unfold)
      qed
    qed
  qed
qed

lemma extends_split_loop:
  assumes "\<And>i created. extends (split_step api fullName chunksNeeded i created)"
  shows "extends (split_loop api fullName chunksNeeded i created)"
  unfolding extends_def
proof
  fix st
  show "prefix (calls st) (calls (snd (split_loop api fullName chunksNeeded i created st)))"
    using extends_split_loop_aux [OF assms] .
qed

lemmas extends_rules = extends_ret extends_throw extends_get_db extends_get_results
  extends_logger extends_sleep extends_set_db extends_push_success extends_push_skipped
  extends_push_failed extends_reading extends_mutating extends_bnd extends_try_catch
  extends_block_Nil extends_block_Cons extends_if_then extends_if extends_for_of
  extends_case_option extends_case_prod extends_Let

lemma extends_checkIfSharded: "extends (checkIfSharded api ns)"
  unfolding checkIfSharded_def by (intro extends_rules)

lemma extends_createIndexes: "extends (createIndexes api cfg cc)"
  unfolding createIndexes_def index_step_def by (intro extends_rules)

lemma extends_createShardKeyIndex: "extends (createShardKeyIndex api cfg cc)"
  unfolding createShardKeyIndex_def by (intro extends_rules)

lemma extends_enableCollectionSharding: "extends (enableCollectionSharding api cfg cc)"
  unfolding enableCollectionSharding_def by (intro extends_rules)

lemma extends_split_step: "extends (split_step api fullName chunksNeeded i created)"
  unfolding split_step_def by (intro extends_rules)

lemma extends_preSplitChunks: "extends (preSplitChunks api cfg cc)"
  unfolding preSplitChunks_def
  by (intro extends_rules extends_split_loop extends_split_step)

text \<open>What a computation issues and prints, from where the trace and the log end up.\<close>

lemma issued_eq: "calls (snd (m st)) = calls st @ cs \<Longrightarrow> issued m st = cs"
  by (simp add: issued_def)

lemma printed_eq: "logs (snd (m st)) = logs st @ ls \<Longrightarrow> printed m st = ls"
  by (simp add: printed_def)

subsection \<open>The checks, when the cluster answers\<close>

lemma use_db_run:
  "use api (cluster st) d = Inr () \<Longrightarrow>
   use_db api d st = (Inr (), st\<lparr>current_db := d, calls := calls st @ [Use d]\<rparr>)"
  by (simp add: use_db_def bnd_def reading_def set_db_def)

lemma use_db_throws:
  "use api (cluster st) d = Inl e \<Longrightarrow>
   use_db api d st = (Inl e, st\<lparr>calls := calls st @ [Use d]\<rparr>)"
  by (simp add: use_db_def bnd_def reading_def)

lemma checkCollectionExists_run:
  "getCollectionNames api (cluster st) (current_db st) = Inr names \<Longrightarrow>
   checkCollectionExists api n st =
     (Inr (n \<in> set names), st\<lparr>calls := calls st @ [GetCollectionNames (current_db st)]\<rparr>)"
  by (simp add: checkCollectionExists_def bnd_def reading_def get_db_def ret_def)

lemma checkIfSharded_run:
  "findOne_collections api (cluster st) ns = Inr doc \<Longrightarrow>
   checkIfSharded api ns st =
     (Inr (case doc of None \<Rightarrow> False | Some k \<Rightarrow> k \<noteq> None),
      st\<lparr>calls := calls st @ [FindOne_collections ns]\<rparr>)"
  by (simp add: checkIfSharded_def bnd_def reading_def ret_def)

lemma bnd_then:
  assumes f: "\<And>x. extends (f x)" and cs: "calls (snd (m st)) = cs"
  shows "\<exists>rest. calls (snd (bnd m f st)) = cs @ rest \<and> (isl (fst (m st)) \<longrightarrow> rest = [])"
proof -
  obtain r st1 where run: "m st = (r, st1)"
    by (cases "m st")
  show ?thesis
  proof (cases r)
    case (Inl e)
    with run cs show ?thesis by (simp add: bnd_def)
  next
    case (Inr x)
    with run have b: "bnd m f st = f x st1" by (simp add: bnd_def)
    have "prefix (calls st1) (calls (snd (f x st1)))"
      by (rule extends_run [OF f])
    then obtain rest where "calls (snd (f x st1)) = calls st1 @ rest"
      by (auto simp add: prefix_def)
    with run cs b Inr show ?thesis by simp
  qed
qed

lemma catch_calls:
  "calls (snd (try_catch m (\<lambda>error. block [logger (l error), push_failed n error]) st)) =
   calls (snd (m st))"
  by (cases "m st"; cases "fst (m st)")
    (simp_all add: try_catch_def bnd_def logger_def push_failed_def ret_def)

section \<open>Dry run\<close>

text \<open>
  C1. When the dry-run option is active, a full execution performs no mutating
  administrative call, for any cluster interface and any starting cluster state: the
  trace of \<open>main\<close> holds no \<open>EnableSharding\<close>, \<open>CreateCollection\<close>, \<open>CreateIndex\<close>,
  \<open>ShardCollection\<close> or \<open>SplitFind\<close> call, and the cluster at the end is the cluster at the
  start. The same holds for \<open>execute\<close> from any state of the shell.
\<close>

theorem dry_run_issues_no_mutating_call:
  assumes "dryRun (exec_opts cfg)"
  shows "cluster (snd (main api cfg s d)) = s \<and>
         filter is_mutating (calls (snd (main api cfg s d))) = [] \<and>
         (\<forall>st. cluster (snd (execute api cfg st)) = cluster st \<and>
               filter is_mutating (calls (snd (execute api cfg st))) =
               filter is_mutating (calls st))"
proof -
  have "frame (snd (main api cfg s d)) = (s, [])"
    using assms by (rule frame_main)
  moreover have "frame (snd (execute api cfg st)) = frame st" for st
    using frame_execute [OF assms, of api] by (simp add: keeps_def)
  ultimately show ?thesis
    by (simp add: frame_def)
qed

theorem dry_run_issues_no_mutating_call_witness:
  "cluster (snd (main sim_api (dry small_config) orders_sim ''test'')) = orders_sim \<and>
   filter is_mutating (calls (snd (main sim_api (dry small_config) orders_sim ''test''))) = []"
  using dry_run_issues_no_mutating_call [of "dry small_config" sim_api orders_sim "''test''"]
  by (simp add: dry_def)

section \<open>Outcomes and exit code\<close>

lemma processCollection_unfold:
  "processCollection api cfg cc st =
     try_catch (collection_steps api cfg cc)
       (\<lambda>error. block [logger (Log Error 558 [name cc, error]), push_failed (name cc) error])
       (st\<lparr>logs := logs st @ [Divider, Log Info 516 [name cc, description cc]]\<rparr>)"
proof -
  have "snd (logger (Log Info 516 [name cc, description cc]) (snd (logger Divider st))) =
      st\<lparr>logs := logs st @ [Divider, Log Info 516 [name cc, description cc]]\<rparr>"
    by (simp add: logger_def)
  then show ?thesis
    by (simp only: processCollection_def block_Cons_returns [OF returns_logger] block_single)
qed

lemma processCollection_catches:
  assumes "collection_steps api cfg cc
      (st\<lparr>logs := logs st @ [Divider, Log Info 516 [name cc, description cc]]\<rparr>) = (Inl e, st')"
  shows "processCollection api cfg cc st =
     (Inr (), st'\<lparr>logs := logs st' @ [Log Error 558 [name cc, e]],
        results := (results st')\<lparr>failed := failed (results st') @ [(name cc, e)]\<rparr>\<rparr>)"
  using assms
  by (simp add: processCollection_unfold try_catch_def bnd_def logger_def push_failed_def ret_def)

lemma main_outcome:
  "fst (main api cfg s d) =
     (if fst (validateConnection api (new_shell s d)) = Inr () \<and>
         fst (enableDatabaseSharding api cfg (new_shell s d)) = Inr ()
      then Returned else Exit 1) \<and>
   (fst (main api cfg s d) = Exit 1 \<longrightarrow>
      results (snd (main api cfg s d)) = \<lparr>success = [], skipped = [], failed = []\<rparr>) \<and>
   (fst (main api cfg s d) = Returned \<longrightarrow>
      recorded (results (snd (main api cfg s d))) = mset (map name (collections cfg)))"
proof -
  obtain st0 where st0: "cluster st0 = s"
      "results st0 = \<lparr>success = [], skipped = [], failed = []\<rparr>"
    and m: "main api cfg s d =
       (case execute api cfg st0 of
          (Inr _, st) \<Rightarrow> (Returned, st)
        | (Inl error, st) \<Rightarrow> (Exit 1, snd (logger (Log Error 935 [error]) st)))"
    using main_unfold [of s api cfg d] by blast
  have c: "cluster st0 = cluster (new_shell s d)"
    using st0 by (simp add: new_shell_def)
  have vc: "fst (validateConnection api (new_shell s d)) = fst (validateConnection api st0)"
    using validateConnection_cluster [OF c] by simp
  have ed: "fst (enableDatabaseSharding api cfg (new_shell s d)) =
      fst (enableDatabaseSharding api cfg st0)"
    using enableDatabaseSharding_cluster [OF c] by simp
  obtain r st1 where ex: "execute api cfg st0 = (r, st1)"
    by (cases "execute api cfg st0")
  show ?thesis
  proof (cases "fst (validateConnection api st0)")
    case (Inl e)
    from execute_connection_fails [OF Inl, of cfg] ex st0
    show ?thesis
      by (simp add: m vc Inl logger_def)
  next
    case (Inr u)
    then have v: "fst (validateConnection api st0) = Inr ()" by simp
    show ?thesis
    proof (cases "fst (enableDatabaseSharding api cfg st0)")
      case (Inl e)
      from execute_database_fails [OF v Inl] ex st0
      show ?thesis
        by (simp add: m vc ed v Inl logger_def)
    next
      case (Inr u')
      then have e: "fst (enableDatabaseSharding api cfg st0) = Inr ()" by simp
      from execute_completes [OF v e] ex st0
      show ?thesis
        by (simp add: m vc ed v e recorded_def)
    qed
  qed
qed

lemma size_recorded:
  "size (recorded r) = length (success r) + length (skipped r) + length (failed r)"
  by (simp add: recorded_def)

text \<open>
  C2. For every run in which the connection check and the database-level sharding step
  do not throw, \<open>main\<close> returns, and every configured collection is recorded in exactly one
  of the three result lists: the names in the lists are, as a multiset, the names of the
  configured collections, so the three lengths add up to the number of collections.
  (\<open>showSummary\<close> reads the lists and leaves them as they are, see \<open>results_showSummary\<close>.)
\<close>

theorem summary_counts_add_up:
  assumes "fst (validateConnection api (new_shell s d)) = Inr ()"
    and "fst (enableDatabaseSharding api cfg (new_shell s d)) = Inr ()"
  shows "fst (main api cfg s d) = Returned \<and>
         recorded (results (snd (main api cfg s d))) = mset (map name (collections cfg)) \<and>
         length (success (results (snd (main api cfg s d)))) +
         length (skipped (results (snd (main api cfg s d)))) +
         length (failed (results (snd (main api cfg s d)))) = length (collections cfg)"
proof -
  have r: "fst (main api cfg s d) = Returned"
    using main_outcome [of api cfg s d] assms by simp
  then have rec: "recorded (results (snd (main api cfg s d))) = mset (map name (collections cfg))"
    using main_outcome [of api cfg s d] by simp
  have "length (success (results (snd (main api cfg s d)))) +
      length (skipped (results (snd (main api cfg s d)))) +
      length (failed (results (snd (main api cfg s d)))) = length (collections cfg)"
    unfolding size_recorded [symmetric] rec by simp
  with r rec show ?thesis
    by blast
qed

theorem summary_counts_add_up_witness:
  "fst (main sim_api small_config shard_fault_sim ''test'') = Returned \<and>
   recorded (results (snd (main sim_api small_config shard_fault_sim ''test''))) = {#''orders''#} \<and>
   length (success (results (snd (main sim_api small_config shard_fault_sim ''test'')))) +
   length (skipped (results (snd (main sim_api small_config shard_fault_sim ''test'')))) +
   length (failed (results (snd (main sim_api small_config shard_fault_sim ''test'')))) = 1"
proof -
  have 1: "fst (validateConnection sim_api (new_shell shard_fault_sim ''test'')) = Inr ()"
    by code_simp
  have 2: "fst (enableDatabaseSharding sim_api small_config (new_shell shard_fault_sim ''test'')) =
      Inr ()"
    by code_simp
  show ?thesis
    using summary_counts_add_up [OF 1 2] by (simp add: small_config_def orders_def)
qed

section \<open>A missing collection is created first\<close>

lemma collection_steps_creates_first:
  assumes real: "\<not> dryRun (exec_opts cfg)"
    and u: "use api (cluster st) (database cfg) = Inr ()"
    and g: "getCollectionNames api (cluster st) (database cfg) = Inr names"
    and missing: "name cc \<notin> set names"
  shows "\<exists>rest. calls (snd (collection_steps api cfg cc st)) =
           (calls st @ [Use (database cfg), GetCollectionNames (database cfg),
              CreateCollection (database cfg) (name cc)]) @ rest \<and>
         (isl (fst (createCollection api (cluster st) (database cfg) (name cc))) \<longrightarrow> rest = [])"
proof -
  let ?st1 = "st\<lparr>current_db := database cfg, calls := calls st @ [Use (database cfg)]\<rparr>"
  let ?st2 = "?st1\<lparr>calls := calls ?st1 @ [GetCollectionNames (current_db ?st1)]\<rparr>"
  have 1: "use_db api (database cfg) st = (Inr (), ?st1)"
    by (rule use_db_run [OF u])
  have 2: "checkCollectionExists api (name cc) ?st1 = (Inr (name cc \<in> set names), ?st2)"
    by (rule checkCollectionExists_run) (simp add: g)
  have "\<exists>rest. calls (snd (collection_steps api cfg cc st)) =
           (calls st @ [Use (database cfg), GetCollectionNames (database cfg),
              CreateCollection (database cfg) (name cc)]) @ rest \<and>
         (isl (fst (if_then (\<not> name cc \<in> set names) (block [
             logger (Log Warning 527 [name cc]),
             if_then (\<not> dryRun (exec_opts cfg)) (block [
               bnd get_db (\<lambda>d. mutating (CreateCollection d (name cc))
                 (\<lambda>s. createCollection api s d (name cc))),
               logger (Log Success 530 [])])]) ?st2)) \<longrightarrow> rest = [])"
    unfolding collection_steps_def Let_def
    apply (simp only: bnd_Inr [where m = "use_db api (database cfg)" and st = st, OF 1]
        bnd_Inr [where m = "checkCollectionExists api (name cc)" and st = "?st1", OF 2])
    apply (rule bnd_then)
     apply (intro extends_rules extends_checkIfSharded extends_createIndexes
        extends_createShardKeyIndex extends_enableCollectionSharding extends_preSplitChunks)
    apply (simp add: real missing if_then_def bnd_def logger_def get_db_def mutating_def ret_def
        split: prod.splits sum.splits)
    done
  moreover have "isl (fst (if_then (\<not> name cc \<in> set names) (block [
             logger (Log Warning 527 [name cc]),
             if_then (\<not> dryRun (exec_opts cfg)) (block [
               bnd get_db (\<lambda>d. mutating (CreateCollection d (name cc))
                 (\<lambda>s. createCollection api s d (name cc))),
               logger (Log Success 530 [])])]) ?st2)) =
      isl (fst (createCollection api (cluster st) (database cfg) (name cc)))"
    by (simp add: real missing if_then_def bnd_def logger_def get_db_def mutating_def ret_def
        split: prod.splits sum.splits)
  ultimately show ?thesis by simp
qed

text \<open>
  C8. In a run that is not a dry run, when \<^verbatim>\<open>use\<close> succeeds and the answer of
  \<^verbatim>\<open>getCollectionNames\<close> does not hold the collection, the calls \<open>processCollection\<close> issues
  start with \<^verbatim>\<open>use\<close>, \<^verbatim>\<open>getCollectionNames\<close> and \<^verbatim>\<open>createCollection\<close>: every index
  creation for the collection comes after \<^verbatim>\<open>createCollection\<close>, and when
  \<^verbatim>\<open>createCollection\<close> throws nothing more is issued for the collection.
\<close>

theorem missing_collection_is_created_before_indexes:
  assumes "\<not> dryRun (exec_opts cfg)"
    and "use api (cluster st) (database cfg) = Inr ()"
    and "getCollectionNames api (cluster st) (database cfg) = Inr names"
    and "name cc \<notin> set names"
  shows "\<exists>rest. issued (processCollection api cfg cc) st =
           [Use (database cfg), GetCollectionNames (database cfg),
            CreateCollection (database cfg) (name cc)] @ rest \<and>
         (isl (fst (createCollection api (cluster st) (database cfg) (name cc))) \<longrightarrow> rest = [])"
proof -
  let ?st2 = "st\<lparr>logs := logs st @ [Divider, Log Info 516 [name cc, description cc]]\<rparr>"
  have "calls (snd (processCollection api cfg cc st)) =
      calls (snd (collection_steps api cfg cc ?st2))"
    by (simp only: processCollection_unfold catch_calls)
  moreover obtain rest where
    "calls (snd (collection_steps api cfg cc ?st2)) =
       (calls ?st2 @ [Use (database cfg), GetCollectionNames (database cfg),
          CreateCollection (database cfg) (name cc)]) @ rest"
    "isl (fst (createCollection api (cluster ?st2) (database cfg) (name cc))) \<longrightarrow> rest = []"
    using collection_steps_creates_first [of cfg api ?st2 names cc] assms by auto
  ultimately show ?thesis
    by (auto simp add: issued_def)
qed

theorem missing_collection_is_created_before_indexes_witness:
  "\<exists>rest. issued (processCollection sim_api small_config orders) (new_shell empty_sim ''test'') =
     [Use ''shop'', GetCollectionNames ''shop'', CreateCollection ''shop'' ''orders''] @ rest"
proof -
  have 1: "\<not> dryRun (exec_opts small_config)"
    by (simp add: small_config_def)
  have 2: "use sim_api (cluster (new_shell empty_sim ''test'')) (database small_config) = Inr ()"
    by code_simp
  have 3: "getCollectionNames sim_api (cluster (new_shell empty_sim ''test''))
      (database small_config) = Inr []"
    by code_simp
  have 4: "name orders \<notin> set []"
    by simp
  show ?thesis
    using missing_collection_is_created_before_indexes [OF 1 2 3 4]
    by (auto simp add: small_config_def orders_def)
qed

section \<open>Index creation\<close>

lemma index_step_run:
  assumes "\<not> dryRun (exec_opts cfg)"
  shows "fst (index_step api cfg cc d existing (j, spec) st) = Inr () \<and>
         calls (snd (index_step api cfg cc d existing (j, spec) st)) =
         calls st @ (if index_exists existing (key spec) then [] else [index_call cfg d (name cc) spec])"
proof (cases "index_exists existing (key spec)")
  case True
  then show ?thesis
    by (simp add: index_step_def logger_def)
next
  case False
  let ?opts = "AList.update ''background'' (JBool (backgroundIndex (exec_opts cfg))) (options spec)"
  obtain r s' where c: "createIndex api (cluster st) d (name cc) (key spec) ?opts = (r, s')"
    by (cases "createIndex api (cluster st) d (name cc) (key spec) ?opts")
  show ?thesis
    using assms False c
    by (cases r)
      (simp_all add: index_step_def index_call_def Let_def try_catch_def bnd_def mutating_def
        logger_def if_then_def sleep_def ret_def)
qed

lemma index_loop_run:
  assumes "\<not> dryRun (exec_opts cfg)"
  shows "fst (for_of (enumerate j specs) (index_step api cfg cc d existing) st) = Inr () \<and>
         calls (snd (for_of (enumerate j specs) (index_step api cfg cc d existing) st)) =
         calls st @ map (index_call cfg d (name cc))
           (filter (\<lambda>spec. \<not> index_exists existing (key spec)) specs)"
proof (induction specs arbitrary: j st)
  case Nil
  show ?case by (simp add: ret_def)
next
  case (Cons spec specs)
  let ?step = "index_step api cfg cc d existing (j, spec)"
  have s: "fst (?step st) = Inr ()"
    "calls (snd (?step st)) =
       calls st @ (if index_exists existing (key spec) then [] else [index_call cfg d (name cc) spec])"
    using index_step_run [OF assms, where api = api and cc = cc and d = d
        and existing = existing and j = j and spec = spec and st = st] by simp_all
  have "for_of (enumerate j (spec # specs)) (index_step api cfg cc d existing) st =
      for_of (enumerate (Suc j) specs) (index_step api cfg cc d existing) (snd (?step st))"
    using s(1) by (cases "?step st") (simp add: bnd_def)
  then show ?case
    using Cons.IH [of "Suc j" "snd (?step st)"] s(2) by simp
qed

lemma createIndexes_calls:
  assumes "\<not> dryRun (exec_opts cfg)"
    and "getIndexes api (cluster st) (current_db st) (name cc) = Inr existing"
  shows "calls (snd (createIndexes api cfg cc st)) =
         calls st @
         (if indexes cc = [] then []
          else GetIndexes (current_db st) (name cc) #
               map (index_call cfg (current_db st) (name cc))
                 (filter (\<lambda>spec. \<not> index_exists existing (key spec)) (indexes cc)))"
proof (cases "indexes cc = []")
  case True
  then show ?thesis by (simp add: createIndexes_def ret_def)
next
  case False
  let ?st1 = "st\<lparr>logs := logs st @ [Log Info 585 [string_of_nat (length (indexes cc))]],
    calls := calls st @ [GetIndexes (current_db st) (name cc)]\<rparr>"
  let ?loop = "for_of (enumerate 0 (indexes cc))
    (index_step api cfg cc (current_db st) existing)"
  have "createIndexes api cfg cc st = block [?loop] ?st1"
    using False assms(2)
    by (simp add: createIndexes_def bnd_def logger_def get_db_def reading_def)
  then have "createIndexes api cfg cc st = ?loop ?st1"
    by (simp only: block_single)
  then show ?thesis
    using False index_loop_run [OF assms(1), where api = api and j = 0 and specs = "indexes cc"
        and cc = cc and d = "current_db st" and existing = existing and st = ?st1]
    by simp
qed

lemma createShardKeyIndex_calls:
  assumes "\<not> dryRun (exec_opts cfg)"
    and "getIndexes api (cluster st) (current_db st) (name cc) = Inr existing"
  shows "calls (snd (createShardKeyIndex api cfg cc st)) =
         calls st @ GetIndexes (current_db st) (name cc) #
         (if index_exists existing (shardKey cc) then []
          else [CreateIndex (current_db st) (name cc) (shardKey cc)
                  [(''background'', JBool (backgroundIndex (exec_opts cfg)))]])"
proof (cases "index_exists existing (shardKey cc)")
  case True
  then show ?thesis
    using assms
    by (simp add: createShardKeyIndex_def bnd_def reading_def logger_def get_db_def ret_def)
next
  case False
  let ?opts = "[(''background'', JBool (backgroundIndex (exec_opts cfg)))]"
  obtain r s' where c:
    "createIndex api (cluster st) (current_db st) (name cc) (shardKey cc) ?opts = (r, s')"
    by (cases "createIndex api (cluster st) (current_db st) (name cc) (shardKey cc) ?opts")
  show ?thesis
    using assms False c
    by (cases r)
      (simp_all add: createShardKeyIndex_def Let_def try_catch_def bnd_def mutating_def
        reading_def logger_def get_db_def if_then_def sleep_def ret_def throw_def)
qed

lemma index_exists_iff:
  "index_exists existing k =
   (JSON_stringify k \<in> set (map (\<lambda>e. JSON_stringify (doc_key e)) existing))"
  by (auto simp add: index_exists_def intro: rev_image_eqI)

lemma index_call_key: "index_call cfg d n spec = CreateIndex d' n' k opts \<Longrightarrow> k = key spec"
  by (simp add: index_call_def)

text \<open>
  C10. Whether an index exists is decided from the serialized key patterns alone: the
  names and options of the existing indexes and the options of the configured index play
  no part. So \<open>createIndexes\<close> issues \<^verbatim>\<open>createIndex\<close> exactly for the configured indexes
  whose serialized key is the serialized key of no existing index, and issues none for a
  key that exists, whatever the options (\<^verbatim>\<open>unique\<close> say) on either side;
  \<open>createShardKeyIndex\<close> decides in the same way for the shard key.
\<close>

theorem index_existence_compares_keys_only:
  assumes "\<not> dryRun (exec_opts cfg)"
    and "getIndexes api (cluster st) (current_db st) (name cc) = Inr existing"
  shows "index_exists existing k =
           (JSON_stringify k \<in> set (map (\<lambda>e. JSON_stringify (doc_key e)) existing)) \<and>
         index_exists (map (\<lambda>e. e\<lparr>doc_name := rename e, doc_rest := other e\<rparr>) existing) k =
           index_exists existing k \<and>
         issued (createIndexes api cfg cc) st =
           (if indexes cc = [] then []
            else GetIndexes (current_db st) (name cc) #
                 map (index_call cfg (current_db st) (name cc))
                   (filter (\<lambda>spec. \<not> index_exists existing (key spec)) (indexes cc))) \<and>
         (index_exists existing k \<longrightarrow>
            (\<forall>d n opts. CreateIndex d n k opts \<notin> set (issued (createIndexes api cfg cc) st))) \<and>
         issued (createShardKeyIndex api cfg cc) st =
           GetIndexes (current_db st) (name cc) #
           (if index_exists existing (shardKey cc) then []
            else [CreateIndex (current_db st) (name cc) (shardKey cc)
                    [(''background'', JBool (backgroundIndex (exec_opts cfg)))]])"
proof (intro conjI impI allI)
  show "index_exists existing k =
      (JSON_stringify k \<in> set (map (\<lambda>e. JSON_stringify (doc_key e)) existing))"
    by (rule index_exists_iff)
  show "index_exists (map (\<lambda>e. e\<lparr>doc_name := rename e, doc_rest := other e\<rparr>) existing) k =
      index_exists existing k"
    by (simp add: index_exists_def)
  show iss: "issued (createIndexes api cfg cc) st =
      (if indexes cc = [] then []
       else GetIndexes (current_db st) (name cc) #
            map (index_call cfg (current_db st) (name cc))
              (filter (\<lambda>spec. \<not> index_exists existing (key spec)) (indexes cc)))"
    by (rule issued_eq) (rule createIndexes_calls [OF assms])
  show "issued (createShardKeyIndex api cfg cc) st =
      GetIndexes (current_db st) (name cc) #
      (if index_exists existing (shardKey cc) then []
       else [CreateIndex (current_db st) (name cc) (shardKey cc)
               [(''background'', JBool (backgroundIndex (exec_opts cfg)))]])"
    by (rule issued_eq) (simp add: createShardKeyIndex_calls [OF assms])
  fix d n opts
  assume ex: "index_exists existing k"
  show "CreateIndex d n k opts \<notin> set (issued (createIndexes api cfg cc) st)"
  proof
    assume "CreateIndex d n k opts \<in> set (issued (createIndexes api cfg cc) st)"
    then obtain spec where "\<not> index_exists existing (key spec)"
      and "index_call cfg (current_db st) (name cc) spec = CreateIndex d n k opts"
      unfolding iss by (auto split: if_splits)
    then show False
      using ex index_call_key by metis
  qed
qed

theorem index_existence_compares_keys_only_witness:
  "issued (createIndexes sim_api small_config orders) (new_shell legacy_index_sim ''shop'') =
     [GetIndexes ''shop'' ''orders'',
      CreateIndex ''shop'' ''orders'' [(''createTime'', JNum 1)]
        [(''name'', JStr ''idx_createTime''), (''background'', JBool True)]] \<and>
   issued (createShardKeyIndex sim_api small_config orders) (new_shell legacy_index_sim ''shop'') =
     [GetIndexes ''shop'' ''orders'']"
proof -
  let ?existing = "[id_index, \<lparr>doc_key = [(''uid'', JNum 1)], doc_name = ''uid_1'', doc_rest = []\<rparr>]"
  have 1: "\<not> dryRun (exec_opts small_config)"
    by (simp add: small_config_def)
  have 2: "getIndexes sim_api (cluster (new_shell legacy_index_sim ''shop''))
      (current_db (new_shell legacy_index_sim ''shop'')) (name orders) = Inr ?existing"
    by code_simp
  have 3: "(if indexes orders = [] then []
      else GetIndexes (current_db (new_shell legacy_index_sim ''shop'')) (name orders) #
           map (index_call small_config (current_db (new_shell legacy_index_sim ''shop''))
                 (name orders))
             (filter (\<lambda>spec. \<not> index_exists ?existing (key spec)) (indexes orders))) =
     [GetIndexes ''shop'' ''orders'',
      CreateIndex ''shop'' ''orders'' [(''createTime'', JNum 1)]
        [(''name'', JStr ''idx_createTime''), (''background'', JBool True)]]"
    by code_simp
  have 4: "GetIndexes (current_db (new_shell legacy_index_sim ''shop'')) (name orders) #
      (if index_exists ?existing (shardKey orders) then []
       else [CreateIndex (current_db (new_shell legacy_index_sim ''shop'')) (name orders)
               (shardKey orders) [(''background'', JBool (backgroundIndex (exec_opts small_config)))]]) =
      [GetIndexes ''shop'' ''orders'']"
    by code_simp
  show ?thesis
    using index_existence_compares_keys_only [OF 1 2] 3 4 by simp
qed

section \<open>The outcome of processing a collection\<close>

subsection \<open>Which steps throw, by the answers of the cluster\<close>

lemma returns_index_step: "returns (index_step api cfg cc d existing p)"
  unfolding index_step_def by (intro returns_rules)

lemma createIndexes_throws:
  assumes "indexes cc \<noteq> []"
    and "getIndexes api (cluster st) (current_db st) (name cc) = Inl e"
  shows "createIndexes api cfg cc st =
     (Inl e, st\<lparr>calls := calls st @ [GetIndexes (current_db st) (name cc)],
        logs := logs st @ [Log Info 585 [string_of_nat (length (indexes cc))]]\<rparr>)"
  using assms
  by (simp add: createIndexes_def bnd_def logger_def get_db_def reading_def)

lemma createIndexes_outcome:
  "fst (createIndexes api cfg cc st) =
     (if indexes cc = [] then Inr ()
      else case getIndexes api (cluster st) (current_db st) (name cc) of
             Inl e \<Rightarrow> Inl e
           | Inr existing \<Rightarrow> Inr ())"
proof (cases "indexes cc = []")
  case True
  then show ?thesis by (simp add: createIndexes_def ret_def)
next
  case False
  show ?thesis
  proof (cases "getIndexes api (cluster st) (current_db st) (name cc)")
    case (Inl e)
    with False show ?thesis by (simp add: createIndexes_throws)
  next
    case (Inr existing)
    let ?st1 = "st\<lparr>logs := logs st @ [Log Info 585 [string_of_nat (length (indexes cc))]],
      calls := calls st @ [GetIndexes (current_db st) (name cc)]\<rparr>"
    let ?loop = "for_of (enumerate 0 (indexes cc))
      (index_step api cfg cc (current_db st) existing)"
    have "createIndexes api cfg cc st = block [?loop] ?st1"
      using False Inr
      by (simp add: createIndexes_def bnd_def logger_def get_db_def reading_def)
    then have "createIndexes api cfg cc st = ?loop ?st1"
      by (simp only: block_single)
    moreover have "fst (?loop ?st1) = Inr ()"
      by (intro returns_unit returns_for_of returns_index_step)
    ultimately show ?thesis
      using False Inr by simp
  qed
qed

lemma createShardKeyIndex_outcome:
  "fst (createShardKeyIndex api cfg cc st) =
     (case getIndexes api (cluster st) (current_db st) (name cc) of
        Inl e \<Rightarrow> Inl e
      | Inr existing \<Rightarrow>
          (if index_exists existing (shardKey cc) \<or> dryRun (exec_opts cfg) then Inr ()
           else (case fst (createIndex api (cluster st) (current_db st) (name cc) (shardKey cc)
                       [(''background'', JBool (backgroundIndex (exec_opts cfg)))]) of
                   Inl e \<Rightarrow> Inl (err_shard_key_index @ e)
                 | Inr u \<Rightarrow> Inr ())))"
proof (cases "getIndexes api (cluster st) (current_db st) (name cc)")
  case (Inl e)
  then show ?thesis
    by (simp add: createShardKeyIndex_def bnd_def logger_def get_db_def reading_def)
next
  case (Inr existing)
  let ?opts = "[(''background'', JBool (backgroundIndex (exec_opts cfg)))]"
  obtain r s' where c:
    "createIndex api (cluster st) (current_db st) (name cc) (shardKey cc) ?opts = (r, s')"
    by (cases "createIndex api (cluster st) (current_db st) (name cc) (shardKey cc) ?opts")
  show ?thesis
    using Inr c
    by (cases r; cases "index_exists existing (shardKey cc)"; cases "dryRun (exec_opts cfg)")
      (simp_all add: createShardKeyIndex_def Let_def try_catch_def bnd_def mutating_def
        reading_def logger_def get_db_def if_then_def sleep_def ret_def throw_def)
qed

lemma enableCollectionSharding_outcome:
  "fst (enableCollectionSharding api cfg cc st) =
     (if dryRun (exec_opts cfg) then Inr ()
      else case fst (shardCollection api (cluster st) (fullName_of cfg cc) (shardKey cc)) of
             Inl e \<Rightarrow> if str_includes e ''already sharded'' then Inr () else Inl e
           | Inr result \<Rightarrow>
               if ok result = 1 \<or> str_includes (err_shard @ json result) ''already sharded''
               then Inr ()
               else Inl (err_shard @ json result))"
proof -
  obtain r s' where c:
    "shardCollection api (cluster st) (fullName_of cfg cc) (shardKey cc) = (r, s')"
    by (cases "shardCollection api (cluster st) (fullName_of cfg cc) (shardKey cc)")
  show ?thesis
    using c
    by (cases r; cases "dryRun (exec_opts cfg)")
      (simp_all add: enableCollectionSharding_def Let_def try_catch_def bnd_def mutating_def
        logger_def throw_def ret_def)
qed

lemma enableCollectionSharding_calls:
  "issued (enableCollectionSharding api cfg cc) st =
     (if dryRun (exec_opts cfg) then []
      else [ShardCollection (fullName_of cfg cc) (shardKey cc)])"
proof -
  obtain r s' where c:
    "shardCollection api (cluster st) (fullName_of cfg cc) (shardKey cc) = (r, s')"
    by (cases "shardCollection api (cluster st) (fullName_of cfg cc) (shardKey cc)")
  show ?thesis
    using c
    by (cases r; cases "dryRun (exec_opts cfg)")
      (simp_all add: issued_def enableCollectionSharding_def Let_def try_catch_def bnd_def
        mutating_def logger_def throw_def ret_def)
qed

subsection \<open>The split loop\<close>

lemma split_calls_empty: "split_calls ns i i = []"
  by (simp add: split_calls_def)

lemma split_calls_first: "i < k \<Longrightarrow> split_calls ns i k = SplitFind ns (split_point i) # split_calls ns (i + 1) k"
  by (simp add: split_calls_def upto_rec1)

lemma split_step_throws:
  assumes "splitFind api (cluster st) ns (split_point i) = (Inl e, s')"
  shows "split_step api ns n i created st =
     (if str_includes e ''chunk is too small''
      then (Inr (Break created),
            st\<lparr>cluster := s', calls := calls st @ [SplitFind ns (split_point i)],
               logs := logs st @ [Log Info 730 []]\<rparr>)
      else (Inr (Continue created),
            st\<lparr>cluster := s', calls := calls st @ [SplitFind ns (split_point i)],
               logs := logs st @ [Log Warning 733 [string_of_int (i + 1), e]]\<rparr>))"
  using assms
  by (simp add: split_step_def try_catch_def bnd_def mutating_def logger_def ret_def)

lemma preSplitChunks_enough:
  assumes "\<not> dryRun (exec_opts cfg)"
    and "countDocuments_chunks api (cluster st) (fullName_of cfg cc) = Inr current"
    and "initialChunks (sharding cfg) \<le> current"
  shows "preSplitChunks api cfg cc st =
     (Inr (), st\<lparr>calls := calls st @ [CountDocuments_chunks (fullName_of cfg cc)],
        logs := logs st @ [Log Info 701 [string_of_int (initialChunks (sharding cfg))],
          Log Info 712 [string_of_int current]]\<rparr>)"
  using assms
  by (simp add: preSplitChunks_def Let_def bnd_def reading_def logger_def ret_def)

lemma preSplitChunks_count_throws:
  assumes "\<not> dryRun (exec_opts cfg)"
    and "countDocuments_chunks api (cluster st) (fullName_of cfg cc) = Inl e"
  shows "preSplitChunks api cfg cc st =
     (Inl e, st\<lparr>calls := calls st @ [CountDocuments_chunks (fullName_of cfg cc)],
        logs := logs st @ [Log Info 701 [string_of_int (initialChunks (sharding cfg))]]\<rparr>)"
  using assms
  by (simp add: preSplitChunks_def Let_def bnd_def reading_def logger_def ret_def)

lemma preSplitChunks_dry:
  assumes "dryRun (exec_opts cfg)"
  shows "preSplitChunks api cfg cc st =
     (Inr (), st\<lparr>logs := logs st @ [Log Info 701 [string_of_int (initialChunks (sharding cfg))],
        Log Info 704 []]\<rparr>)"
  using assms
  by (simp add: preSplitChunks_def Let_def bnd_def logger_def ret_def)

lemma split_step_ok:
  assumes "splitFind api (cluster st) ns (split_point i) = (Inr u, s')"
  shows "split_step api ns n i created st =
     (Inr (Continue (created + 1)),
      st\<lparr>cluster := s', calls := calls st @ [SplitFind ns (split_point i)],
         logs := logs st @ [Log Info 726 [string_of_int (created + 1), string_of_int n]],
         slept := slept st + 50\<rparr>)"
  using assms
  by (simp add: split_step_def try_catch_def bnd_def mutating_def logger_def sleep_def ret_def)

lemma split_answers_length: "length (split_answers api ns m i s) \<le> m"
  by (induction m arbitrary: i s) (auto split: prod.splits)

lemma split_answers_nonempty: "0 < m \<Longrightarrow> split_answers api ns m i s \<noteq> []"
  by (cases m) (auto split: prod.splits)

lemma split_answers_short:
  "length (split_answers api ns m i s) < m \<Longrightarrow>
   split_answers api ns m i s \<noteq> [] \<and> stops (last (split_answers api ns m i s))"
proof (induction m arbitrary: i s)
  case 0
  then show ?case by simp
next
  case (Suc m)
  obtain r s' where c: "splitFind api s ns (split_point i) = (r, s')"
    by (cases "splitFind api s ns (split_point i)")
  show ?case
  proof (cases "stops r")
    case True
    with c show ?thesis by simp
  next
    case False
    with c Suc.prems have "length (split_answers api ns m (i + 1) s') < m"
      by simp
    from Suc.IH [OF this] c False show ?thesis
      by simp
  qed
qed

lemma split_answers_go_on:
  "Suc j < length (split_answers api ns m i s) \<Longrightarrow> \<not> stops (split_answers api ns m i s ! j)"
proof (induction m arbitrary: i s j)
  case 0
  then show ?case by simp
next
  case (Suc m)
  obtain r s' where c: "splitFind api s ns (split_point i) = (r, s')"
    by (cases "splitFind api s ns (split_point i)")
  show ?case
  proof (cases "stops r")
    case True
    with c Suc.prems show ?thesis by simp
  next
    case False
    show ?thesis
    proof (cases j)
      case 0
      with c False show ?thesis by simp
    next
      case (Suc j')
      with c False Suc.prems have "Suc j' < length (split_answers api ns m (i + 1) s')"
        by simp
      from Suc.IH [OF this] c False Suc show ?thesis
        by simp
    qed
  qed
qed

lemma split_loop_answers:
  "i \<le> n \<Longrightarrow>
   \<exists>c ls.
     fst (split_loop api ns n i created st) = Inr c \<and>
     calls (snd (split_loop api ns n i created st)) =
       calls st @ split_calls ns i (i + int (length (split_answers api ns (nat (n - i)) i (cluster st)))) \<and>
     logs (snd (split_loop api ns n i created st)) = logs st @ ls \<and>
     (Log Info 730 [] \<in> set ls \<longleftrightarrow>
        split_answers api ns (nat (n - i)) i (cluster st) \<noteq> [] \<and>
        stops (last (split_answers api ns (nat (n - i)) i (cluster st))))"
proof (induction api ns n i created st rule: split_loop.induct)
  case (1 api ns n i created st)
  note unfold = split_loop.simps [of api ns n i created st]
  show ?case
  proof (cases "i < n")
    case False
    with "1.prems" have "nat (n - i) = 0"
      by simp
    with False show ?thesis
      by (simp add: unfold split_calls_empty)
  next
    case True
    then have m: "nat (n - i) = Suc (nat (n - (i + 1)))"
      by simp
    obtain r s' where c: "splitFind api (cluster st) ns (split_point i) = (r, s')"
      by (cases "splitFind api (cluster st) ns (split_point i)")
    show ?thesis
    proof (cases "stops r")
      case stop: True
      then obtain e where r: "r = Inl e" and small: "str_includes e ''chunk is too small''"
        by (cases r) (simp_all add: stops_def)
      have a: "split_answers api ns (nat (n - i)) i (cluster st) = [r]"
        using c stop by (simp add: m)
      have "split_calls ns i (i + 1) = [SplitFind ns (split_point i)]"
        by (simp add: split_calls_first split_calls_empty)
      with True c r small a stop show ?thesis
        by (simp add: unfold split_step_throws)
    next
      case go: False
      have a: "split_answers api ns (nat (n - i)) i (cluster st) =
          r # split_answers api ns (nat (n - (i + 1))) (i + 1) s'"
        using c go by (simp add: m)
      obtain fl line where step: "split_step api ns n i created st =
          (Inr (Continue fl), st\<lparr>cluster := s', calls := calls st @ [SplitFind ns (split_point i)],
             logs := logs st @ [line], slept := slept st + (if isl r then 0 else 50)\<rparr>)"
        and line: "line \<noteq> Log Info 730 []"
      proof (cases r)
        case (Inl e)
        with go have "\<not> str_includes e ''chunk is too small''"
          by (simp add: stops_def)
        with c Inl that [of created "Log Warning 733 [string_of_int (i + 1), e]"] show ?thesis
          by (simp add: split_step_throws)
      next
        case (Inr u)
        with c that [of "created + 1"
            "Log Info 726 [string_of_int (created + 1), string_of_int n]"] show ?thesis
          by (simp add: split_step_ok)
      qed
      let ?st1 = "st\<lparr>cluster := s', calls := calls st @ [SplitFind ns (split_point i)],
        logs := logs st @ [line], slept := slept st + (if isl r then 0 else 50)\<rparr>"
      let ?rs = "split_answers api ns (nat (n - (i + 1))) (i + 1) s'"
      from True have le: "i + 1 \<le> n"
        by simp
      from "1.IH" [OF True step [symmetric] refl refl le]
      obtain c' ls where f: "fst (split_loop api ns n (i + 1) fl ?st1) = Inr c'"
        and cs: "calls (snd (split_loop api ns n (i + 1) fl ?st1)) =
          calls ?st1 @ split_calls ns (i + 1) (i + 1 + int (length ?rs))"
        and ls: "logs (snd (split_loop api ns n (i + 1) fl ?st1)) = logs ?st1 @ ls"
        and e: "Log Info 730 [] \<in> set ls \<longleftrightarrow> ?rs \<noteq> [] \<and> stops (last ?rs)"
        by auto
      have loop: "split_loop api ns n i created st = split_loop api ns n (i + 1) fl ?st1"
        using True step by (simp add: unfold)
      have sc: "split_calls ns i (i + int (length (r # ?rs))) =
          SplitFind ns (split_point i) # split_calls ns (i + 1) (i + 1 + int (length ?rs))"
      proof -
        have eq: "i + int (length (r # ?rs)) = i + 1 + int (length ?rs)"
          by simp
        have "i < i + 1 + int (length ?rs)"
          by simp
        then show ?thesis
          unfolding eq by (rule split_calls_first)
      qed
      have last: "(r # ?rs \<noteq> [] \<and> stops (last (r # ?rs))) = (?rs \<noteq> [] \<and> stops (last ?rs))"
        using go by simp
      show ?thesis
        unfolding a loop
        using f cs ls e line sc last
        by (intro exI [of _ c'] exI [of _ "line # ls"]) (simp del: last.simps)
    qed
  qed
qed

lemma preSplitChunks_answers:
  assumes "\<not> dryRun (exec_opts cfg)"
    and "countDocuments_chunks api (cluster st) (fullName_of cfg cc) = Inr current"
    and "current < initialChunks (sharding cfg)"
  shows "fst (preSplitChunks api cfg cc st) = Inr () \<and>
     issued (preSplitChunks api cfg cc) st =
       CountDocuments_chunks (fullName_of cfg cc) #
       split_calls (fullName_of cfg cc) 0
         (int (length (split_answers api (fullName_of cfg cc)
            (nat (initialChunks (sharding cfg) - current)) 0 (cluster st)))) \<and>
     (Log Info 730 [] \<in> set (printed (preSplitChunks api cfg cc) st) \<longleftrightarrow>
        stops (last (split_answers api (fullName_of cfg cc)
          (nat (initialChunks (sharding cfg) - current)) 0 (cluster st))))"
proof -
  let ?ns = "fullName_of cfg cc"
  let ?n = "initialChunks (sharding cfg) - current"
  let ?rs = "split_answers api ?ns (nat ?n) 0 (cluster st)"
  let ?st2 = "st\<lparr>calls := calls st @ [CountDocuments_chunks ?ns],
    logs := logs st @ [Log Info 701 [string_of_int (initialChunks (sharding cfg))],
      Log Info 717 [string_of_int ?n]]\<rparr>"
  have "0 \<le> ?n"
    using assms(3) by simp
  from split_loop_answers [OF this, of api ?ns 0 ?st2]
  obtain c ls where f: "fst (split_loop api ?ns ?n 0 0 ?st2) = Inr c"
    and cs: "calls (snd (split_loop api ?ns ?n 0 0 ?st2)) =
      calls ?st2 @ split_calls ?ns 0 (int (length ?rs))"
    and ls: "logs (snd (split_loop api ?ns ?n 0 0 ?st2)) = logs ?st2 @ ls"
    and e: "Log Info 730 [] \<in> set ls \<longleftrightarrow> ?rs \<noteq> [] \<and> stops (last ?rs)"
    by auto
  have ne: "?rs \<noteq> []"
    using assms(3) by (intro split_answers_nonempty) simp
  obtain st3 where loop: "split_loop api ?ns ?n 0 0 ?st2 = (Inr c, st3)"
    using f by (cases "split_loop api ?ns ?n 0 0 ?st2") simp
  have run: "preSplitChunks api cfg cc st =
      (Inr (), if 0 < c then st3\<lparr>logs := logs st3 @ [Log Success 738 [string_of_int c]]\<rparr> else st3)"
    using assms loop
    by (simp add: preSplitChunks_def Let_def bnd_def reading_def logger_def if_then_def ret_def)
  show ?thesis
    using cs ls e ne loop
    by (auto simp add: run issued_def printed_def)
qed

lemma preSplitChunks_outcome:
  "fst (preSplitChunks api cfg cc st) =
     (if dryRun (exec_opts cfg) then Inr ()
      else case countDocuments_chunks api (cluster st) (fullName_of cfg cc) of
             Inl e \<Rightarrow> Inl e
           | Inr current \<Rightarrow> Inr ())"
proof (cases "dryRun (exec_opts cfg)")
  case True
  then show ?thesis by (simp add: preSplitChunks_dry)
next
  case real: False
  show ?thesis
  proof (cases "countDocuments_chunks api (cluster st) (fullName_of cfg cc)")
    case (Inl e)
    with real show ?thesis by (simp add: preSplitChunks_count_throws)
  next
    case (Inr current)
    show ?thesis
    proof (cases "initialChunks (sharding cfg) \<le> current")
      case True
      with real Inr show ?thesis by (simp add: preSplitChunks_enough)
    next
      case False
      then have "current < initialChunks (sharding cfg)"
        by simp
      from preSplitChunks_answers [OF real Inr this] real Inr show ?thesis
        by simp
    qed
  qed
qed

subsection \<open>The checks of lines 522-540\<close>

lemma collection_steps_checks:
  "\<exists>rest.
     rest True = block [logger (Log Info 537 []), push_skipped (name cc)] \<and>
     rest False = block [
        createIndexes api cfg cc,
        createShardKeyIndex api cfg cc,
        enableCollectionSharding api cfg cc,
        preSplitChunks api cfg cc,
        push_success (name cc),
        logger (Log Success 555 [name cc])] \<and>
     collection_steps api cfg cc =
       bnd (use_db api (database cfg)) (\<lambda>_.
       bnd (checkCollectionExists api (name cc)) (\<lambda>collectionExists.
       bnd (if_then (\<not> collectionExists) (block [
              logger (Log Warning 527 [name cc]),
              if_then (\<not> dryRun (exec_opts cfg)) (block [
                bnd get_db (\<lambda>d. mutating (CreateCollection d (name cc))
                  (\<lambda>s. createCollection api s d (name cc))),
                logger (Log Success 530 [])])])) (\<lambda>_.
       bnd (checkIfSharded api (fullName_of cfg cc)) (\<lambda>isAlreadySharded.
         rest (isAlreadySharded \<and> skipExistingSharded (exec_opts cfg))))))"
  by (intro exI [of _ "\<lambda>b. if b
      then block [logger (Log Info 537 []), push_skipped (name cc)]
      else block [
        createIndexes api cfg cc,
        createShardKeyIndex api cfg cc,
        enableCollectionSharding api cfg cc,
        preSplitChunks api cfg cc,
        push_success (name cc),
        logger (Log Success 555 [name cc])]"])
    (simp add: collection_steps_def Let_def)

lemma collection_steps_use_throws:
  assumes "use api (cluster st) (database cfg) = Inl e"
  shows "collection_steps api cfg cc st =
     (Inl e, st\<lparr>calls := calls st @ [Use (database cfg)]\<rparr>)"
proof -
  obtain rest where "collection_steps api cfg cc =
       bnd (use_db api (database cfg)) rest"
    using collection_steps_checks [of cc api cfg] by blast
  then show ?thesis
    using assms by (simp add: bnd_def use_db_throws)
qed

lemma collection_steps_names_throw:
  assumes "use api (cluster st) (database cfg) = Inr ()"
    and "getCollectionNames api (cluster st) (database cfg) = Inl e"
  shows "collection_steps api cfg cc st =
     (Inl e, st\<lparr>current_db := database cfg,
        calls := calls st @ [Use (database cfg), GetCollectionNames (database cfg)]\<rparr>)"
proof -
  obtain rest where "collection_steps api cfg cc =
       bnd (use_db api (database cfg)) (\<lambda>_.
       bnd (checkCollectionExists api (name cc)) rest)"
    using collection_steps_checks [of cc api cfg] by blast
  then show ?thesis
    using assms
    by (simp add: bnd_def use_db_run checkCollectionExists_def get_db_def reading_def)
qed

lemma collection_steps_create_throws:
  assumes "use api (cluster st) (database cfg) = Inr ()"
    and "getCollectionNames api (cluster st) (database cfg) = Inr names"
    and "name cc \<notin> set names" and "\<not> dryRun (exec_opts cfg)"
    and "createCollection api (cluster st) (database cfg) (name cc) = (Inl e, s')"
  shows "collection_steps api cfg cc st =
     (Inl e, st\<lparr>cluster := s', current_db := database cfg,
        calls := calls st @ [Use (database cfg), GetCollectionNames (database cfg),
          CreateCollection (database cfg) (name cc)],
        logs := logs st @ [Log Warning 527 [name cc]]\<rparr>)"
proof -
  obtain rest where "collection_steps api cfg cc =
       bnd (use_db api (database cfg)) (\<lambda>_.
       bnd (checkCollectionExists api (name cc)) (\<lambda>collectionExists.
       bnd (if_then (\<not> collectionExists) (block [
              logger (Log Warning 527 [name cc]),
              if_then (\<not> dryRun (exec_opts cfg)) (block [
                bnd get_db (\<lambda>d. mutating (CreateCollection d (name cc))
                  (\<lambda>s. createCollection api s d (name cc))),
                logger (Log Success 530 [])])])) rest))"
    using collection_steps_checks [of cc api cfg] by blast
  then show ?thesis
    using assms
    by (simp add: bnd_def use_db_run checkCollectionExists_def get_db_def reading_def ret_def
        if_then_def logger_def mutating_def)
qed

lemma collection_steps_after_checks:
  assumes "use api (cluster st) (database cfg) = Inr ()"
    and "getCollectionNames api (cluster st) (database cfg) = Inr names"
    and "if name cc \<in> set names \<or> dryRun (exec_opts cfg) then s1 = cluster st
         else createCollection api (cluster st) (database cfg) (name cc) = (Inr (), s1)"
  shows "\<exists>rest.
     rest True = block [logger (Log Info 537 []), push_skipped (name cc)] \<and>
     rest False = block [
        createIndexes api cfg cc,
        createShardKeyIndex api cfg cc,
        enableCollectionSharding api cfg cc,
        preSplitChunks api cfg cc,
        push_success (name cc),
        logger (Log Success 555 [name cc])] \<and>
     collection_steps api cfg cc st =
       (case findOne_collections api s1 (fullName_of cfg cc) of
          Inl e \<Rightarrow> (Inl e, after_checks cfg cc names s1 st)
        | Inr doc \<Rightarrow>
            rest (is_sharded doc \<and> skipExistingSharded (exec_opts cfg))
              (after_checks cfg cc names s1 st))"
proof -
  obtain rest where t: "rest True = block [logger (Log Info 537 []), push_skipped (name cc)]"
    and f: "rest False = block [
        createIndexes api cfg cc,
        createShardKeyIndex api cfg cc,
        enableCollectionSharding api cfg cc,
        preSplitChunks api cfg cc,
        push_success (name cc),
        logger (Log Success 555 [name cc])]"
    and cs: "collection_steps api cfg cc =
       bnd (use_db api (database cfg)) (\<lambda>_.
       bnd (checkCollectionExists api (name cc)) (\<lambda>collectionExists.
       bnd (if_then (\<not> collectionExists) (block [
              logger (Log Warning 527 [name cc]),
              if_then (\<not> dryRun (exec_opts cfg)) (block [
                bnd get_db (\<lambda>d. mutating (CreateCollection d (name cc))
                  (\<lambda>s. createCollection api s d (name cc))),
                logger (Log Success 530 [])])])) (\<lambda>_.
       bnd (checkIfSharded api (fullName_of cfg cc)) (\<lambda>isAlreadySharded.
         rest (isAlreadySharded \<and> skipExistingSharded (exec_opts cfg))))))"
    using collection_steps_checks [of cc api cfg] by blast
  have "collection_steps api cfg cc st =
       (case findOne_collections api s1 (fullName_of cfg cc) of
          Inl e \<Rightarrow> (Inl e, after_checks cfg cc names s1 st)
        | Inr doc \<Rightarrow>
            rest (is_sharded doc \<and> skipExistingSharded (exec_opts cfg))
              (after_checks cfg cc names s1 st))"
    using assms
    apply (cases "name cc \<in> set names"; cases "dryRun (exec_opts cfg)";
        cases "findOne_collections api s1 (fullName_of cfg cc)";
        simp add: cs bnd_def use_db_run checkCollectionExists_def get_db_def reading_def
          ret_def if_then_def logger_def mutating_def checkIfSharded_def after_checks_def
          is_sharded_def)
     apply (rule arg_cong2 [where f = rest, OF refl]; simp)+
    done
  with t f show ?thesis
    by blast
qed

subsection \<open>The steps after the checks, and the \<^verbatim>\<open>catch\<close> block\<close>

lemma block_Cons_case:
  "block (m # ms) st =
     (case fst (m st) of Inl e \<Rightarrow> (Inl e, snd (m st)) | Inr u \<Rightarrow> block ms (snd (m st)))"
  by (cases "m st"; cases "fst (m st)") (simp_all add: bnd_def)

lemma steps_outcome:
  "block [
     createIndexes api cfg cc,
     createShardKeyIndex api cfg cc,
     enableCollectionSharding api cfg cc,
     preSplitChunks api cfg cc,
     push_success (name cc),
     logger (Log Success 555 [name cc])] st1 =
   (let st2 = snd (createIndexes api cfg cc st1);
        st3 = snd (createShardKeyIndex api cfg cc st2);
        st4 = snd (enableCollectionSharding api cfg cc st3);
        st5 = snd (preSplitChunks api cfg cc st4)
    in case fst (createIndexes api cfg cc st1) of
         Inl e \<Rightarrow> (Inl e, st2)
       | Inr u \<Rightarrow>
      (case fst (createShardKeyIndex api cfg cc st2) of
         Inl e \<Rightarrow> (Inl e, st3)
       | Inr u \<Rightarrow>
      (case fst (enableCollectionSharding api cfg cc st3) of
         Inl e \<Rightarrow> (Inl e, st4)
       | Inr u \<Rightarrow>
      (case fst (preSplitChunks api cfg cc st4) of
         Inl e \<Rightarrow> (Inl e, st5)
       | Inr u \<Rightarrow> (Inr (), succeeded cc st5)))))"
  by (cases "fst (createIndexes api cfg cc st1)";
      cases "fst (createShardKeyIndex api cfg cc (snd (createIndexes api cfg cc st1)))";
      cases "fst (enableCollectionSharding api cfg cc
        (snd (createShardKeyIndex api cfg cc (snd (createIndexes api cfg cc st1)))))";
      cases "fst (preSplitChunks api cfg cc (snd (enableCollectionSharding api cfg cc
        (snd (createShardKeyIndex api cfg cc (snd (createIndexes api cfg cc st1)))))))")
    (simp_all del: block.simps
      add: block_Cons_case block_Nil_run Let_def push_success_def logger_def succeeded_def)

lemma processCollection_cases:
  "processCollection api cfg cc st =
     (case collection_steps api cfg cc (entered cc st) of
        (Inl e, st') \<Rightarrow> (Inr (), failed_with cc e st')
      | (Inr u, st') \<Rightarrow> (Inr (), st'))"
  by (simp add: processCollection_unfold entered_def failed_with_def try_catch_def bnd_def
      logger_def push_failed_def ret_def split: prod.splits sum.splits)

lemma processCollection_use_throws:
  assumes "use api (cluster st) (database cfg) = Inl e"
  shows "processCollection api cfg cc st =
     (Inr (), failed_with cc e ((entered cc st)\<lparr>calls := calls st @ [Use (database cfg)]\<rparr>))"
proof -
  have "collection_steps api cfg cc (entered cc st) =
     (Inl e, (entered cc st)\<lparr>calls := calls (entered cc st) @ [Use (database cfg)]\<rparr>)"
    using assms by (intro collection_steps_use_throws) (simp add: entered_def)
  then show ?thesis
    by (simp add: processCollection_cases) (simp add: entered_def)
qed

lemma processCollection_names_throw:
  assumes "use api (cluster st) (database cfg) = Inr ()"
    and "getCollectionNames api (cluster st) (database cfg) = Inl e"
  shows "processCollection api cfg cc st =
     (Inr (), failed_with cc e ((entered cc st)\<lparr>current_db := database cfg,
        calls := calls st @ [Use (database cfg), GetCollectionNames (database cfg)]\<rparr>))"
proof -
  have "collection_steps api cfg cc (entered cc st) =
     (Inl e, (entered cc st)\<lparr>current_db := database cfg,
        calls := calls (entered cc st) @
          [Use (database cfg), GetCollectionNames (database cfg)]\<rparr>)"
    using assms by (intro collection_steps_names_throw) (simp_all add: entered_def)
  then show ?thesis
    by (simp add: processCollection_cases) (simp add: entered_def)
qed

lemma processCollection_create_throws:
  assumes "use api (cluster st) (database cfg) = Inr ()"
    and "getCollectionNames api (cluster st) (database cfg) = Inr names"
    and "name cc \<notin> set names" and "\<not> dryRun (exec_opts cfg)"
    and "createCollection api (cluster st) (database cfg) (name cc) = (Inl e, s')"
  shows "processCollection api cfg cc st =
     (Inr (), failed_with cc e ((entered cc st)\<lparr>cluster := s', current_db := database cfg,
        calls := calls st @ [Use (database cfg), GetCollectionNames (database cfg),
          CreateCollection (database cfg) (name cc)],
        logs := logs (entered cc st) @ [Log Warning 527 [name cc]]\<rparr>))"
proof -
  have "collection_steps api cfg cc (entered cc st) =
     (Inl e, (entered cc st)\<lparr>cluster := s', current_db := database cfg,
        calls := calls (entered cc st) @ [Use (database cfg), GetCollectionNames (database cfg),
          CreateCollection (database cfg) (name cc)],
        logs := logs (entered cc st) @ [Log Warning 527 [name cc]]\<rparr>)"
    using assms
    by (intro collection_steps_create_throws [where names = names]) (simp_all add: entered_def)
  then show ?thesis
    by (simp add: processCollection_cases) (simp add: entered_def)
qed

lemma checks_answer_entered:
  "checks_answer api cfg cc (entered cc' st) names s1 doc = checks_answer api cfg cc st names s1 doc"
  by (simp add: checks_answer_def entered_def)

lemma processCollection_findOne_throws:
  assumes "use api (cluster st) (database cfg) = Inr ()"
    and "getCollectionNames api (cluster st) (database cfg) = Inr names"
    and "if name cc \<in> set names \<or> dryRun (exec_opts cfg) then s1 = cluster st
         else createCollection api (cluster st) (database cfg) (name cc) = (Inr (), s1)"
    and "findOne_collections api s1 (fullName_of cfg cc) = Inl e"
  shows "processCollection api cfg cc st =
     (Inr (), failed_with cc e (after_checks cfg cc names s1 (entered cc st)))"
proof -
  have u: "use api (cluster (entered cc st)) (database cfg) = Inr ()"
    and g: "getCollectionNames api (cluster (entered cc st)) (database cfg) = Inr names"
    and c: "if name cc \<in> set names \<or> dryRun (exec_opts cfg) then s1 = cluster (entered cc st)
         else createCollection api (cluster (entered cc st)) (database cfg) (name cc) =
           (Inr (), s1)"
    using assms by (simp_all add: entered_def)
  from collection_steps_after_checks [OF u g c] assms(4)
  have "collection_steps api cfg cc (entered cc st) =
      (Inl e, after_checks cfg cc names s1 (entered cc st))"
    by auto
  then show ?thesis
    by (simp add: processCollection_cases)
qed

lemma collection_steps_checked:
  assumes "checks_answer api cfg cc st names s1 doc"
  shows "collection_steps api cfg cc st =
     (if is_sharded doc \<and> skipExistingSharded (exec_opts cfg)
      then block [logger (Log Info 537 []), push_skipped (name cc)]
      else block [
        createIndexes api cfg cc,
        createShardKeyIndex api cfg cc,
        enableCollectionSharding api cfg cc,
        preSplitChunks api cfg cc,
        push_success (name cc),
        logger (Log Success 555 [name cc])])
       (after_checks cfg cc names s1 st)"
proof -
  have u: "use api (cluster st) (database cfg) = Inr ()"
    and g: "getCollectionNames api (cluster st) (database cfg) = Inr names"
    and c: "if name cc \<in> set names \<or> dryRun (exec_opts cfg) then s1 = cluster st
         else createCollection api (cluster st) (database cfg) (name cc) = (Inr (), s1)"
    and f: "findOne_collections api s1 (fullName_of cfg cc) = Inr doc"
    using assms by (simp_all add: checks_answer_def)
  from collection_steps_after_checks [OF u g c] f
  obtain rest where "rest True = block [logger (Log Info 537 []), push_skipped (name cc)]"
    and "rest False = block [
        createIndexes api cfg cc,
        createShardKeyIndex api cfg cc,
        enableCollectionSharding api cfg cc,
        preSplitChunks api cfg cc,
        push_success (name cc),
        logger (Log Success 555 [name cc])]"
    and "collection_steps api cfg cc st =
       rest (is_sharded doc \<and> skipExistingSharded (exec_opts cfg))
         (after_checks cfg cc names s1 st)"
    by auto
  then show ?thesis
    by (cases "is_sharded doc \<and> skipExistingSharded (exec_opts cfg)")
      (auto simp del: block.simps)
qed

lemma processCollection_skips:
  assumes "checks_answer api cfg cc st names s1 doc"
    and "is_sharded doc" and "skipExistingSharded (exec_opts cfg)"
  shows "processCollection api cfg cc st =
     (Inr (), skipped_over cc (after_checks cfg cc names s1 (entered cc st)))"
proof -
  have "checks_answer api cfg cc (entered cc st) names s1 doc"
    using assms(1) by (simp only: checks_answer_entered)
  from collection_steps_checked [OF this] assms(2,3)
  have "collection_steps api cfg cc (entered cc st) =
      block [logger (Log Info 537 []), push_skipped (name cc)]
        (after_checks cfg cc names s1 (entered cc st))"
    by simp
  then show ?thesis
    by (simp add: processCollection_cases bnd_def logger_def push_skipped_def ret_def
        skipped_over_def)
qed

lemma processCollection_steps:
  assumes "checks_answer api cfg cc st names s1 doc"
    and "\<not> (is_sharded doc \<and> skipExistingSharded (exec_opts cfg))"
  shows "processCollection api cfg cc st =
     (Inr (),
      let st1 = after_checks cfg cc names s1 (entered cc st);
          st2 = snd (createIndexes api cfg cc st1);
          st3 = snd (createShardKeyIndex api cfg cc st2);
          st4 = snd (enableCollectionSharding api cfg cc st3);
          st5 = snd (preSplitChunks api cfg cc st4)
      in case fst (createIndexes api cfg cc st1) of
           Inl e \<Rightarrow> failed_with cc e st2
         | Inr u \<Rightarrow>
        (case fst (createShardKeyIndex api cfg cc st2) of
           Inl e \<Rightarrow> failed_with cc e st3
         | Inr u \<Rightarrow>
        (case fst (enableCollectionSharding api cfg cc st3) of
           Inl e \<Rightarrow> failed_with cc e st4
         | Inr u \<Rightarrow>
        (case fst (preSplitChunks api cfg cc st4) of
           Inl e \<Rightarrow> failed_with cc e st5
         | Inr u \<Rightarrow> succeeded cc st5))))"
proof -
  have "checks_answer api cfg cc (entered cc st) names s1 doc"
    using assms(1) by (simp only: checks_answer_entered)
  from collection_steps_checked [OF this] assms(2)
  have "collection_steps api cfg cc (entered cc st) =
      block [
        createIndexes api cfg cc,
        createShardKeyIndex api cfg cc,
        enableCollectionSharding api cfg cc,
        preSplitChunks api cfg cc,
        push_success (name cc),
        logger (Log Success 555 [name cc])]
        (after_checks cfg cc names s1 (entered cc st))"
    by (simp del: block.simps)
  then show ?thesis
    by (simp only: processCollection_cases steps_outcome)
      (simp add: Let_def split: sum.splits)
qed

lemma index_step_throws:
  assumes "\<not> dryRun (exec_opts cfg)" and "\<not> index_exists existing (key spec)"
    and "createIndex api (cluster st) d (name cc) (key spec)
           (AList.update ''background'' (JBool (backgroundIndex (exec_opts cfg))) (options spec)) =
         (Inl e, s')"
  shows "index_step api cfg cc d existing (j, spec) st =
     (Inr (), st\<lparr>cluster := s', calls := calls st @ [index_call cfg d (name cc) spec],
        logs := logs st @
          [Log Warning 620 [string_of_nat (j + 1), JSON_stringify (key spec), e]]\<rparr>)"
  using assms
  by (simp add: index_step_def index_call_def Let_def try_catch_def bnd_def mutating_def
      logger_def)

lemma enableDatabaseSharding_throws:
  assumes "\<not> dryRun (exec_opts cfg)"
    and "enableSharding api (cluster st) (database cfg) = (Inl e, s')"
  shows "fst (enableDatabaseSharding api cfg st) =
     (if str_includes e ''already enabled'' then Inr () else Inl e)"
  using assms
  by (simp add: enableDatabaseSharding_def try_catch_def bnd_def mutating_def logger_def
      throw_def ret_def)

lemma collection_steps_outcome:
  assumes "use api (cluster st) (database cfg) = Inr ()"
    and "getCollectionNames api (cluster st) (database cfg) = Inr names"
    and "if name cc \<in> set names \<or> dryRun (exec_opts cfg) then s1 = cluster st
         else createCollection api (cluster st) (database cfg) (name cc) = (Inr (), s1)"
  shows "fst (collection_steps api cfg cc st) =
     (case findOne_collections api s1 (fullName_of cfg cc) of
        Inl e \<Rightarrow> Inl e
      | Inr doc \<Rightarrow>
          if is_sharded doc \<and> skipExistingSharded (exec_opts cfg) then Inr ()
          else
            (let st1 = after_checks cfg cc names s1 st;
                 st2 = snd (createIndexes api cfg cc st1);
                 st3 = snd (createShardKeyIndex api cfg cc st2);
                 st4 = snd (enableCollectionSharding api cfg cc st3)
             in case fst (createIndexes api cfg cc st1) of
                  Inl e \<Rightarrow> Inl e
                | Inr u \<Rightarrow>
               (case fst (createShardKeyIndex api cfg cc st2) of
                  Inl e \<Rightarrow> Inl e
                | Inr u \<Rightarrow>
               (case fst (enableCollectionSharding api cfg cc st3) of
                  Inl e \<Rightarrow> Inl e
                | Inr u \<Rightarrow> fst (preSplitChunks api cfg cc st4)))))"
proof (cases "findOne_collections api s1 (fullName_of cfg cc)")
  case (Inl e)
  with collection_steps_after_checks [OF assms] show ?thesis
    by auto
next
  case (Inr doc)
  then have c: "checks_answer api cfg cc st names s1 doc"
    using assms by (simp add: checks_answer_def)
  show ?thesis
  proof (cases "is_sharded doc \<and> skipExistingSharded (exec_opts cfg)")
    case True
    with collection_steps_checked [OF c] Inr show ?thesis
      by (simp add: bnd_def logger_def push_skipped_def ret_def)
  next
    case False
    let ?st1 = "after_checks cfg cc names s1 st"
    have "collection_steps api cfg cc st = block [
        createIndexes api cfg cc,
        createShardKeyIndex api cfg cc,
        enableCollectionSharding api cfg cc,
        preSplitChunks api cfg cc,
        push_success (name cc),
        logger (Log Success 555 [name cc])] ?st1"
      using collection_steps_checked [OF c] False by (simp del: block.simps)
    then show ?thesis
      using Inr False
      by (simp only: steps_outcome)
        (cases "fst (createIndexes api cfg cc ?st1)";
         cases "fst (createShardKeyIndex api cfg cc (snd (createIndexes api cfg cc ?st1)))";
         cases "fst (enableCollectionSharding api cfg cc
           (snd (createShardKeyIndex api cfg cc (snd (createIndexes api cfg cc ?st1)))))";
         cases "fst (preSplitChunks api cfg cc (snd (enableCollectionSharding api cfg cc
           (snd (createShardKeyIndex api cfg cc (snd (createIndexes api cfg cc ?st1)))))))";
         simp add: Let_def)
  qed
qed

lemma calls_issued: "extends m \<Longrightarrow> calls (snd (m st)) = calls st @ issued m st"
  using extends_run [of m st] by (auto simp add: issued_def prefix_def)

lemma calls_after_checks:
  "calls (after_checks cfg cc names s1 (entered cc st)) =
     calls st @ [Use (database cfg), GetCollectionNames (database cfg)] @
       (if name cc \<in> set names \<or> dryRun (exec_opts cfg) then []
        else [CreateCollection (database cfg) (name cc)]) @
       [FindOne_collections (fullName_of cfg cc)]"
  by (simp add: after_checks_def entered_def)

lemma processCollection_skips_calls:
  assumes "checks_answer api cfg cc st names s1 doc"
    and "is_sharded doc" and "skipExistingSharded (exec_opts cfg)"
  shows "issued (processCollection api cfg cc) st =
     [Use (database cfg), GetCollectionNames (database cfg)] @
     (if name cc \<in> set names \<or> dryRun (exec_opts cfg) then []
      else [CreateCollection (database cfg) (name cc)]) @
     [FindOne_collections (fullName_of cfg cc)]"
  by (simp add: processCollection_skips [OF assms] issued_def skipped_over_def
      calls_after_checks)

section \<open>Which errors are swallowed, and which fail the collection\<close>

text \<open>
  C3, as the code has it. An error of \<^verbatim>\<open>sh.enableSharding\<close> whose message contains
  \<^verbatim>\<open>already enabled\<close> is swallowed and any other is thrown on. Two kinds of error are
  caught where they are raised and never fail the collection: an error of a split attempt
  (\<^verbatim>\<open>chunk is too small\<close> ends the splitting, any other message is logged as a warning
  and the loop goes on) and an error of creating a configured index (logged as a warning,
  and the loop goes on). Every other error aborts the remaining steps and the collection
  is recorded as failed: an error of \<^verbatim>\<open>use\<close>, of \<^verbatim>\<open>getCollectionNames\<close>, of
  \<^verbatim>\<open>createCollection\<close> or of the read of the sharding document, and then the first
  error thrown by one of the four steps. These throw exactly the errors of \<^verbatim>\<open>getIndexes\<close>,
  of creating the shard-key index, of \<^verbatim>\<open>sh.shardCollection\<close> unless the message contains
  \<^verbatim>\<open>already sharded\<close> (an answer whose \<^verbatim>\<open>ok\<close> is not 1 counts as an error), and of the
  chunk count. \<open>processCollection\<close> itself never throws.
\<close>

theorem benign_errors_are_swallowed_others_fail_the_collection:
  fixes st :: "'s shell"
  shows
  "(\<forall>e s'. \<not> dryRun (exec_opts cfg) \<and>
      enableSharding api (cluster st) (database cfg) = (Inl e, s') \<longrightarrow>
      fst (enableDatabaseSharding api cfg st) =
        (if str_includes e ''already enabled'' then Inr () else Inl e)) \<and>
   (\<forall>e s' ns n i created.
      splitFind api (cluster st) ns (split_point i) = (Inl e, s') \<longrightarrow>
      split_step api ns n i created st =
        (if str_includes e ''chunk is too small''
         then (Inr (Break created),
               st\<lparr>cluster := s', calls := calls st @ [SplitFind ns (split_point i)],
                  logs := logs st @ [Log Info 730 []]\<rparr>)
         else (Inr (Continue created),
               st\<lparr>cluster := s', calls := calls st @ [SplitFind ns (split_point i)],
                  logs := logs st @ [Log Warning 733 [string_of_int (i + 1), e]]\<rparr>))) \<and>
   (\<forall>e s' d existing j spec.
      \<not> dryRun (exec_opts cfg) \<and> \<not> index_exists existing (key spec) \<and>
      createIndex api (cluster st) d (name cc) (key spec)
        (AList.update ''background'' (JBool (backgroundIndex (exec_opts cfg))) (options spec)) =
      (Inl e, s') \<longrightarrow>
      index_step api cfg cc d existing (j, spec) st =
        (Inr (), st\<lparr>cluster := s', calls := calls st @ [index_call cfg d (name cc) spec],
           logs := logs st @
             [Log Warning 620 [string_of_nat (j + 1), JSON_stringify (key spec), e]]\<rparr>)) \<and>
   (\<forall>d existing entry (st' :: 's shell). fst (index_step api cfg cc d existing entry st') = Inr ()) \<and>
   (\<forall>e. use api (cluster st) (database cfg) = Inl e \<longrightarrow>
      processCollection api cfg cc st =
        (Inr (), failed_with cc e
           ((entered cc st)\<lparr>calls := calls st @ [Use (database cfg)]\<rparr>))) \<and>
   (\<forall>e. use api (cluster st) (database cfg) = Inr () \<and>
      getCollectionNames api (cluster st) (database cfg) = Inl e \<longrightarrow>
      processCollection api cfg cc st =
        (Inr (), failed_with cc e
           ((entered cc st)\<lparr>current_db := database cfg,
              calls := calls st @ [Use (database cfg), GetCollectionNames (database cfg)]\<rparr>))) \<and>
   (\<forall>e names s'. use api (cluster st) (database cfg) = Inr () \<and>
      getCollectionNames api (cluster st) (database cfg) = Inr names \<and>
      name cc \<notin> set names \<and> \<not> dryRun (exec_opts cfg) \<and>
      createCollection api (cluster st) (database cfg) (name cc) = (Inl e, s') \<longrightarrow>
      processCollection api cfg cc st =
        (Inr (), failed_with cc e
           ((entered cc st)\<lparr>cluster := s', current_db := database cfg,
              calls := calls st @ [Use (database cfg), GetCollectionNames (database cfg),
                CreateCollection (database cfg) (name cc)],
              logs := logs (entered cc st) @ [Log Warning 527 [name cc]]\<rparr>))) \<and>
   (\<forall>e names s1. use api (cluster st) (database cfg) = Inr () \<and>
      getCollectionNames api (cluster st) (database cfg) = Inr names \<and>
      (if name cc \<in> set names \<or> dryRun (exec_opts cfg) then s1 = cluster st
       else createCollection api (cluster st) (database cfg) (name cc) = (Inr (), s1)) \<and>
      findOne_collections api s1 (fullName_of cfg cc) = Inl e \<longrightarrow>
      processCollection api cfg cc st =
        (Inr (), failed_with cc e (after_checks cfg cc names s1 (entered cc st)))) \<and>
   (\<forall>names s1 doc. checks_answer api cfg cc st names s1 doc \<and>
      \<not> (is_sharded doc \<and> skipExistingSharded (exec_opts cfg)) \<longrightarrow>
      processCollection api cfg cc st =
        (Inr (),
         let st1 = after_checks cfg cc names s1 (entered cc st);
             st2 = snd (createIndexes api cfg cc st1);
             st3 = snd (createShardKeyIndex api cfg cc st2);
             st4 = snd (enableCollectionSharding api cfg cc st3);
             st5 = snd (preSplitChunks api cfg cc st4)
         in case fst (createIndexes api cfg cc st1) of
              Inl e \<Rightarrow> failed_with cc e st2
            | Inr u \<Rightarrow>
           (case fst (createShardKeyIndex api cfg cc st2) of
              Inl e \<Rightarrow> failed_with cc e st3
            | Inr u \<Rightarrow>
           (case fst (enableCollectionSharding api cfg cc st3) of
              Inl e \<Rightarrow> failed_with cc e st4
            | Inr u \<Rightarrow>
           (case fst (preSplitChunks api cfg cc st4) of
              Inl e \<Rightarrow> failed_with cc e st5
            | Inr u \<Rightarrow> succeeded cc st5))))) \<and>
   (\<forall>st' :: 's shell. fst (createIndexes api cfg cc st') =
      (if indexes cc = [] then Inr ()
       else case getIndexes api (cluster st') (current_db st') (name cc) of
              Inl e \<Rightarrow> Inl e
            | Inr existing \<Rightarrow> Inr ())) \<and>
   (\<forall>st' :: 's shell. fst (createShardKeyIndex api cfg cc st') =
      (case getIndexes api (cluster st') (current_db st') (name cc) of
         Inl e \<Rightarrow> Inl e
       | Inr existing \<Rightarrow>
           (if index_exists existing (shardKey cc) \<or> dryRun (exec_opts cfg) then Inr ()
            else (case fst (createIndex api (cluster st') (current_db st') (name cc) (shardKey cc)
                        [(''background'', JBool (backgroundIndex (exec_opts cfg)))]) of
                    Inl e \<Rightarrow> Inl (err_shard_key_index @ e)
                  | Inr u \<Rightarrow> Inr ())))) \<and>
   (\<forall>st' :: 's shell. fst (enableCollectionSharding api cfg cc st') =
      (if dryRun (exec_opts cfg) then Inr ()
       else case fst (shardCollection api (cluster st') (fullName_of cfg cc) (shardKey cc)) of
              Inl e \<Rightarrow> if str_includes e ''already sharded'' then Inr () else Inl e
            | Inr result \<Rightarrow>
                if ok result = 1 \<or> str_includes (err_shard @ json result) ''already sharded''
                then Inr ()
                else Inl (err_shard @ json result))) \<and>
   (\<forall>st' :: 's shell. fst (preSplitChunks api cfg cc st') =
      (if dryRun (exec_opts cfg) then Inr ()
       else case countDocuments_chunks api (cluster st') (fullName_of cfg cc) of
              Inl e \<Rightarrow> Inl e
            | Inr current \<Rightarrow> Inr ())) \<and>
   fst (processCollection api cfg cc st) = Inr ()"
proof (intro conjI allI impI; (elim conjE)?)
  fix e s'
  assume "\<not> dryRun (exec_opts cfg)"
    and "enableSharding api (cluster st) (database cfg) = (Inl e, s')"
  then show "fst (enableDatabaseSharding api cfg st) =
        (if str_includes e ''already enabled'' then Inr () else Inl e)"
    by (rule enableDatabaseSharding_throws)
next
  fix e s' ns n i created
  assume "splitFind api (cluster st) ns (split_point i) = (Inl e, s')"
  then show "split_step api ns n i created st =
        (if str_includes e ''chunk is too small''
         then (Inr (Break created),
               st\<lparr>cluster := s', calls := calls st @ [SplitFind ns (split_point i)],
                  logs := logs st @ [Log Info 730 []]\<rparr>)
         else (Inr (Continue created),
               st\<lparr>cluster := s', calls := calls st @ [SplitFind ns (split_point i)],
                  logs := logs st @ [Log Warning 733 [string_of_int (i + 1), e]]\<rparr>))"
    by (rule split_step_throws)
next
  fix e s' d existing j and spec :: index_spec
  assume "\<not> dryRun (exec_opts cfg)" and "\<not> index_exists existing (key spec)"
    and "createIndex api (cluster st) d (name cc) (key spec)
        (AList.update ''background'' (JBool (backgroundIndex (exec_opts cfg))) (options spec)) =
      (Inl e, s')"
  then show "index_step api cfg cc d existing (j, spec) st =
        (Inr (), st\<lparr>cluster := s', calls := calls st @ [index_call cfg d (name cc) spec],
           logs := logs st @
             [Log Warning 620 [string_of_nat (j + 1), JSON_stringify (key spec), e]]\<rparr>)"
    by (rule index_step_throws)
next
  fix d existing entry and st' :: "'s shell"
  show "fst (index_step api cfg cc d existing entry st') = Inr ()"
    by (rule returns_unit [OF returns_index_step])
next
  fix e
  assume "use api (cluster st) (database cfg) = Inl e"
  then show "processCollection api cfg cc st =
        (Inr (), failed_with cc e
           ((entered cc st)\<lparr>calls := calls st @ [Use (database cfg)]\<rparr>))"
    by (rule processCollection_use_throws)
next
  fix e
  assume "use api (cluster st) (database cfg) = Inr ()"
    and "getCollectionNames api (cluster st) (database cfg) = Inl e"
  then show "processCollection api cfg cc st =
        (Inr (), failed_with cc e
           ((entered cc st)\<lparr>current_db := database cfg,
              calls := calls st @ [Use (database cfg), GetCollectionNames (database cfg)]\<rparr>))"
    by (rule processCollection_names_throw)
next
  fix e names s'
  assume "use api (cluster st) (database cfg) = Inr ()"
    and "getCollectionNames api (cluster st) (database cfg) = Inr names"
    and "name cc \<notin> set names" and "\<not> dryRun (exec_opts cfg)"
    and "createCollection api (cluster st) (database cfg) (name cc) = (Inl e, s')"
  then show "processCollection api cfg cc st =
        (Inr (), failed_with cc e
           ((entered cc st)\<lparr>cluster := s', current_db := database cfg,
              calls := calls st @ [Use (database cfg), GetCollectionNames (database cfg),
                CreateCollection (database cfg) (name cc)],
              logs := logs (entered cc st) @ [Log Warning 527 [name cc]]\<rparr>))"
    by (rule processCollection_create_throws)
next
  fix e names s1
  assume "use api (cluster st) (database cfg) = Inr ()"
    and "getCollectionNames api (cluster st) (database cfg) = Inr names"
    and "if name cc \<in> set names \<or> dryRun (exec_opts cfg) then s1 = cluster st
       else createCollection api (cluster st) (database cfg) (name cc) = (Inr (), s1)"
    and "findOne_collections api s1 (fullName_of cfg cc) = Inl e"
  then show "processCollection api cfg cc st =
        (Inr (), failed_with cc e (after_checks cfg cc names s1 (entered cc st)))"
    by (rule processCollection_findOne_throws)
next
  fix names s1 doc
  assume "checks_answer api cfg cc st names s1 doc"
    and "\<not> (is_sharded doc \<and> skipExistingSharded (exec_opts cfg))"
  then show "processCollection api cfg cc st =
        (Inr (),
         let st1 = after_checks cfg cc names s1 (entered cc st);
             st2 = snd (createIndexes api cfg cc st1);
             st3 = snd (createShardKeyIndex api cfg cc st2);
             st4 = snd (enableCollectionSharding api cfg cc st3);
             st5 = snd (preSplitChunks api cfg cc st4)
         in case fst (createIndexes api cfg cc st1) of
              Inl e \<Rightarrow> failed_with cc e st2
            | Inr u \<Rightarrow>
           (case fst (createShardKeyIndex api cfg cc st2) of
              Inl e \<Rightarrow> failed_with cc e st3
            | Inr u \<Rightarrow>
           (case fst (enableCollectionSharding api cfg cc st3) of
              Inl e \<Rightarrow> failed_with cc e st4
            | Inr u \<Rightarrow>
           (case fst (preSplitChunks api cfg cc st4) of
              Inl e \<Rightarrow> failed_with cc e st5
            | Inr u \<Rightarrow> succeeded cc st5))))"
    by (rule processCollection_steps)
next
  fix st' :: "'s shell"
  show "fst (createIndexes api cfg cc st') =
      (if indexes cc = [] then Inr ()
       else case getIndexes api (cluster st') (current_db st') (name cc) of
              Inl e \<Rightarrow> Inl e
            | Inr existing \<Rightarrow> Inr ())"
    by (rule createIndexes_outcome)
  show "fst (createShardKeyIndex api cfg cc st') =
      (case getIndexes api (cluster st') (current_db st') (name cc) of
         Inl e \<Rightarrow> Inl e
       | Inr existing \<Rightarrow>
           (if index_exists existing (shardKey cc) \<or> dryRun (exec_opts cfg) then Inr ()
            else (case fst (createIndex api (cluster st') (current_db st') (name cc) (shardKey cc)
                        [(''background'', JBool (backgroundIndex (exec_opts cfg)))]) of
                    Inl e \<Rightarrow> Inl (err_shard_key_index @ e)
                  | Inr u \<Rightarrow> Inr ())))"
    by (rule createShardKeyIndex_outcome)
  show "fst (enableCollectionSharding api cfg cc st') =
      (if dryRun (exec_opts cfg) then Inr ()
       else case fst (shardCollection api (cluster st') (fullName_of cfg cc) (shardKey cc)) of
              Inl e \<Rightarrow> if str_includes e ''already sharded'' then Inr () else Inl e
            | Inr result \<Rightarrow>
                if ok result = 1 \<or> str_includes (err_shard @ json result) ''already sharded''
                then Inr ()
                else Inl (err_shard @ json result))"
    by (rule enableCollectionSharding_outcome)
  show "fst (preSplitChunks api cfg cc st') =
      (if dryRun (exec_opts cfg) then Inr ()
       else case countDocuments_chunks api (cluster st') (fullName_of cfg cc) of
              Inl e \<Rightarrow> Inl e
            | Inr current \<Rightarrow> Inr ())"
    by (rule preSplitChunks_outcome)
next
  show "fst (processCollection api cfg cc st) = Inr ()"
    by (rule returns_unit [OF returns_processCollection])
qed

theorem benign_errors_are_swallowed_others_fail_the_collection_witness:
  "fst (enableDatabaseSharding sim_api small_config (new_shell already_enabled_sim ''test'')) = Inr () \<and>
   fst (enableDatabaseSharding sim_api small_config (new_shell enable_fault_sim ''test'')) =
     Inl ''not authorized'' \<and>
   fst (split_step sim_api ''shop.orders'' 2 0 0 (new_shell small_chunk_sim ''shop'')) =
     Inr (Break 0) \<and>
   fst (createIndexes sim_api small_config orders (new_shell getIndexes_fault_sim ''shop'')) =
     Inl ''not authorized'' \<and>
   fst (createShardKeyIndex sim_api small_config orders (new_shell key_index_fault_sim ''shop'')) =
     Inl (err_shard_key_index @ ''disk full'') \<and>
   fst (enableCollectionSharding sim_api small_config orders (new_shell sharded_sim ''shop'')) =
     Inr () \<and>
   fst (preSplitChunks sim_api small_config orders (new_shell count_fault_sim ''shop'')) =
     Inl ''not authorized'' \<and>
   results (snd (processCollection sim_api small_config orders
     (new_shell shard_fault_sim ''test''))) =
     \<lparr>success = [], skipped = [], failed = [(''orders'', ''not authorized'')]\<rparr>"
proof -
  note db = benign_errors_are_swallowed_others_fail_the_collection [THEN conjunct1, rule_format]
  note split = benign_errors_are_swallowed_others_fail_the_collection [THEN conjunct2,
      THEN conjunct1, rule_format]
  note steps = benign_errors_are_swallowed_others_fail_the_collection [THEN conjunct2,
      THEN conjunct2, THEN conjunct2, THEN conjunct2, THEN conjunct2, THEN conjunct2,
      THEN conjunct2, THEN conjunct2, THEN conjunct1, rule_format]
  note indexes = benign_errors_are_swallowed_others_fail_the_collection [THEN conjunct2,
      THEN conjunct2, THEN conjunct2, THEN conjunct2, THEN conjunct2, THEN conjunct2,
      THEN conjunct2, THEN conjunct2, THEN conjunct2, THEN conjunct1, rule_format]
  note key_index = benign_errors_are_swallowed_others_fail_the_collection [THEN conjunct2,
      THEN conjunct2, THEN conjunct2, THEN conjunct2, THEN conjunct2, THEN conjunct2,
      THEN conjunct2, THEN conjunct2, THEN conjunct2, THEN conjunct2, THEN conjunct1, rule_format]
  note sharding = benign_errors_are_swallowed_others_fail_the_collection [THEN conjunct2,
      THEN conjunct2, THEN conjunct2, THEN conjunct2, THEN conjunct2, THEN conjunct2,
      THEN conjunct2, THEN conjunct2, THEN conjunct2, THEN conjunct2, THEN conjunct2,
      THEN conjunct1, rule_format]
  note presplit = benign_errors_are_swallowed_others_fail_the_collection [THEN conjunct2,
      THEN conjunct2, THEN conjunct2, THEN conjunct2, THEN conjunct2, THEN conjunct2,
      THEN conjunct2, THEN conjunct2, THEN conjunct2, THEN conjunct2, THEN conjunct2,
      THEN conjunct2, THEN conjunct1, rule_format]
  have 1: "\<not> dryRun (exec_opts small_config) \<and>
      enableSharding sim_api (cluster (new_shell already_enabled_sim ''test''))
        (database small_config) =
      (Inl ''sharding already enabled for database shop'', already_enabled_sim)"
    by code_simp
  have 2: "\<not> dryRun (exec_opts small_config) \<and>
      enableSharding sim_api (cluster (new_shell enable_fault_sim ''test''))
        (database small_config) = (Inl ''not authorized'', enable_fault_sim)"
    by code_simp
  have 3: "splitFind sim_api (cluster (new_shell small_chunk_sim ''shop'')) ''shop.orders''
      (split_point 0) = (Inl ''chunk is too small to split'', small_chunk_sim)"
    by code_simp
  have 4: "str_includes ''sharding already enabled for database shop'' ''already enabled''"
    "\<not> str_includes ''not authorized'' ''already enabled''"
    "str_includes ''collection already sharded'' ''already sharded''"
    "str_includes ''chunk is too small to split'' ''chunk is too small''"
    by code_simp+
  have 5: "indexes orders \<noteq> []" "\<not> dryRun (exec_opts small_config)"
    "getIndexes sim_api (cluster (new_shell getIndexes_fault_sim ''shop''))
       (current_db (new_shell getIndexes_fault_sim ''shop'')) (name orders) =
     Inl ''not authorized''"
    by code_simp+
  have 6: "getIndexes sim_api (cluster (new_shell key_index_fault_sim ''shop''))
       (current_db (new_shell key_index_fault_sim ''shop'')) (name orders) = Inr [id_index]"
    "\<not> index_exists [id_index] (shardKey orders)"
    "fst (createIndex sim_api (cluster (new_shell key_index_fault_sim ''shop''))
       (current_db (new_shell key_index_fault_sim ''shop'')) (name orders) (shardKey orders)
       [(''background'', JBool (backgroundIndex (exec_opts small_config)))]) = Inl ''disk full''"
    by code_simp+
  have 7: "fst (shardCollection sim_api (cluster (new_shell sharded_sim ''shop''))
       (fullName_of small_config orders) (shardKey orders)) = Inl ''collection already sharded''"
    by code_simp
  have 8: "countDocuments_chunks sim_api (cluster (new_shell count_fault_sim ''shop''))
       (fullName_of small_config orders) = Inl ''not authorized''"
    by code_simp
  let ?st1 = "after_checks small_config orders [''orders''] shard_fault_sim
    (entered orders (new_shell shard_fault_sim ''test''))"
  let ?st2 = "snd (createIndexes sim_api small_config orders ?st1)"
  let ?st3 = "snd (createShardKeyIndex sim_api small_config orders ?st2)"
  let ?st4 = "snd (enableCollectionSharding sim_api small_config orders ?st3)"
  have 9: "checks_answer sim_api small_config orders (new_shell shard_fault_sim ''test'')
       [''orders''] shard_fault_sim None \<and>
     \<not> (is_sharded None \<and> skipExistingSharded (exec_opts small_config))"
    by code_simp
  have 10: "fst (createIndexes sim_api small_config orders ?st1) = Inr ()"
    "fst (createShardKeyIndex sim_api small_config orders ?st2) = Inr ()"
    "fst (enableCollectionSharding sim_api small_config orders ?st3) = Inl ''not authorized''"
    "results ?st4 = \<lparr>success = [], skipped = [], failed = []\<rparr>"
    by code_simp+
  have a: "fst (enableDatabaseSharding sim_api small_config (new_shell already_enabled_sim ''test'')) =
      Inr ()"
    using db [OF 1] 4 by simp
  have b: "fst (enableDatabaseSharding sim_api small_config (new_shell enable_fault_sim ''test'')) =
      Inl ''not authorized''"
    using db [OF 2] 4 by simp
  have c: "fst (split_step sim_api ''shop.orders'' 2 0 0 (new_shell small_chunk_sim ''shop'')) =
      Inr (Break 0)"
    using split [OF 3, of 2 0] 4 by simp
  have d: "fst (createIndexes sim_api small_config orders (new_shell getIndexes_fault_sim ''shop'')) =
      Inl ''not authorized''"
    using indexes [of sim_api small_config orders "new_shell getIndexes_fault_sim ''shop''"] 5
    by simp
  have e: "fst (createShardKeyIndex sim_api small_config orders
      (new_shell key_index_fault_sim ''shop'')) = Inl (err_shard_key_index @ ''disk full'')"
    using key_index [of sim_api small_config orders "new_shell key_index_fault_sim ''shop''"] 5 6
    by simp
  have f: "fst (enableCollectionSharding sim_api small_config orders
      (new_shell sharded_sim ''shop'')) = Inr ()"
    using sharding [of sim_api small_config orders "new_shell sharded_sim ''shop''"] 4 5 7
    by simp
  have g: "fst (preSplitChunks sim_api small_config orders (new_shell count_fault_sim ''shop'')) =
      Inl ''not authorized''"
    using presplit [of sim_api small_config orders "new_shell count_fault_sim ''shop''"] 5 8
    by simp
  have h: "results (snd (processCollection sim_api small_config orders
      (new_shell shard_fault_sim ''test''))) =
     \<lparr>success = [], skipped = [], failed = [(''orders'', ''not authorized'')]\<rparr>"
    using steps [OF 9] 10 by (simp add: Let_def failed_with_def orders_def)
  show ?thesis
    using a b c d e f g h by blast
qed

text \<open>
  The claim as stated fails for an error of index creation: the second index of the
  collection cannot be built, the message is none of the three, and still the remaining
  steps run and the collection is recorded as a success.
\<close>

theorem index_error_does_not_fail_the_collection_counterexample:
  "fst (createIndex sim_api index_fault_sim ''shop'' ''orders'' [(''createTime'', JNum 1)]
     [(''name'', JStr ''idx_createTime''), (''background'', JBool True)]) = Inl ''disk full'' \<and>
   \<not> str_includes ''disk full'' ''already enabled'' \<and>
   \<not> str_includes ''disk full'' ''already sharded'' \<and>
   \<not> str_includes ''disk full'' ''chunk is too small'' \<and>
   CreateIndex ''shop'' ''orders'' [(''createTime'', JNum 1)]
     [(''name'', JStr ''idx_createTime''), (''background'', JBool True)]
     \<in> set (issued (processCollection sim_api small_config orders) (new_shell index_fault_sim ''shop'')) \<and>
   ShardCollection ''shop.orders'' [(''uid'', JNum 1)]
     \<in> set (issued (processCollection sim_api small_config orders) (new_shell index_fault_sim ''shop'')) \<and>
   results (snd (processCollection sim_api small_config orders (new_shell index_fault_sim ''shop''))) =
     \<lparr>success = [''orders''], skipped = [], failed = []\<rparr>"
  by code_simp

section \<open>Fatal errors and errors of one collection\<close>

text \<open>
  C4, as the code has it. \<open>main\<close> ends with \<^verbatim>\<open>process.exit(1)\<close> exactly when the connection
  check or the database-level sharding step throws, and then no collection has been
  processed. An exception raised while a collection is processed never leaves
  \<open>processCollection\<close>: the loop goes on with the next collection and the exit code depends
  on the first two steps only. The exception is recorded in the failed list exactly when
  it leaves the \<^verbatim>\<open>try\<close> block. That is the case for an exception of \<^verbatim>\<open>use\<close>, of
  \<^verbatim>\<open>getCollectionNames\<close>, of \<^verbatim>\<open>createCollection\<close>, of the read of the sharding document,
  and for the first one thrown by one of the four steps, which throw the exceptions of
  \<^verbatim>\<open>getIndexes\<close>, of creating the shard-key index, of \<^verbatim>\<open>sh.shardCollection\<close> unless the
  message contains \<^verbatim>\<open>already sharded\<close>, and of the chunk count. It is not the case for
  an exception of creating a configured index or of a split attempt: these are caught in
  their loops, logged, and recorded nowhere.
\<close>

theorem fatal_errors_exit_collection_errors_do_not:
  fixes s :: 's
  shows
  "fst (main api cfg s d) =
     (if fst (validateConnection api (new_shell s d)) = Inr () \<and>
         fst (enableDatabaseSharding api cfg (new_shell s d)) = Inr ()
      then Returned else Exit 1) \<and>
   (fst (main api cfg s d) = Exit 1 \<longrightarrow>
      results (snd (main api cfg s d)) = \<lparr>success = [], skipped = [], failed = []\<rparr>) \<and>
   (\<forall>cc (st :: 's shell). fst (processCollection api cfg cc st) = Inr ()) \<and>
   (\<forall>cc ccs (st :: 's shell). for_of (cc # ccs) (processCollection api cfg) st =
      for_of ccs (processCollection api cfg) (snd (processCollection api cfg cc st))) \<and>
   (\<forall>cc (st :: 's shell). processCollection api cfg cc st =
      (case collection_steps api cfg cc (entered cc st) of
         (Inl e, st') \<Rightarrow> (Inr (), failed_with cc e st')
       | (Inr u, st') \<Rightarrow> (Inr (), st'))) \<and>
   (\<forall>cc (st :: 's shell) e s' d existing j spec.
      \<not> dryRun (exec_opts cfg) \<and> \<not> index_exists existing (key spec) \<and>
      createIndex api (cluster st) d (name cc) (key spec)
        (AList.update ''background'' (JBool (backgroundIndex (exec_opts cfg))) (options spec)) =
      (Inl e, s') \<longrightarrow>
      index_step api cfg cc d existing (j, spec) st =
        (Inr (), st\<lparr>cluster := s', calls := calls st @ [index_call cfg d (name cc) spec],
           logs := logs st @
             [Log Warning 620 [string_of_nat (j + 1), JSON_stringify (key spec), e]]\<rparr>)) \<and>
   (\<forall>(st :: 's shell) e s' ns n i created.
      splitFind api (cluster st) ns (split_point i) = (Inl e, s') \<longrightarrow>
      split_step api ns n i created st =
        (if str_includes e ''chunk is too small''
         then (Inr (Break created),
               st\<lparr>cluster := s', calls := calls st @ [SplitFind ns (split_point i)],
                  logs := logs st @ [Log Info 730 []]\<rparr>)
         else (Inr (Continue created),
               st\<lparr>cluster := s', calls := calls st @ [SplitFind ns (split_point i)],
                  logs := logs st @ [Log Warning 733 [string_of_int (i + 1), e]]\<rparr>))) \<and>
   (\<forall>cc (st :: 's shell) e. use api (cluster st) (database cfg) = Inl e \<longrightarrow>
      fst (collection_steps api cfg cc st) = Inl e) \<and>
   (\<forall>cc (st :: 's shell) e. use api (cluster st) (database cfg) = Inr () \<and>
      getCollectionNames api (cluster st) (database cfg) = Inl e \<longrightarrow>
      fst (collection_steps api cfg cc st) = Inl e) \<and>
   (\<forall>cc (st :: 's shell) e names s'. use api (cluster st) (database cfg) = Inr () \<and>
      getCollectionNames api (cluster st) (database cfg) = Inr names \<and>
      name cc \<notin> set names \<and> \<not> dryRun (exec_opts cfg) \<and>
      createCollection api (cluster st) (database cfg) (name cc) = (Inl e, s') \<longrightarrow>
      fst (collection_steps api cfg cc st) = Inl e) \<and>
   (\<forall>cc (st :: 's shell) names s1.
      use api (cluster st) (database cfg) = Inr () \<and>
      getCollectionNames api (cluster st) (database cfg) = Inr names \<and>
      (if name cc \<in> set names \<or> dryRun (exec_opts cfg) then s1 = cluster st
       else createCollection api (cluster st) (database cfg) (name cc) = (Inr (), s1)) \<longrightarrow>
      fst (collection_steps api cfg cc st) =
        (case findOne_collections api s1 (fullName_of cfg cc) of
           Inl e \<Rightarrow> Inl e
         | Inr doc \<Rightarrow>
             if is_sharded doc \<and> skipExistingSharded (exec_opts cfg) then Inr ()
             else
               (let st1 = after_checks cfg cc names s1 st;
                    st2 = snd (createIndexes api cfg cc st1);
                    st3 = snd (createShardKeyIndex api cfg cc st2);
                    st4 = snd (enableCollectionSharding api cfg cc st3)
                in case fst (createIndexes api cfg cc st1) of
                     Inl e \<Rightarrow> Inl e
                   | Inr u \<Rightarrow>
                  (case fst (createShardKeyIndex api cfg cc st2) of
                     Inl e \<Rightarrow> Inl e
                   | Inr u \<Rightarrow>
                  (case fst (enableCollectionSharding api cfg cc st3) of
                     Inl e \<Rightarrow> Inl e
                   | Inr u \<Rightarrow> fst (preSplitChunks api cfg cc st4)))))) \<and>
   (\<forall>cc (st :: 's shell). fst (createIndexes api cfg cc st) =
      (if indexes cc = [] then Inr ()
       else case getIndexes api (cluster st) (current_db st) (name cc) of
              Inl e \<Rightarrow> Inl e
            | Inr existing \<Rightarrow> Inr ())) \<and>
   (\<forall>cc (st :: 's shell). fst (createShardKeyIndex api cfg cc st) =
      (case getIndexes api (cluster st) (current_db st) (name cc) of
         Inl e \<Rightarrow> Inl e
       | Inr existing \<Rightarrow>
           (if index_exists existing (shardKey cc) \<or> dryRun (exec_opts cfg) then Inr ()
            else (case fst (createIndex api (cluster st) (current_db st) (name cc) (shardKey cc)
                        [(''background'', JBool (backgroundIndex (exec_opts cfg)))]) of
                    Inl e \<Rightarrow> Inl (err_shard_key_index @ e)
                  | Inr u \<Rightarrow> Inr ())))) \<and>
   (\<forall>cc (st :: 's shell). fst (enableCollectionSharding api cfg cc st) =
      (if dryRun (exec_opts cfg) then Inr ()
       else case fst (shardCollection api (cluster st) (fullName_of cfg cc) (shardKey cc)) of
              Inl e \<Rightarrow> if str_includes e ''already sharded'' then Inr () else Inl e
            | Inr result \<Rightarrow>
                if ok result = 1 \<or> str_includes (err_shard @ json result) ''already sharded''
                then Inr ()
                else Inl (err_shard @ json result))) \<and>
   (\<forall>cc (st :: 's shell). fst (preSplitChunks api cfg cc st) =
      (if dryRun (exec_opts cfg) then Inr ()
       else case countDocuments_chunks api (cluster st) (fullName_of cfg cc) of
              Inl e \<Rightarrow> Inl e
            | Inr current \<Rightarrow> Inr ()))"
proof (intro conjI allI impI; (elim conjE)?)
  show "fst (main api cfg s d) =
     (if fst (validateConnection api (new_shell s d)) = Inr () \<and>
         fst (enableDatabaseSharding api cfg (new_shell s d)) = Inr ()
      then Returned else Exit 1)"
    using main_outcome [of api cfg s d] by blast
next
  assume "fst (main api cfg s d) = Exit 1"
  then show "results (snd (main api cfg s d)) = \<lparr>success = [], skipped = [], failed = []\<rparr>"
    using main_outcome [of api cfg s d] by blast
next
  fix cc and st :: "'s shell"
  show "fst (processCollection api cfg cc st) = Inr ()"
    by (rule returns_unit [OF returns_processCollection])
next
  fix cc ccs and st :: "'s shell"
  show "for_of (cc # ccs) (processCollection api cfg) st =
      for_of ccs (processCollection api cfg) (snd (processCollection api cfg cc st))"
    by (rule for_of_returns_step [OF returns_processCollection])
next
  fix cc and st :: "'s shell"
  show "processCollection api cfg cc st =
      (case collection_steps api cfg cc (entered cc st) of
         (Inl e, st') \<Rightarrow> (Inr (), failed_with cc e st')
       | (Inr u, st') \<Rightarrow> (Inr (), st'))"
    by (rule processCollection_cases)
next
  fix e s' d existing j and cc :: coll_config and st :: "'s shell" and spec :: index_spec
  assume "\<not> dryRun (exec_opts cfg)" and "\<not> index_exists existing (key spec)"
    and "createIndex api (cluster st) d (name cc) (key spec)
        (AList.update ''background'' (JBool (backgroundIndex (exec_opts cfg))) (options spec)) =
      (Inl e, s')"
  then show "index_step api cfg cc d existing (j, spec) st =
        (Inr (), st\<lparr>cluster := s', calls := calls st @ [index_call cfg d (name cc) spec],
           logs := logs st @
             [Log Warning 620 [string_of_nat (j + 1), JSON_stringify (key spec), e]]\<rparr>)"
    by (rule index_step_throws)
next
  fix e s' ns n i created and st :: "'s shell"
  assume "splitFind api (cluster st) ns (split_point i) = (Inl e, s')"
  then show "split_step api ns n i created st =
        (if str_includes e ''chunk is too small''
         then (Inr (Break created),
               st\<lparr>cluster := s', calls := calls st @ [SplitFind ns (split_point i)],
                  logs := logs st @ [Log Info 730 []]\<rparr>)
         else (Inr (Continue created),
               st\<lparr>cluster := s', calls := calls st @ [SplitFind ns (split_point i)],
                  logs := logs st @ [Log Warning 733 [string_of_int (i + 1), e]]\<rparr>))"
    by (rule split_step_throws)
next
  fix e and cc :: coll_config and st :: "'s shell"
  assume "use api (cluster st) (database cfg) = Inl e"
  then show "fst (collection_steps api cfg cc st) = Inl e"
    by (simp add: collection_steps_use_throws)
next
  fix e and cc :: coll_config and st :: "'s shell"
  assume "use api (cluster st) (database cfg) = Inr ()"
    and "getCollectionNames api (cluster st) (database cfg) = Inl e"
  then show "fst (collection_steps api cfg cc st) = Inl e"
    by (simp add: collection_steps_names_throw)
next
  fix e names s' and cc :: coll_config and st :: "'s shell"
  assume "use api (cluster st) (database cfg) = Inr ()"
    and "getCollectionNames api (cluster st) (database cfg) = Inr names"
    and "name cc \<notin> set names" and "\<not> dryRun (exec_opts cfg)"
    and "createCollection api (cluster st) (database cfg) (name cc) = (Inl e, s')"
  then show "fst (collection_steps api cfg cc st) = Inl e"
    by (simp add: collection_steps_create_throws [where names = names])
next
  fix names s1 and cc :: coll_config and st :: "'s shell"
  assume "use api (cluster st) (database cfg) = Inr ()"
    and "getCollectionNames api (cluster st) (database cfg) = Inr names"
    and "if name cc \<in> set names \<or> dryRun (exec_opts cfg) then s1 = cluster st
       else createCollection api (cluster st) (database cfg) (name cc) = (Inr (), s1)"
  then show "fst (collection_steps api cfg cc st) =
        (case findOne_collections api s1 (fullName_of cfg cc) of
           Inl e \<Rightarrow> Inl e
         | Inr doc \<Rightarrow>
             if is_sharded doc \<and> skipExistingSharded (exec_opts cfg) then Inr ()
             else
               (let st1 = after_checks cfg cc names s1 st;
                    st2 = snd (createIndexes api cfg cc st1);
                    st3 = snd (createShardKeyIndex api cfg cc st2);
                    st4 = snd (enableCollectionSharding api cfg cc st3)
                in case fst (createIndexes api cfg cc st1) of
                     Inl e \<Rightarrow> Inl e
                   | Inr u \<Rightarrow>
                  (case fst (createShardKeyIndex api cfg cc st2) of
                     Inl e \<Rightarrow> Inl e
                   | Inr u \<Rightarrow>
                  (case fst (enableCollectionSharding api cfg cc st3) of
                     Inl e \<Rightarrow> Inl e
                   | Inr u \<Rightarrow> fst (preSplitChunks api cfg cc st4)))))"
    by (rule collection_steps_outcome)
next
  fix cc and st :: "'s shell"
  show "fst (createIndexes api cfg cc st) =
      (if indexes cc = [] then Inr ()
       else case getIndexes api (cluster st) (current_db st) (name cc) of
              Inl e \<Rightarrow> Inl e
            | Inr existing \<Rightarrow> Inr ())"
    by (rule createIndexes_outcome)
  show "fst (createShardKeyIndex api cfg cc st) =
      (case getIndexes api (cluster st) (current_db st) (name cc) of
         Inl e \<Rightarrow> Inl e
       | Inr existing \<Rightarrow>
           (if index_exists existing (shardKey cc) \<or> dryRun (exec_opts cfg) then Inr ()
            else (case fst (createIndex api (cluster st) (current_db st) (name cc) (shardKey cc)
                        [(''background'', JBool (backgroundIndex (exec_opts cfg)))]) of
                    Inl e \<Rightarrow> Inl (err_shard_key_index @ e)
                  | Inr u \<Rightarrow> Inr ())))"
    by (rule createShardKeyIndex_outcome)
  show "fst (enableCollectionSharding api cfg cc st) =
      (if dryRun (exec_opts cfg) then Inr ()
       else case fst (shardCollection api (cluster st) (fullName_of cfg cc) (shardKey cc)) of
              Inl e \<Rightarrow> if str_includes e ''already sharded'' then Inr () else Inl e
            | Inr result \<Rightarrow>
                if ok result = 1 \<or> str_includes (err_shard @ json result) ''already sharded''
                then Inr ()
                else Inl (err_shard @ json result))"
    by (rule enableCollectionSharding_outcome)
  show "fst (preSplitChunks api cfg cc st) =
      (if dryRun (exec_opts cfg) then Inr ()
       else case countDocuments_chunks api (cluster st) (fullName_of cfg cc) of
              Inl e \<Rightarrow> Inl e
            | Inr current \<Rightarrow> Inr ())"
    by (rule preSplitChunks_outcome)
qed

theorem fatal_errors_exit_collection_errors_do_not_witness:
  "fst (main sim_api small_config hello_fault_sim ''test'') = Exit 1 \<and>
   fst (main sim_api small_config enable_fault_sim ''test'') = Exit 1 \<and>
   results (snd (main sim_api small_config enable_fault_sim ''test'')) =
     \<lparr>success = [], skipped = [], failed = []\<rparr> \<and>
   fst (main sim_api small_config shard_fault_sim ''test'') = Returned \<and>
   fst (processCollection sim_api small_config orders (new_shell shard_fault_sim ''shop'')) =
     Inr () \<and>
   failed (results (snd (processCollection sim_api small_config orders
     (new_shell shard_fault_sim ''shop'')))) = [(''orders'', ''not authorized'')] \<and>
   fst (collection_steps sim_api small_config orders (new_shell getIndexes_fault_sim ''shop'')) =
     Inl ''not authorized'' \<and>
   fst (index_step sim_api small_config orders ''shop'' [id_index]
     (1, idx [(''createTime'', JNum 1)] (named ''idx_createTime''))
     (new_shell index_fault_sim ''shop'')) = Inr () \<and>
   results (snd (index_step sim_api small_config orders ''shop'' [id_index]
     (1, idx [(''createTime'', JNum 1)] (named ''idx_createTime''))
     (new_shell index_fault_sim ''shop''))) = \<lparr>success = [], skipped = [], failed = []\<rparr>"
proof -
  note main_cases = fatal_errors_exit_collection_errors_do_not [THEN conjunct1]
  note aborted = fatal_errors_exit_collection_errors_do_not [THEN conjunct2, THEN conjunct1,
      rule_format]
  note returns = fatal_errors_exit_collection_errors_do_not [THEN conjunct2, THEN conjunct2,
      THEN conjunct1, rule_format]
  note caught = fatal_errors_exit_collection_errors_do_not [THEN conjunct2, THEN conjunct2,
      THEN conjunct2, THEN conjunct2, THEN conjunct1, rule_format]
  note index = fatal_errors_exit_collection_errors_do_not [THEN conjunct2, THEN conjunct2,
      THEN conjunct2, THEN conjunct2, THEN conjunct2, THEN conjunct1, rule_format]
  note steps = fatal_errors_exit_collection_errors_do_not [THEN conjunct2, THEN conjunct2,
      THEN conjunct2, THEN conjunct2, THEN conjunct2, THEN conjunct2, THEN conjunct2,
      THEN conjunct2, THEN conjunct2, THEN conjunct2, THEN conjunct1, rule_format]
  note indexes = fatal_errors_exit_collection_errors_do_not [THEN conjunct2, THEN conjunct2,
      THEN conjunct2, THEN conjunct2, THEN conjunct2, THEN conjunct2, THEN conjunct2,
      THEN conjunct2, THEN conjunct2, THEN conjunct2, THEN conjunct2, THEN conjunct1,
      rule_format]
  let ?st2 = "entered orders (new_shell shard_fault_sim ''shop'')"
  have h1: "fst (validateConnection sim_api (new_shell hello_fault_sim ''test'')) \<noteq> Inr ()"
    by code_simp
  have h2: "fst (enableDatabaseSharding sim_api small_config (new_shell enable_fault_sim ''test'')) \<noteq>
      Inr ()"
    by code_simp
  have h3: "fst (validateConnection sim_api (new_shell shard_fault_sim ''test'')) = Inr ()"
    "fst (enableDatabaseSharding sim_api small_config (new_shell shard_fault_sim ''test'')) = Inr ()"
    by code_simp+
  have h4: "collection_steps sim_api small_config orders ?st2 =
      (Inl ''not authorized'', snd (collection_steps sim_api small_config orders ?st2))"
    by code_simp
  have h5: "results (snd (collection_steps sim_api small_config orders ?st2)) =
      \<lparr>success = [], skipped = [], failed = []\<rparr>"
    by code_simp
  have h6: "\<not> dryRun (exec_opts small_config) \<and>
      \<not> index_exists [id_index] (key (idx [(''createTime'', JNum 1)] (named ''idx_createTime''))) \<and>
      createIndex sim_api (cluster (new_shell index_fault_sim ''shop'')) ''shop'' (name orders)
        (key (idx [(''createTime'', JNum 1)] (named ''idx_createTime'')))
        (AList.update ''background'' (JBool (backgroundIndex (exec_opts small_config)))
          (options (idx [(''createTime'', JNum 1)] (named ''idx_createTime'')))) =
      (Inl ''disk full'', index_fault_sim)"
    by code_simp
  have h7: "use sim_api (cluster (new_shell getIndexes_fault_sim ''shop''))
        (database small_config) = Inr () \<and>
      getCollectionNames sim_api (cluster (new_shell getIndexes_fault_sim ''shop''))
        (database small_config) = Inr [''orders''] \<and>
      (if name orders \<in> set [''orders''] \<or> dryRun (exec_opts small_config)
       then getIndexes_fault_sim = cluster (new_shell getIndexes_fault_sim ''shop'')
       else createCollection sim_api (cluster (new_shell getIndexes_fault_sim ''shop''))
              (database small_config) (name orders) = (Inr (), getIndexes_fault_sim))"
    by code_simp
  have h8: "findOne_collections sim_api getIndexes_fault_sim (fullName_of small_config orders) =
      Inr None"
    "\<not> is_sharded None" "indexes orders \<noteq> []"
    "getIndexes sim_api
       (cluster (after_checks small_config orders [''orders''] getIndexes_fault_sim
          (new_shell getIndexes_fault_sim ''shop'')))
       (current_db (after_checks small_config orders [''orders''] getIndexes_fault_sim
          (new_shell getIndexes_fault_sim ''shop''))) (name orders) = Inl ''not authorized''"
    by code_simp+
  have e1: "fst (main sim_api small_config hello_fault_sim ''test'') = Exit 1"
    using main_cases [of sim_api small_config hello_fault_sim "''test''"] h1 by simp
  have e2: "fst (main sim_api small_config enable_fault_sim ''test'') = Exit 1"
    using main_cases [of sim_api small_config enable_fault_sim "''test''"] h2 by simp
  have e3: "fst (main sim_api small_config shard_fault_sim ''test'') = Returned"
    using main_cases [of sim_api small_config shard_fault_sim "''test''"] h3 by simp
  have e4: "failed (results (snd (processCollection sim_api small_config orders
      (new_shell shard_fault_sim ''shop'')))) = [(''orders'', ''not authorized'')]"
  proof -
    define st' where "st' = snd (collection_steps sim_api small_config orders ?st2)"
    have 1: "collection_steps sim_api small_config orders ?st2 = (Inl ''not authorized'', st')"
      unfolding st'_def by (rule h4)
    have 2: "results st' = \<lparr>success = [], skipped = [], failed = []\<rparr>"
      unfolding st'_def by (rule h5)
    have 3: "name orders = ''orders''"
      by (simp add: orders_def)
    show ?thesis
      using caught [of sim_api small_config orders "new_shell shard_fault_sim ''shop''"] 1 2 3
      by (simp add: failed_with_def)
  qed
  have e5: "fst (collection_steps sim_api small_config orders
      (new_shell getIndexes_fault_sim ''shop'')) = Inl ''not authorized''"
    using steps [OF h7] h8
      indexes [of sim_api small_config orders
        "after_checks small_config orders [''orders''] getIndexes_fault_sim
          (new_shell getIndexes_fault_sim ''shop'')"]
    by (simp add: Let_def)
  have e6: "fst (index_step sim_api small_config orders ''shop'' [id_index]
     (1, idx [(''createTime'', JNum 1)] (named ''idx_createTime''))
     (new_shell index_fault_sim ''shop'')) = Inr () \<and>
   results (snd (index_step sim_api small_config orders ''shop'' [id_index]
     (1, idx [(''createTime'', JNum 1)] (named ''idx_createTime''))
     (new_shell index_fault_sim ''shop''))) = \<lparr>success = [], skipped = [], failed = []\<rparr>"
    using index [OF h6, of 1] by (simp add: new_shell_def)
  show ?thesis
    using e1 e2 aborted [OF e2] e3
      returns [of sim_api small_config orders "new_shell shard_fault_sim ''shop''"] e4 e5 e6
    by blast
qed

text \<open>
  The claim as stated fails for two kinds of exception: the first index of the
  collection cannot be built and the first split is refused, both exceptions are caught
  and logged as warnings, and the collection is recorded as a success, not as a failure.
\<close>

theorem caught_exceptions_are_not_all_recorded_counterexample:
  "fst (createIndex sim_api warnings_sim ''shop'' ''orders'' [(''uid'', JNum 1)]
     [(''unique'', JBool True), (''name'', JStr ''idx_uid''), (''background'', JBool True)]) =
     Inl ''disk full'' \<and>
   Log Warning 620 [''1'', JSON_stringify [(''uid'', JNum 1)], ''disk full'']
     \<in> set (printed (processCollection sim_api small_config orders) (new_shell warnings_sim ''shop'')) \<and>
   Log Warning 733 [''1'', ''no shard key found in chunk query'']
     \<in> set (printed (processCollection sim_api small_config orders) (new_shell warnings_sim ''shop'')) \<and>
   results (snd (processCollection sim_api small_config orders (new_shell warnings_sim ''shop''))) =
     \<lparr>success = [''orders''], skipped = [], failed = []\<rparr>"
  by code_simp

section \<open>A second run\<close>

lemma processCollection_shards:
  assumes c: "checks_answer api cfg cc st names s1 doc"
    and go: "\<not> (is_sharded doc \<and> skipExistingSharded (exec_opts cfg))"
    and real: "\<not> dryRun (exec_opts cfg)"
    and i1: "fst (createIndexes api cfg cc (after_checks cfg cc names s1 (entered cc st))) = Inr ()"
    and i2: "fst (createShardKeyIndex api cfg cc
        (snd (createIndexes api cfg cc (after_checks cfg cc names s1 (entered cc st))))) = Inr ()"
  shows "ShardCollection (fullName_of cfg cc) (shardKey cc)
     \<in> set (issued (processCollection api cfg cc) st)"
proof -
  let ?st1 = "after_checks cfg cc names s1 (entered cc st)"
  let ?st2 = "snd (createIndexes api cfg cc ?st1)"
  let ?st3 = "snd (createShardKeyIndex api cfg cc ?st2)"
  let ?st4 = "snd (enableCollectionSharding api cfg cc ?st3)"
  let ?st5 = "snd (preSplitChunks api cfg cc ?st4)"
  let ?end = "snd (processCollection api cfg cc st)"
  have "calls ?end = calls ?st4 \<or> calls ?end = calls ?st5"
    using processCollection_steps [OF c go] i1 i2
    by (cases "fst (enableCollectionSharding api cfg cc ?st3)";
        cases "fst (preSplitChunks api cfg cc ?st4)")
      (simp_all add: Let_def failed_with_def succeeded_def)
  moreover have "calls ?st5 = calls ?st4 @ issued (preSplitChunks api cfg cc) ?st4"
    by (rule calls_issued [OF extends_preSplitChunks])
  moreover have "calls ?st4 = calls ?st3 @ [ShardCollection (fullName_of cfg cc) (shardKey cc)]"
    using calls_issued [OF extends_enableCollectionSharding, of api cfg cc ?st3] real
    by (simp add: enableCollectionSharding_calls)
  moreover have "calls ?st3 = calls ?st2 @ issued (createShardKeyIndex api cfg cc) ?st2"
    by (rule calls_issued [OF extends_createShardKeyIndex])
  moreover have "calls ?st2 = calls ?st1 @ issued (createIndexes api cfg cc) ?st1"
    by (rule calls_issued [OF extends_createIndexes])
  ultimately show ?thesis
    by (auto simp add: issued_def [of "processCollection api cfg cc"] calls_after_checks)
qed

text \<open>
  C5, as the code has it. A second run creates no duplicate index: every \<^verbatim>\<open>createIndex\<close>
  call of \<open>createIndexes\<close> and of \<open>createShardKeyIndex\<close> is for a key pattern that no index
  reported by \<^verbatim>\<open>getIndexes\<close> has. With \<^verbatim>\<open>skipExistingSharded\<close> set, a collection whose
  sharding document has a key gets the checks and nothing else (so no index creation, no
  \<^verbatim>\<open>shardCollection\<close> and no split), and is recorded as skipped. With the option not set,
  a run that is not a dry run calls \<^verbatim>\<open>shardCollection\<close> for the collection, sharded or
  not, whenever the checks answer and the two index steps before it do not throw, and
  an answer \<^verbatim>\<open>already sharded\<close> to this call is swallowed.
\<close>

theorem second_run_skips_what_exists:
  fixes st :: "'s shell"
  shows
  "(\<not> dryRun (exec_opts cfg) \<and>
    getIndexes api (cluster st) (current_db st) (name cc) = Inr existing \<longrightarrow>
      (\<forall>d n key_pattern opts.
         CreateIndex d n key_pattern opts \<in> set (issued (createIndexes api cfg cc) st) \<or>
         CreateIndex d n key_pattern opts \<in> set (issued (createShardKeyIndex api cfg cc) st) \<longrightarrow>
         \<not> index_exists existing key_pattern)) \<and>
   (checks_answer api cfg cc st names s1 doc \<and> is_sharded doc \<and>
    skipExistingSharded (exec_opts cfg) \<longrightarrow>
      processCollection api cfg cc st =
        (Inr (), skipped_over cc (after_checks cfg cc names s1 (entered cc st))) \<and>
      issued (processCollection api cfg cc) st =
        [Use (database cfg), GetCollectionNames (database cfg)] @
        (if name cc \<in> set names \<or> dryRun (exec_opts cfg) then []
         else [CreateCollection (database cfg) (name cc)]) @
        [FindOne_collections (fullName_of cfg cc)]) \<and>
   (checks_answer api cfg cc st names s1 doc \<and>
    \<not> skipExistingSharded (exec_opts cfg) \<and> \<not> dryRun (exec_opts cfg) \<and>
    fst (createIndexes api cfg cc (after_checks cfg cc names s1 (entered cc st))) = Inr () \<and>
    fst (createShardKeyIndex api cfg cc
      (snd (createIndexes api cfg cc (after_checks cfg cc names s1 (entered cc st))))) = Inr () \<longrightarrow>
      ShardCollection (fullName_of cfg cc) (shardKey cc)
        \<in> set (issued (processCollection api cfg cc) st)) \<and>
   (\<forall>(st' :: 's shell) e s'. \<not> dryRun (exec_opts cfg) \<and>
      shardCollection api (cluster st') (fullName_of cfg cc) (shardKey cc) = (Inl e, s') \<and>
      str_includes e ''already sharded'' \<longrightarrow>
      enableCollectionSharding api cfg cc st' =
        (Inr (), st'\<lparr>cluster := s',
           calls := calls st' @ [ShardCollection (fullName_of cfg cc) (shardKey cc)],
           logs := logs st' @ [Log Info 669 [], Log Info 670 [JSON_stringify (shardKey cc)],
             Log Info 687 []]\<rparr>))"
proof (intro conjI impI allI; (elim conjE)?)
  fix d n key_pattern opts
  assume real: "\<not> dryRun (exec_opts cfg)"
    and g: "getIndexes api (cluster st) (current_db st) (name cc) = Inr existing"
  assume c: "CreateIndex d n key_pattern opts \<in> set (issued (createIndexes api cfg cc) st) \<or>
    CreateIndex d n key_pattern opts \<in> set (issued (createShardKeyIndex api cfg cc) st)"
  have i1: "issued (createIndexes api cfg cc) st =
      (if indexes cc = [] then []
       else GetIndexes (current_db st) (name cc) #
            map (index_call cfg (current_db st) (name cc))
              (filter (\<lambda>spec. \<not> index_exists existing (key spec)) (indexes cc)))"
    using real g by (intro issued_eq createIndexes_calls) simp_all
  have i2: "issued (createShardKeyIndex api cfg cc) st =
      GetIndexes (current_db st) (name cc) #
      (if index_exists existing (shardKey cc) then []
       else [CreateIndex (current_db st) (name cc) (shardKey cc)
               [(''background'', JBool (backgroundIndex (exec_opts cfg)))]])"
    using real g by (intro issued_eq) (simp add: createShardKeyIndex_calls)
  from c show "\<not> index_exists existing key_pattern"
  proof
    assume "CreateIndex d n key_pattern opts \<in> set (issued (createIndexes api cfg cc) st)"
    then obtain spec where "\<not> index_exists existing (key spec)"
      and "index_call cfg (current_db st) (name cc) spec = CreateIndex d n key_pattern opts"
      unfolding i1 by (auto split: if_splits)
    then show ?thesis
      using index_call_key by metis
  next
    assume "CreateIndex d n key_pattern opts \<in> set (issued (createShardKeyIndex api cfg cc) st)"
    then show ?thesis
      unfolding i2 by (auto split: if_splits)
  qed
next
  assume h: "checks_answer api cfg cc st names s1 doc" "is_sharded doc"
    "skipExistingSharded (exec_opts cfg)"
  show "processCollection api cfg cc st =
        (Inr (), skipped_over cc (after_checks cfg cc names s1 (entered cc st)))"
    by (rule processCollection_skips [OF h])
  show "issued (processCollection api cfg cc) st =
        [Use (database cfg), GetCollectionNames (database cfg)] @
        (if name cc \<in> set names \<or> dryRun (exec_opts cfg) then []
         else [CreateCollection (database cfg) (name cc)]) @
        [FindOne_collections (fullName_of cfg cc)]"
    by (rule processCollection_skips_calls [OF h])
next
  assume c: "checks_answer api cfg cc st names s1 doc"
    and off: "\<not> skipExistingSharded (exec_opts cfg)" and real: "\<not> dryRun (exec_opts cfg)"
    and i1: "fst (createIndexes api cfg cc (after_checks cfg cc names s1 (entered cc st))) = Inr ()"
    and i2: "fst (createShardKeyIndex api cfg cc
      (snd (createIndexes api cfg cc (after_checks cfg cc names s1 (entered cc st))))) = Inr ()"
  from off have go: "\<not> (is_sharded doc \<and> skipExistingSharded (exec_opts cfg))"
    by simp
  show "ShardCollection (fullName_of cfg cc) (shardKey cc)
        \<in> set (issued (processCollection api cfg cc) st)"
    by (rule processCollection_shards [OF c go real i1 i2])
next
  fix e s' and st' :: "'s shell"
  assume "\<not> dryRun (exec_opts cfg)"
    and "shardCollection api (cluster st') (fullName_of cfg cc) (shardKey cc) = (Inl e, s')"
    and "str_includes e ''already sharded''"
  then show "enableCollectionSharding api cfg cc st' =
        (Inr (), st'\<lparr>cluster := s',
           calls := calls st' @ [ShardCollection (fullName_of cfg cc) (shardKey cc)],
           logs := logs st' @ [Log Info 669 [], Log Info 670 [JSON_stringify (shardKey cc)],
             Log Info 687 []]\<rparr>)"
    by (simp add: enableCollectionSharding_def Let_def try_catch_def bnd_def mutating_def
        logger_def ret_def)
qed

theorem second_run_skips_what_exists_witness:
  "CreateIndex ''shop'' ''orders'' [(''uid'', JNum 1)]
     [(''unique'', JBool True), (''name'', JStr ''idx_uid''), (''background'', JBool True)]
     \<notin> set (issued (createIndexes sim_api small_config orders) (new_shell sharded_sim ''shop'')) \<and>
   issued (processCollection sim_api small_config orders) (new_shell sharded_sim ''test'') =
     [Use ''shop'', GetCollectionNames ''shop'', FindOne_collections ''shop.orders''] \<and>
   results (snd (processCollection sim_api small_config orders (new_shell sharded_sim ''test''))) =
     \<lparr>success = [], skipped = [''orders''], failed = []\<rparr> \<and>
   ShardCollection ''shop.orders'' [(''uid'', JNum 1)]
     \<in> set (issued (processCollection sim_api no_skip_config orders)
         (new_shell sharded_sim ''test'')) \<and>
   fst (enableCollectionSharding sim_api no_skip_config orders (new_shell sharded_sim ''shop'')) =
     Inr ()"
proof -
  note no_duplicate = second_run_skips_what_exists [THEN conjunct1, rule_format]
  note skipped = second_run_skips_what_exists [THEN conjunct2, THEN conjunct1, rule_format]
  note again = second_run_skips_what_exists [THEN conjunct2, THEN conjunct2, THEN conjunct1,
      rule_format]
  note swallowed = second_run_skips_what_exists [THEN conjunct2, THEN conjunct2, THEN conjunct2,
      rule_format]
  have 1: "\<not> dryRun (exec_opts small_config) \<and>
      getIndexes sim_api (cluster (new_shell sharded_sim ''shop''))
        (current_db (new_shell sharded_sim ''shop'')) (name orders) =
      Inr (sim_indexes_of sharded_sim ''orders'')"
    by code_simp
  have 2: "index_exists (sim_indexes_of sharded_sim ''orders'') [(''uid'', JNum 1)]"
    by code_simp
  have 3: "checks_answer sim_api small_config orders (new_shell sharded_sim ''test'')
        [''orders''] sharded_sim (Some (Some [(''uid'', JNum 1)])) \<and>
      is_sharded (Some (Some [(''uid'', JNum 1)])) \<and>
      skipExistingSharded (exec_opts small_config)"
    by code_simp
  have 4: "checks_answer sim_api no_skip_config orders (new_shell sharded_sim ''test'')
        [''orders''] sharded_sim (Some (Some [(''uid'', JNum 1)])) \<and>
      \<not> skipExistingSharded (exec_opts no_skip_config) \<and>
      \<not> dryRun (exec_opts no_skip_config) \<and>
      fst (createIndexes sim_api no_skip_config orders
        (after_checks no_skip_config orders [''orders''] sharded_sim
          (entered orders (new_shell sharded_sim ''test'')))) = Inr () \<and>
      fst (createShardKeyIndex sim_api no_skip_config orders
        (snd (createIndexes sim_api no_skip_config orders
          (after_checks no_skip_config orders [''orders''] sharded_sim
            (entered orders (new_shell sharded_sim ''test'')))))) = Inr ()"
    by code_simp
  have 5: "\<not> dryRun (exec_opts no_skip_config) \<and>
      shardCollection sim_api (cluster (new_shell sharded_sim ''shop''))
        (fullName_of no_skip_config orders) (shardKey orders) =
      (Inl ''collection already sharded'', sharded_sim) \<and>
      str_includes ''collection already sharded'' ''already sharded''"
    by code_simp
  have a: "CreateIndex ''shop'' ''orders'' [(''uid'', JNum 1)]
     [(''unique'', JBool True), (''name'', JStr ''idx_uid''), (''background'', JBool True)]
     \<notin> set (issued (createIndexes sim_api small_config orders) (new_shell sharded_sim ''shop''))"
    using no_duplicate [OF 1] 2 by blast
  have b: "fullName_of small_config orders = ''shop.orders''" "database small_config = ''shop''"
    "name orders = ''orders''" "fullName_of no_skip_config orders = ''shop.orders''"
    "shardKey orders = [(''uid'', JNum 1)]" "\<not> dryRun (exec_opts small_config)"
    by (simp_all add: fullName_of_def small_config_def no_skip_config_def orders_def)
  have c: "issued (processCollection sim_api small_config orders) (new_shell sharded_sim ''test'') =
     [Use ''shop'', GetCollectionNames ''shop'', FindOne_collections ''shop.orders'']"
    using skipped [OF 3, THEN conjunct2] b by simp
  have d: "results (snd (processCollection sim_api small_config orders
      (new_shell sharded_sim ''test''))) = \<lparr>success = [], skipped = [''orders''], failed = []\<rparr>"
    using skipped [OF 3, THEN conjunct1] b
    by (simp add: skipped_over_def after_checks_def entered_def new_shell_def)
  have e: "ShardCollection ''shop.orders'' [(''uid'', JNum 1)]
     \<in> set (issued (processCollection sim_api no_skip_config orders)
         (new_shell sharded_sim ''test''))"
    using again [OF 4] b by simp
  have f: "fst (enableCollectionSharding sim_api no_skip_config orders
      (new_shell sharded_sim ''shop'')) = Inr ()"
    using swallowed [OF 5] by simp
  show ?thesis
    using a c d e f by blast
qed

text \<open>
  The claim as stated fails without \<^verbatim>\<open>skipExistingSharded\<close>: processing the collection
  shards it, and processing it again on the cluster this leaves behind calls
  \<^verbatim>\<open>shardCollection\<close> for it again.
\<close>

theorem second_run_shards_again_counterexample:
  "cluster (snd (processCollection sim_api no_skip_config orders (new_shell orders_sim ''shop''))) =
     sharded_sim \<and>
   ShardCollection ''shop.orders'' [(''uid'', JNum 1)]
     \<in> set (issued (processCollection sim_api no_skip_config orders) (new_shell orders_sim ''shop'')) \<and>
   ShardCollection ''shop.orders'' [(''uid'', JNum 1)]
     \<in> set (issued (processCollection sim_api no_skip_config orders) (new_shell sharded_sim ''shop''))"
  by code_simp

section \<open>Pre-splitting\<close>

text \<open>
  C6, as the code has it. In a run that is not a dry run, \<open>preSplitChunks\<close> reads the chunk
  count of the namespace first and never throws once the count is read. When the count is
  at least \<^verbatim>\<open>initialChunks\<close>, no split call is made. Otherwise the split attempts
  number 0, 1, ... are made in order, at least one and at most \<^verbatim>\<open>initialChunks\<close> minus
  the count of them, and they are the attempts of \<open>split_answers\<close>: no attempt but the last
  is answered by \<^verbatim>\<open>chunk is too small\<close>, the last one is when fewer attempts are made
  than that number, and line 730 is logged exactly when the last one is. An attempt that
  throws any other message is logged as a warning (line 733) and the loop goes on; the code
  promises nothing about the chunk count afterwards.
\<close>

theorem presplit_is_guarded_by_chunk_count:
  fixes st :: "'s shell"
  assumes "\<not> dryRun (exec_opts cfg)"
    and "countDocuments_chunks api (cluster st) (fullName_of cfg cc) = Inr current"
  shows "fst (preSplitChunks api cfg cc st) = Inr () \<and>
    (initialChunks (sharding cfg) \<le> current \<longrightarrow>
       issued (preSplitChunks api cfg cc) st = [CountDocuments_chunks (fullName_of cfg cc)]) \<and>
    (current < initialChunks (sharding cfg) \<longrightarrow>
       (let answers = split_answers api (fullName_of cfg cc)
              (nat (initialChunks (sharding cfg) - current)) 0 (cluster st)
        in issued (preSplitChunks api cfg cc) st =
             CountDocuments_chunks (fullName_of cfg cc) #
             split_calls (fullName_of cfg cc) 0 (int (length answers)) \<and>
           answers \<noteq> [] \<and>
           int (length answers) \<le> initialChunks (sharding cfg) - current \<and>
           (\<forall>j. Suc j < length answers \<longrightarrow> \<not> stops (answers ! j)) \<and>
           (int (length answers) < initialChunks (sharding cfg) - current \<longrightarrow>
              stops (last answers)) \<and>
           (Log Info 730 [] \<in> set (printed (preSplitChunks api cfg cc) st) \<longleftrightarrow>
              stops (last answers)))) \<and>
    (\<forall>i created n st1 e s'.
       splitFind api (cluster st1) (fullName_of cfg cc) (split_point i) = (Inl e, s') \<longrightarrow>
       split_step api (fullName_of cfg cc) n i created st1 =
         (if str_includes e ''chunk is too small''
          then (Inr (Break created),
                st1\<lparr>cluster := s',
                  calls := calls st1 @ [SplitFind (fullName_of cfg cc) (split_point i)],
                  logs := logs st1 @ [Log Info 730 []]\<rparr>)
          else (Inr (Continue created),
                st1\<lparr>cluster := s',
                  calls := calls st1 @ [SplitFind (fullName_of cfg cc) (split_point i)],
                  logs := logs st1 @ [Log Warning 733 [string_of_int (i + 1), e]]\<rparr>))) \<and>
    (\<forall>i created n st1 u s'.
       splitFind api (cluster st1) (fullName_of cfg cc) (split_point i) = (Inr u, s') \<longrightarrow>
       split_step api (fullName_of cfg cc) n i created st1 =
         (Inr (Continue (created + 1)),
          st1\<lparr>cluster := s',
            calls := calls st1 @ [SplitFind (fullName_of cfg cc) (split_point i)],
            logs := logs st1 @ [Log Info 726 [string_of_int (created + 1), string_of_int n]],
            slept := slept st1 + 50\<rparr>))"
proof (intro conjI impI allI)
  show "fst (preSplitChunks api cfg cc st) = Inr ()"
    using assms by (simp add: preSplitChunks_outcome)
next
  assume "initialChunks (sharding cfg) \<le> current"
  then show "issued (preSplitChunks api cfg cc) st = [CountDocuments_chunks (fullName_of cfg cc)]"
    by (simp add: preSplitChunks_enough [OF assms] issued_def)
next
  let ?m = "nat (initialChunks (sharding cfg) - current)"
  let ?answers = "split_answers api (fullName_of cfg cc) ?m 0 (cluster st)"
  assume less: "current < initialChunks (sharding cfg)"
  then have m: "int ?m = initialChunks (sharding cfg) - current" "0 < ?m"
    by simp_all
  have len: "int (length ?answers) \<le> initialChunks (sharding cfg) - current"
    using split_answers_length [of api "fullName_of cfg cc" ?m 0 "cluster st"] m(1) by linarith
  have short: "int (length ?answers) < initialChunks (sharding cfg) - current \<longrightarrow>
      stops (last ?answers)"
    using split_answers_short [of api "fullName_of cfg cc" ?m 0 "cluster st"] m(1) by auto
  have ne: "?answers \<noteq> []"
    by (rule split_answers_nonempty [OF m(2)])
  have go: "\<forall>j. Suc j < length ?answers \<longrightarrow> \<not> stops (?answers ! j)"
    by (intro allI impI) (rule split_answers_go_on)
  show "let answers = ?answers
        in issued (preSplitChunks api cfg cc) st =
             CountDocuments_chunks (fullName_of cfg cc) #
             split_calls (fullName_of cfg cc) 0 (int (length answers)) \<and>
           answers \<noteq> [] \<and>
           int (length answers) \<le> initialChunks (sharding cfg) - current \<and>
           (\<forall>j. Suc j < length answers \<longrightarrow> \<not> stops (answers ! j)) \<and>
           (int (length answers) < initialChunks (sharding cfg) - current \<longrightarrow>
              stops (last answers)) \<and>
           (Log Info 730 [] \<in> set (printed (preSplitChunks api cfg cc) st) \<longleftrightarrow>
              stops (last answers))"
    unfolding Let_def
    using preSplitChunks_answers [OF assms less] ne len short go
    by simp
next
  fix i created n e s' and st1 :: "'s shell"
  assume "splitFind api (cluster st1) (fullName_of cfg cc) (split_point i) = (Inl e, s')"
  then show "split_step api (fullName_of cfg cc) n i created st1 =
         (if str_includes e ''chunk is too small''
          then (Inr (Break created),
                st1\<lparr>cluster := s',
                  calls := calls st1 @ [SplitFind (fullName_of cfg cc) (split_point i)],
                  logs := logs st1 @ [Log Info 730 []]\<rparr>)
          else (Inr (Continue created),
                st1\<lparr>cluster := s',
                  calls := calls st1 @ [SplitFind (fullName_of cfg cc) (split_point i)],
                  logs := logs st1 @ [Log Warning 733 [string_of_int (i + 1), e]]\<rparr>))"
    by (rule split_step_throws)
next
  fix i created n u s' and st1 :: "'s shell"
  assume "splitFind api (cluster st1) (fullName_of cfg cc) (split_point i) = (Inr u, s')"
  then show "split_step api (fullName_of cfg cc) n i created st1 =
         (Inr (Continue (created + 1)),
          st1\<lparr>cluster := s',
            calls := calls st1 @ [SplitFind (fullName_of cfg cc) (split_point i)],
            logs := logs st1 @ [Log Info 726 [string_of_int (created + 1), string_of_int n]],
            slept := slept st1 + 50\<rparr>)"
    by (rule split_step_ok)
qed

theorem presplit_is_guarded_by_chunk_count_witness:
  "issued (preSplitChunks sim_api small_config orders) (new_shell sharded_sim ''shop'') =
     [CountDocuments_chunks ''shop.orders''] \<and>
   issued (preSplitChunks sim_api small_config orders) (new_shell one_chunk_sim ''shop'') =
     [CountDocuments_chunks ''shop.orders'',
      SplitFind ''shop.orders'' (split_point 0), SplitFind ''shop.orders'' (split_point 1)] \<and>
   Log Info 730 [] \<notin> set (printed (preSplitChunks sim_api small_config orders)
     (new_shell one_chunk_sim ''shop'')) \<and>
   issued (preSplitChunks sim_api small_config orders) (new_shell small_chunk_sim ''shop'') =
     [CountDocuments_chunks ''shop.orders'', SplitFind ''shop.orders'' (split_point 0)] \<and>
   Log Info 730 [] \<in> set (printed (preSplitChunks sim_api small_config orders)
     (new_shell small_chunk_sim ''shop'')) \<and>
   fst (split_step sim_api ''shop.orders'' 2 0 0 (new_shell split_fault_sim ''shop'')) =
     Inr (Continue 0)"
proof -
  have 1: "\<not> dryRun (exec_opts small_config)"
    by (simp add: small_config_def)
  have 2: "countDocuments_chunks sim_api (cluster (new_shell sharded_sim ''shop''))
      (fullName_of small_config orders) = Inr 3"
    by code_simp
  have 3: "countDocuments_chunks sim_api (cluster (new_shell one_chunk_sim ''shop''))
      (fullName_of small_config orders) = Inr 1"
    by code_simp
  have 4: "splitFind sim_api (cluster (new_shell split_fault_sim ''shop''))
      (fullName_of small_config orders) (split_point 0) =
      (Inl ''no shard key found in chunk query'', split_fault_sim)"
    by code_simp
  have 5: "\<not> str_includes ''no shard key found in chunk query'' ''chunk is too small''"
    by code_simp
  have 6: "countDocuments_chunks sim_api (cluster (new_shell small_chunk_sim ''shop''))
      (fullName_of small_config orders) = Inr 1"
    by code_simp
  have n: "initialChunks (sharding small_config) = 3"
    "fullName_of small_config orders = ''shop.orders''"
    by (simp_all add: small_config_def fullName_of_def orders_def)
  have a1: "split_answers sim_api ''shop.orders'' (nat (3 - 1)) 0
      (cluster (new_shell one_chunk_sim ''shop'')) = [Inr (), Inr ()]"
    by code_simp
  have a2: "split_answers sim_api ''shop.orders'' (nat (3 - 1)) 0
      (cluster (new_shell small_chunk_sim ''shop'')) = [Inl ''chunk is too small to split'']"
    by code_simp
  have s: "\<not> stops (Inr ())" "stops (Inl ''chunk is too small to split'')"
    by code_simp+
  have c: "split_calls ''shop.orders'' 0 (int (length [Inr () :: string + unit, Inr ()])) =
      [SplitFind ''shop.orders'' (split_point 0), SplitFind ''shop.orders'' (split_point 1)]"
    "split_calls ''shop.orders'' 0
        (int (length [Inl ''chunk is too small to split'' :: string + unit])) =
      [SplitFind ''shop.orders'' (split_point 0)]"
    by (simp_all add: split_calls_first split_calls_empty)
  note enough = presplit_is_guarded_by_chunk_count [OF 1 2, THEN conjunct2, THEN conjunct1]
  note two = presplit_is_guarded_by_chunk_count [OF 1 3, THEN conjunct2, THEN conjunct2,
      THEN conjunct1]
  note one = presplit_is_guarded_by_chunk_count [OF 1 6, THEN conjunct2, THEN conjunct2,
      THEN conjunct1]
  note step = presplit_is_guarded_by_chunk_count [OF 1 3, THEN conjunct2, THEN conjunct2,
      THEN conjunct2, THEN conjunct1, rule_format, OF 4]
  have a: "issued (preSplitChunks sim_api small_config orders) (new_shell sharded_sim ''shop'') =
     [CountDocuments_chunks ''shop.orders'']"
    using enough n by simp
  have b: "issued (preSplitChunks sim_api small_config orders) (new_shell one_chunk_sim ''shop'') =
     [CountDocuments_chunks ''shop.orders'',
      SplitFind ''shop.orders'' (split_point 0), SplitFind ''shop.orders'' (split_point 1)] \<and>
   Log Info 730 [] \<notin> set (printed (preSplitChunks sim_api small_config orders)
     (new_shell one_chunk_sim ''shop''))"
    using two unfolding n a1 Let_def c using s by simp
  have d: "issued (preSplitChunks sim_api small_config orders) (new_shell small_chunk_sim ''shop'') =
     [CountDocuments_chunks ''shop.orders'', SplitFind ''shop.orders'' (split_point 0)] \<and>
   Log Info 730 [] \<in> set (printed (preSplitChunks sim_api small_config orders)
     (new_shell small_chunk_sim ''shop''))"
    using one unfolding n a2 Let_def c using s by simp
  have e: "fst (split_step sim_api ''shop.orders'' 2 0 0 (new_shell split_fault_sim ''shop'')) =
     Inr (Continue 0)"
    using step [of 2 0] 5 n by simp
  show ?thesis
    using a b d e by blast
qed

text \<open>
  The claim as stated fails at its last clause: when the split attempts throw another
  message, the collection is processed to the end with one chunk where three are asked
  for, and no early stop is logged.
\<close>

theorem presplit_can_fall_short_counterexample:
  "\<not> dryRun (exec_opts small_config) \<and>
   initialChunks (sharding small_config) = 3 \<and>
   results (snd (processCollection sim_api small_config orders (new_shell split_fault_sim ''shop''))) =
     \<lparr>success = [''orders''], skipped = [], failed = []\<rparr> \<and>
   countDocuments_chunks sim_api
     (cluster (snd (processCollection sim_api small_config orders (new_shell split_fault_sim ''shop''))))
     ''shop.orders'' = Inr 1 \<and>
   Log Info 730 [] \<notin> set (logs (snd (processCollection sim_api small_config orders
     (new_shell split_fault_sim ''shop''))))"
  by code_simp

lemma preSplitChunks_issued_shape:
  "\<exists>k. 0 \<le> k \<and>
     issued (preSplitChunks api cfg cc) st =
       (if dryRun (exec_opts cfg) then []
        else CountDocuments_chunks (fullName_of cfg cc) # split_calls (fullName_of cfg cc) 0 k)"
proof (cases "dryRun (exec_opts cfg)")
  case True
  then show ?thesis
    by (intro exI [of _ 0]) (simp add: preSplitChunks_dry issued_def)
next
  case real: False
  show ?thesis
  proof (cases "countDocuments_chunks api (cluster st) (fullName_of cfg cc)")
    case (Inl e)
    with real show ?thesis
      by (intro exI [of _ 0])
        (simp add: preSplitChunks_count_throws issued_def split_calls_empty)
  next
    case (Inr current)
    show ?thesis
    proof (cases "initialChunks (sharding cfg) \<le> current")
      case True
      with real Inr show ?thesis
        by (intro exI [of _ 0]) (simp add: preSplitChunks_enough issued_def split_calls_empty)
    next
      case False
      then have "current < initialChunks (sharding cfg)"
        by simp
      from preSplitChunks_answers [OF real Inr this] real show ?thesis
        by (intro exI [of _ "int (length (split_answers api (fullName_of cfg cc)
            (nat (initialChunks (sharding cfg) - current)) 0 (cluster st)))"]) simp
    qed
  qed
qed

lemma preSplitChunks_first_split:
  assumes "\<not> dryRun (exec_opts cfg)"
    and "countDocuments_chunks api (cluster st) (fullName_of cfg cc) = Inr current"
    and "current < initialChunks (sharding cfg)"
  shows "\<exists>k. 1 \<le> k \<and> k \<le> initialChunks (sharding cfg) - current \<and>
     issued (preSplitChunks api cfg cc) st =
       CountDocuments_chunks (fullName_of cfg cc) # split_calls (fullName_of cfg cc) 0 k \<and>
     (k = initialChunks (sharding cfg) - current \<or>
      Log Info 730 [] \<in> set (printed (preSplitChunks api cfg cc) st))"
proof -
  let ?m = "nat (initialChunks (sharding cfg) - current)"
  let ?answers = "split_answers api (fullName_of cfg cc) ?m 0 (cluster st)"
  have m: "int ?m = initialChunks (sharding cfg) - current" "0 < ?m"
    using assms(3) by simp_all
  have "?answers \<noteq> []"
    by (rule split_answers_nonempty [OF m(2)])
  then have one: "1 \<le> int (length ?answers)"
    by (cases ?answers) simp_all
  have len: "int (length ?answers) \<le> initialChunks (sharding cfg) - current"
    using split_answers_length [of api "fullName_of cfg cc" ?m 0 "cluster st"] m(1) by linarith
  have short: "int (length ?answers) \<noteq> initialChunks (sharding cfg) - current \<longrightarrow>
      stops (last ?answers)"
    using split_answers_short [of api "fullName_of cfg cc" ?m 0 "cluster st"] len m(1) by auto
  show ?thesis
    using preSplitChunks_answers [OF assms] one len short
    by (intro exI [of _ "int (length ?answers)"]) auto
qed

text \<open>
  C9. The split points have the fixed shape \<^verbatim>\<open>{appID: i, deviceID: "split_point_" + i}\<close>
  for \<open>i = 0, 1, ...\<close>, whatever the shard key of the collection: \<open>preSplitChunks\<close> does not
  read the shard key, and the calls it issues are the chunk count followed by the split
  attempts at these points, in order. When the run is not a dry run and the chunk count
  is below \<^verbatim>\<open>initialChunks\<close>, the attempt at the point number 0 is issued, and so are
  those at the points up to \<^verbatim>\<open>initialChunks\<close> minus the count unless line 730 logs an
  early stop. For each collection of \<^verbatim>\<open>CONFIG\<close> whose shard key is not made of \<^verbatim>\<open>appID\<close>
  and \<^verbatim>\<open>deviceID\<close> (all but \<^verbatim>\<open>ug_device\<close>), no field of a split point is a field of the
  shard key.
\<close>

theorem split_points_ignore_the_shard_key:
  "preSplitChunks api cfg (cc\<lparr>shardKey := other_key\<rparr>) = preSplitChunks api cfg cc \<and>
   (\<exists>k. 0 \<le> k \<and>
      issued (preSplitChunks api cfg cc) st =
        (if dryRun (exec_opts cfg) then []
         else CountDocuments_chunks (fullName_of cfg cc) #
              map (\<lambda>i. SplitFind (fullName_of cfg cc)
                     [(''appID'', JNum i), (''deviceID'', JStr (''split_point_'' @ string_of_int i))])
                [0..k - 1])) \<and>
   (\<forall>current.
      \<not> dryRun (exec_opts cfg) \<and>
      countDocuments_chunks api (cluster st) (fullName_of cfg cc) = Inr current \<and>
      current < initialChunks (sharding cfg) \<longrightarrow>
      (\<exists>k. 1 \<le> k \<and> k \<le> initialChunks (sharding cfg) - current \<and>
         issued (preSplitChunks api cfg cc) st =
           CountDocuments_chunks (fullName_of cfg cc) #
           map (\<lambda>i. SplitFind (fullName_of cfg cc)
                  [(''appID'', JNum i), (''deviceID'', JStr (''split_point_'' @ string_of_int i))])
             [0..k - 1] \<and>
         (k = initialChunks (sharding cfg) - current \<or>
          Log Info 730 [] \<in> set (printed (preSplitChunks api cfg cc) st)))) \<and>
   (\<forall>c \<in> set (collections CONFIG).
      map fst (shardKey c) \<noteq> [''appID'', ''deviceID''] \<longrightarrow>
      (\<forall>i. set (map fst (split_point i)) \<inter> set (map fst (shardKey c)) = {})) \<and>
   map name (filter (\<lambda>c. map fst (shardKey c) \<noteq> [''appID'', ''deviceID'']) (collections CONFIG)) =
     [''ug_user'', ''ug_id_card'', ''ug_order_notify_log'', ''ug_order_platform_log'',
      ''ug_game_user'', ''ug_order'', ''ug_login_log'']"
proof (intro conjI allI impI)
  show "preSplitChunks api cfg (cc\<lparr>shardKey := other_key\<rparr>) = preSplitChunks api cfg cc"
    by (simp add: preSplitChunks_def fullName_of_def)
  show "\<exists>k. 0 \<le> k \<and>
      issued (preSplitChunks api cfg cc) st =
        (if dryRun (exec_opts cfg) then []
         else CountDocuments_chunks (fullName_of cfg cc) #
              map (\<lambda>i. SplitFind (fullName_of cfg cc)
                     [(''appID'', JNum i), (''deviceID'', JStr (''split_point_'' @ string_of_int i))])
                [0..k - 1])"
  proof -
    from preSplitChunks_issued_shape [of api cfg cc st]
    obtain k where "0 \<le> k"
      "issued (preSplitChunks api cfg cc) st =
         (if dryRun (exec_opts cfg) then []
          else CountDocuments_chunks (fullName_of cfg cc) # split_calls (fullName_of cfg cc) 0 k)"
      by blast
    then show ?thesis
      by (intro exI [of _ k]) (simp add: split_calls_def split_point_def)
  qed
  show "\<forall>c \<in> set (collections CONFIG).
      map fst (shardKey c) \<noteq> [''appID'', ''deviceID''] \<longrightarrow>
      (\<forall>i. set (map fst (split_point i)) \<inter> set (map fst (shardKey c)) = {})"
    by (simp add: CONFIG_def split_point_def ug_user_def ug_id_card_def ug_device_def
        ug_order_notify_log_def ug_order_platform_log_def ug_game_user_def ug_order_def
        ug_login_log_def)
  show "map name (filter (\<lambda>c. map fst (shardKey c) \<noteq> [''appID'', ''deviceID''])
      (collections CONFIG)) =
     [''ug_user'', ''ug_id_card'', ''ug_order_notify_log'', ''ug_order_platform_log'',
      ''ug_game_user'', ''ug_order'', ''ug_login_log'']"
    by (simp add: CONFIG_def ug_user_def ug_id_card_def ug_device_def
        ug_order_notify_log_def ug_order_platform_log_def ug_game_user_def ug_order_def
        ug_login_log_def)
next
  fix current
  assume h: "\<not> dryRun (exec_opts cfg) \<and>
      countDocuments_chunks api (cluster st) (fullName_of cfg cc) = Inr current \<and>
      current < initialChunks (sharding cfg)"
  then have "\<exists>k. 1 \<le> k \<and> k \<le> initialChunks (sharding cfg) - current \<and>
     issued (preSplitChunks api cfg cc) st =
       CountDocuments_chunks (fullName_of cfg cc) # split_calls (fullName_of cfg cc) 0 k \<and>
     (k = initialChunks (sharding cfg) - current \<or>
      Log Info 730 [] \<in> set (printed (preSplitChunks api cfg cc) st))"
    by (intro preSplitChunks_first_split) simp_all
  then obtain k where "1 \<le> k" "k \<le> initialChunks (sharding cfg) - current"
    "issued (preSplitChunks api cfg cc) st =
       CountDocuments_chunks (fullName_of cfg cc) # split_calls (fullName_of cfg cc) 0 k"
    "k = initialChunks (sharding cfg) - current \<or>
      Log Info 730 [] \<in> set (printed (preSplitChunks api cfg cc) st)"
    by blast
  then show "\<exists>k. 1 \<le> k \<and> k \<le> initialChunks (sharding cfg) - current \<and>
         issued (preSplitChunks api cfg cc) st =
           CountDocuments_chunks (fullName_of cfg cc) #
           map (\<lambda>i. SplitFind (fullName_of cfg cc)
                  [(''appID'', JNum i), (''deviceID'', JStr (''split_point_'' @ string_of_int i))])
             [0..k - 1] \<and>
         (k = initialChunks (sharding cfg) - current \<or>
          Log Info 730 [] \<in> set (printed (preSplitChunks api cfg cc) st))"
    by (intro exI [of _ k]) (simp add: split_calls_def split_point_def)
qed

theorem split_points_ignore_the_shard_key_witness:
  "shardKey orders = [(''uid'', JNum 1)] \<and>
   issued (preSplitChunks sim_api small_config orders) (new_shell one_chunk_sim ''shop'') =
     [CountDocuments_chunks ''shop.orders'',
      SplitFind ''shop.orders'' [(''appID'', JNum 0), (''deviceID'', JStr ''split_point_0'')],
      SplitFind ''shop.orders'' [(''appID'', JNum 1), (''deviceID'', JStr ''split_point_1'')]] \<and>
   shardKey ug_order = [(''uid'', JNum 1)] \<and>
   set (map fst (split_point 3)) \<inter> set (map fst (shardKey ug_order)) = {} \<and>
   preSplitChunks sim_api CONFIG (ug_order\<lparr>shardKey := [(''appID'', JNum 1), (''deviceID'', JNum 1)]\<rparr>) =
     preSplitChunks sim_api CONFIG ug_order"
proof -
  have 1: "ug_order \<in> set (collections CONFIG)"
    by (simp add: CONFIG_def)
  have 2: "map fst (shardKey ug_order) \<noteq> [''appID'', ''deviceID'']"
    "shardKey ug_order = [(''uid'', JNum 1)]"
    by (simp_all add: ug_order_def)
  have 3: "\<not> dryRun (exec_opts small_config) \<and>
      countDocuments_chunks sim_api (cluster (new_shell one_chunk_sim ''shop''))
        (fullName_of small_config orders) = Inr 1 \<and>
      1 < initialChunks (sharding small_config)"
    by code_simp
  have 4: "Log Info 730 [] \<notin> set (printed (preSplitChunks sim_api small_config orders)
      (new_shell one_chunk_sim ''shop''))"
    by code_simp
  have 5: "initialChunks (sharding small_config) = 3"
    "fullName_of small_config orders = ''shop.orders''" "shardKey orders = [(''uid'', JNum 1)]"
    by (simp_all add: small_config_def fullName_of_def orders_def)
  have 6: "map (\<lambda>i. SplitFind ''shop.orders''
      [(''appID'', JNum i), (''deviceID'', JStr (''split_point_'' @ string_of_int i))]) [0..2 - 1] =
     [SplitFind ''shop.orders'' [(''appID'', JNum 0), (''deviceID'', JStr ''split_point_0'')],
      SplitFind ''shop.orders'' [(''appID'', JNum 1), (''deviceID'', JStr ''split_point_1'')]]"
    by code_simp
  note disjoint = split_points_ignore_the_shard_key [THEN conjunct2, THEN conjunct2,
      THEN conjunct2, THEN conjunct1, rule_format, OF 1 2(1)]
  note same = split_points_ignore_the_shard_key [THEN conjunct1]
  note first = split_points_ignore_the_shard_key [THEN conjunct2, THEN conjunct2,
      THEN conjunct1, rule_format, OF 3]
  from first obtain k where "1 \<le> k" "k \<le> 2"
    and i: "issued (preSplitChunks sim_api small_config orders) (new_shell one_chunk_sim ''shop'') =
      CountDocuments_chunks ''shop.orders'' #
      map (\<lambda>i. SplitFind ''shop.orders''
        [(''appID'', JNum i), (''deviceID'', JStr (''split_point_'' @ string_of_int i))]) [0..k - 1]"
    and "k = 2 \<or> Log Info 730 [] \<in> set (printed (preSplitChunks sim_api small_config orders)
      (new_shell one_chunk_sim ''shop''))"
    unfolding 5 by auto
  with 4 have "k = 2"
    by simp
  with i 6 have "issued (preSplitChunks sim_api small_config orders)
      (new_shell one_chunk_sim ''shop'') =
     [CountDocuments_chunks ''shop.orders'',
      SplitFind ''shop.orders'' [(''appID'', JNum 0), (''deviceID'', JStr ''split_point_0'')],
      SplitFind ''shop.orders'' [(''appID'', JNum 1), (''deviceID'', JStr ''split_point_1'')]]"
    by simp
  then show ?thesis
    using disjoint [of 3] same 2(2) 5(3) by blast
qed

section \<open>What a dry run reads and prints\<close>

lemma enableDatabaseSharding_dry:
  "dryRun (exec_opts cfg) \<Longrightarrow>
   enableDatabaseSharding api cfg st =
     (Inr (), st\<lparr>logs := logs st @ [Log Info 489 [database cfg], Log Info 492 []]\<rparr>)"
  by (simp add: enableDatabaseSharding_def bnd_def logger_def ret_def)

lemma index_loop_dry:
  assumes "dryRun (exec_opts cfg)"
  shows "for_of (enumerate j specs) (index_step api cfg cc d existing) st =
     (Inr (), st\<lparr>logs := logs st @ map (index_line existing) (enumerate j specs)\<rparr>)"
proof (induction specs arbitrary: j st)
  case Nil
  show ?case by (simp add: ret_def)
next
  case (Cons spec specs)
  have "index_step api cfg cc d existing (j, spec) st =
      (Inr (), st\<lparr>logs := logs st @ [index_line existing (j, spec)]\<rparr>)"
    using assms by (simp add: index_step_def index_line_def logger_def)
  then show ?case
    by (simp add: bnd_def Cons.IH)
qed

lemma createIndexes_dry:
  assumes "dryRun (exec_opts cfg)"
    and "getIndexes api (cluster st) (current_db st) (name cc) = Inr existing"
  shows "createIndexes api cfg cc st =
     (Inr (), st\<lparr>calls := calls st @
          (if indexes cc = [] then [] else [GetIndexes (current_db st) (name cc)]),
        logs := logs st @
          (if indexes cc = [] then []
           else Log Info 585 [string_of_nat (length (indexes cc))] #
                map (index_line existing) (enumerate 0 (indexes cc)))\<rparr>)"
proof (cases "indexes cc = []")
  case True
  then show ?thesis by (simp add: createIndexes_def ret_def)
next
  case False
  then show ?thesis
    using assms
    by (simp add: createIndexes_def bnd_def logger_def get_db_def reading_def ret_def
        index_loop_dry)
qed

lemma createShardKeyIndex_dry:
  assumes "dryRun (exec_opts cfg)"
    and "getIndexes api (cluster st) (current_db st) (name cc) = Inr existing"
  shows "createShardKeyIndex api cfg cc st =
     (Inr (), st\<lparr>calls := calls st @ [GetIndexes (current_db st) (name cc)],
        logs := logs st @ [Log Info 627 [JSON_stringify (shardKey cc)],
          if index_exists existing (shardKey cc) then Log Info 638 [] else Log Info 643 []]\<rparr>)"
  using assms
  by (simp add: createShardKeyIndex_def bnd_def logger_def get_db_def reading_def ret_def)

lemma enableCollectionSharding_dry:
  "dryRun (exec_opts cfg) \<Longrightarrow>
   enableCollectionSharding api cfg cc st =
     (Inr (), st\<lparr>logs := logs st @ [Log Info 669 [],
        Log Info 670 [JSON_stringify (shardKey cc)], Log Info 673 [fullName_of cfg cc]]\<rparr>)"
  by (simp add: enableCollectionSharding_def Let_def bnd_def logger_def ret_def)

lemma collection_steps_dry:
  assumes dry: "dryRun (exec_opts cfg)"
    and u: "use api (cluster st) (database cfg) = Inr ()"
    and g: "getCollectionNames api (cluster st) (database cfg) = Inr names"
    and f: "findOne_collections api (cluster st) (fullName_of cfg cc) = Inr doc"
    and go: "\<not> ((case doc of None \<Rightarrow> False | Some k \<Rightarrow> k \<noteq> None) \<and>
               skipExistingSharded (exec_opts cfg))"
    and gi: "getIndexes api (cluster st) (database cfg) (name cc) = Inr existing"
  shows "collection_steps api cfg cc st =
     (Inr (), st\<lparr>current_db := database cfg,
        calls := calls st @
          [Use (database cfg), GetCollectionNames (database cfg),
           FindOne_collections (fullName_of cfg cc)] @
          (if indexes cc = [] then [] else [GetIndexes (database cfg) (name cc)]) @
          [GetIndexes (database cfg) (name cc)],
        logs := logs st @
          (if name cc \<in> set names then [] else [Log Warning 527 [name cc]]) @
          (if indexes cc = [] then []
           else Log Info 585 [string_of_nat (length (indexes cc))] #
                map (index_line existing) (enumerate 0 (indexes cc))) @
          [Log Info 627 [JSON_stringify (shardKey cc)],
           if index_exists existing (shardKey cc) then Log Info 638 [] else Log Info 643 [],
           Log Info 669 [], Log Info 670 [JSON_stringify (shardKey cc)],
           Log Info 673 [fullName_of cfg cc],
           Log Info 701 [string_of_int (initialChunks (sharding cfg))], Log Info 704 [],
           Log Success 555 [name cc]],
        results := (results st)\<lparr>success := success (results st) @ [name cc]\<rparr>\<rparr>)"
proof -
  have go': "((case doc of None \<Rightarrow> False | Some k \<Rightarrow> k \<noteq> None) \<and>
      skipExistingSharded (exec_opts cfg)) = False"
    using go by simp
  show ?thesis
    by (cases "indexes cc = []"; cases "name cc \<in> set names")
    (simp_all add: collection_steps_def Let_def go' bnd_def ret_def if_then_def logger_def
      push_success_def dry u g f gi use_db_run
      checkCollectionExists_run [where names = names]
      checkIfSharded_run [where doc = doc]
      createIndexes_dry [where existing = existing]
      createShardKeyIndex_dry [where existing = existing]
      enableCollectionSharding_dry preSplitChunks_dry)
qed

lemma createShardKeyIndex_getIndexes_throws:
  assumes "getIndexes api (cluster st) (current_db st) (name cc) = Inl e"
  shows "createShardKeyIndex api cfg cc st =
     (Inl e, st\<lparr>calls := calls st @ [GetIndexes (current_db st) (name cc)],
        logs := logs st @ [Log Info 627 [JSON_stringify (shardKey cc)]]\<rparr>)"
  using assms
  by (simp add: createShardKeyIndex_def bnd_def logger_def get_db_def reading_def)

lemma collection_steps_dry_getIndexes_throws:
  assumes dry: "dryRun (exec_opts cfg)"
    and u: "use api (cluster st) (database cfg) = Inr ()"
    and g: "getCollectionNames api (cluster st) (database cfg) = Inr names"
    and f: "findOne_collections api (cluster st) (fullName_of cfg cc) = Inr doc"
    and go: "\<not> (is_sharded doc \<and> skipExistingSharded (exec_opts cfg))"
    and gi: "getIndexes api (cluster st) (database cfg) (name cc) = Inl e"
  shows "collection_steps api cfg cc st =
     (Inl e, st\<lparr>current_db := database cfg,
        calls := calls st @
          [Use (database cfg), GetCollectionNames (database cfg),
           FindOne_collections (fullName_of cfg cc), GetIndexes (database cfg) (name cc)],
        logs := logs st @
          (if name cc \<in> set names then [] else [Log Warning 527 [name cc]]) @
          [if indexes cc = [] then Log Info 627 [JSON_stringify (shardKey cc)]
           else Log Info 585 [string_of_nat (length (indexes cc))]]\<rparr>)"
proof -
  have c: "checks_answer api cfg cc st names (cluster st) doc"
    using dry u g f by (simp add: checks_answer_def)
  let ?st1 = "after_checks cfg cc names (cluster st) st"
  have st1: "cluster ?st1 = cluster st" "current_db ?st1 = database cfg"
    by (simp_all add: after_checks_def)
  have run: "collection_steps api cfg cc st = block [
        createIndexes api cfg cc,
        createShardKeyIndex api cfg cc,
        enableCollectionSharding api cfg cc,
        preSplitChunks api cfg cc,
        push_success (name cc),
        logger (Log Success 555 [name cc])] ?st1"
    using collection_steps_checked [OF c] go by (simp del: block.simps)
  show ?thesis
  proof (cases "indexes cc = []")
    case True
    then have 1: "createIndexes api cfg cc ?st1 = (Inr (), ?st1)"
      by (simp add: createIndexes_def ret_def)
    have 2: "createShardKeyIndex api cfg cc ?st1 =
        (Inl e, ?st1\<lparr>calls := calls ?st1 @ [GetIndexes (current_db ?st1) (name cc)],
           logs := logs ?st1 @ [Log Info 627 [JSON_stringify (shardKey cc)]]\<rparr>)"
      by (rule createShardKeyIndex_getIndexes_throws) (simp add: st1 gi)
    show ?thesis
      unfolding run
      by (subst block_Cons_case, simp only: 1 fst_conv snd_conv sum.case,
          subst block_Cons_case, simp only: 2 fst_conv snd_conv sum.case)
        (simp add: after_checks_def dry True)
  next
    case False
    have 1: "createIndexes api cfg cc ?st1 =
        (Inl e, ?st1\<lparr>calls := calls ?st1 @ [GetIndexes (current_db ?st1) (name cc)],
           logs := logs ?st1 @ [Log Info 585 [string_of_nat (length (indexes cc))]]\<rparr>)"
      by (rule createIndexes_throws [OF False]) (simp add: st1 gi)
    show ?thesis
      unfolding run
      by (subst block_Cons_case, simp only: 1 fst_conv snd_conv sum.case)
        (simp add: after_checks_def dry False)
  qed
qed

lemma processCollection_dry_getIndexes_throws:
  assumes "dryRun (exec_opts cfg)"
    and "use api (cluster st) (database cfg) = Inr ()"
    and "getCollectionNames api (cluster st) (database cfg) = Inr names"
    and "findOne_collections api (cluster st) (fullName_of cfg cc) = Inr doc"
    and "\<not> (is_sharded doc \<and> skipExistingSharded (exec_opts cfg))"
    and "getIndexes api (cluster st) (database cfg) (name cc) = Inl e"
  shows "processCollection api cfg cc st =
     (Inr (), st\<lparr>current_db := database cfg,
        calls := calls st @
          [Use (database cfg), GetCollectionNames (database cfg),
           FindOne_collections (fullName_of cfg cc), GetIndexes (database cfg) (name cc)],
        logs := logs st @ [Divider, Log Info 516 [name cc, description cc]] @
          (if name cc \<in> set names then [] else [Log Warning 527 [name cc]]) @
          [if indexes cc = [] then Log Info 627 [JSON_stringify (shardKey cc)]
           else Log Info 585 [string_of_nat (length (indexes cc))],
           Log Error 558 [name cc, e]],
        results := (results st)\<lparr>failed := failed (results st) @ [(name cc, e)]\<rparr>\<rparr>)"
proof -
  have "collection_steps api cfg cc (entered cc st) =
     (Inl e, (entered cc st)\<lparr>current_db := database cfg,
        calls := calls (entered cc st) @
          [Use (database cfg), GetCollectionNames (database cfg),
           FindOne_collections (fullName_of cfg cc), GetIndexes (database cfg) (name cc)],
        logs := logs (entered cc st) @
          (if name cc \<in> set names then [] else [Log Warning 527 [name cc]]) @
          [if indexes cc = [] then Log Info 627 [JSON_stringify (shardKey cc)]
           else Log Info 585 [string_of_nat (length (indexes cc))]]\<rparr>)"
    using assms
    by (intro collection_steps_dry_getIndexes_throws [where doc = doc]) (simp_all add: entered_def)
  then show ?thesis
    by (simp add: processCollection_cases failed_with_def) (simp add: entered_def)
qed

lemma processCollection_dry_answers:
  assumes "dryRun (exec_opts cfg)"
    and "use api (cluster st) (database cfg) = Inr ()"
    and "getCollectionNames api (cluster st) (database cfg) = Inr names"
    and "findOne_collections api (cluster st) (fullName_of cfg cc) = Inr doc"
    and "\<not> (is_sharded doc \<and> skipExistingSharded (exec_opts cfg))"
    and "getIndexes api (cluster st) (database cfg) (name cc) = Inr existing"
  shows "processCollection api cfg cc st =
     (Inr (), st\<lparr>current_db := database cfg,
        calls := calls st @
          [Use (database cfg), GetCollectionNames (database cfg),
           FindOne_collections (fullName_of cfg cc)] @
          (if indexes cc = [] then [] else [GetIndexes (database cfg) (name cc)]) @
          [GetIndexes (database cfg) (name cc)],
        logs := logs st @ [Divider, Log Info 516 [name cc, description cc]] @
          (if name cc \<in> set names then [] else [Log Warning 527 [name cc]]) @
          (if indexes cc = [] then []
           else Log Info 585 [string_of_nat (length (indexes cc))] #
                map (index_line existing) (enumerate 0 (indexes cc))) @
          [Log Info 627 [JSON_stringify (shardKey cc)],
           if index_exists existing (shardKey cc) then Log Info 638 [] else Log Info 643 [],
           Log Info 669 [], Log Info 670 [JSON_stringify (shardKey cc)],
           Log Info 673 [fullName_of cfg cc],
           Log Info 701 [string_of_int (initialChunks (sharding cfg))], Log Info 704 [],
           Log Success 555 [name cc]],
        results := (results st)\<lparr>success := success (results st) @ [name cc]\<rparr>\<rparr>)"
proof -
  have go: "\<not> ((case doc of None \<Rightarrow> False | Some k \<Rightarrow> k \<noteq> None) \<and>
      skipExistingSharded (exec_opts cfg))"
    using assms(5) by (simp add: is_sharded_def)
  have "collection_steps api cfg cc (entered cc st) =
     (Inr (), (entered cc st)\<lparr>current_db := database cfg,
        calls := calls (entered cc st) @
          [Use (database cfg), GetCollectionNames (database cfg),
           FindOne_collections (fullName_of cfg cc)] @
          (if indexes cc = [] then [] else [GetIndexes (database cfg) (name cc)]) @
          [GetIndexes (database cfg) (name cc)],
        logs := logs (entered cc st) @
          (if name cc \<in> set names then [] else [Log Warning 527 [name cc]]) @
          (if indexes cc = [] then []
           else Log Info 585 [string_of_nat (length (indexes cc))] #
                map (index_line existing) (enumerate 0 (indexes cc))) @
          [Log Info 627 [JSON_stringify (shardKey cc)],
           if index_exists existing (shardKey cc) then Log Info 638 [] else Log Info 643 [],
           Log Info 669 [], Log Info 670 [JSON_stringify (shardKey cc)],
           Log Info 673 [fullName_of cfg cc],
           Log Info 701 [string_of_int (initialChunks (sharding cfg))], Log Info 704 [],
           Log Success 555 [name cc]],
        results := (results (entered cc st))\<lparr>success :=
          success (results (entered cc st)) @ [name cc]\<rparr>\<rparr>)"
    using assms(1-4) go assms(6)
    by (intro collection_steps_dry [where doc = doc]) (simp_all add: entered_def)
  then show ?thesis
    by (simp add: processCollection_cases) (simp add: entered_def)
qed

lemma validateConnection_calls:
  "issued (validateConnection api) st =
     RunCommand_hello #
     (case runCommand_hello api (cluster st) of
        Inl e \<Rightarrow> []
      | Inr hello \<Rightarrow>
          RunCommand_connectionStatus #
          (case runCommand_connectionStatus api (cluster st) of
             Inl e \<Rightarrow> []
           | Inr None \<Rightarrow> []
           | Inr (Some u) \<Rightarrow> [AdminCommand_usersInfo (user_name u) (user_db u)]))"
proof (cases "runCommand_hello api (cluster st)")
  case (Inl e)
  then show ?thesis
    by (simp add: issued_def validateConnection_def bnd_def try_catch_def reading_def
        logger_def throw_def)
next
  case hello: (Inr h)
  show ?thesis
  proof (cases "runCommand_connectionStatus api (cluster st)")
    case (Inl e)
    with hello show ?thesis
      by (simp add: issued_def validateConnection_def bnd_def try_catch_def reading_def
          logger_def throw_def if_then_def ret_def)
  next
    case (Inr user)
    show ?thesis
    proof (cases user)
      case None
      with hello Inr show ?thesis
        by (simp add: issued_def validateConnection_def bnd_def try_catch_def reading_def
            logger_def throw_def if_then_def ret_def)
    next
      case (Some u)
      with hello Inr show ?thesis
        by (cases "adminCommand_usersInfo api (cluster st) u")
          (simp_all add: issued_def validateConnection_def bnd_def try_catch_def reading_def
            logger_def throw_def if_then_def ret_def)
    qed
  qed
qed

lemma extends_validateConnection: "extends (validateConnection api)"
  unfolding validateConnection_def by (intro extends_rules)

lemma extends_use_db: "extends (use_db api d)"
  unfolding use_db_def by (intro extends_rules)

lemma extends_checkCollectionExists: "extends (checkCollectionExists api n)"
  unfolding checkCollectionExists_def by (intro extends_rules)

lemma extends_enableDatabaseSharding: "extends (enableDatabaseSharding api cfg)"
  unfolding enableDatabaseSharding_def by (intro extends_rules)

lemma extends_collection_steps: "extends (collection_steps api cfg cc)"
  unfolding collection_steps_def
  by (intro extends_rules extends_use_db extends_checkCollectionExists extends_checkIfSharded
      extends_createIndexes extends_createShardKeyIndex extends_enableCollectionSharding
      extends_preSplitChunks)

lemma extends_processCollection: "extends (processCollection api cfg cc)"
  unfolding processCollection_def by (intro extends_rules extends_collection_steps)

lemma extends_validateIndexes: "extends (validateIndexes api cfg cc)"
  unfolding validateIndexes_def by (intro extends_rules extends_use_db)

lemma extends_validateSharding: "extends (validateSharding api ns)"
  unfolding validateSharding_def by (intro extends_rules)

lemma extends_validateDataDistribution: "extends (validateDataDistribution api cfg cc)"
  unfolding validateDataDistribution_def by (intro extends_rules extends_use_db)

lemma extends_validateResults: "extends (validateResults api cfg)"
  unfolding validateResults_def
  by (intro extends_rules extends_validateIndexes extends_validateSharding
      extends_validateDataDistribution)

lemma extends_showRecommendations: "extends (showRecommendations cfg)"
  unfolding showRecommendations_def by (intro extends_rules)

lemma extends_showSummary: "extends (showSummary cfg)"
  unfolding showSummary_def by (intro extends_rules extends_showRecommendations)

lemma rethrow_calls:
  "calls (snd (try_catch m (\<lambda>error. block [logger (l error), throw error]) st)) =
   calls (snd (m st))"
  by (cases "m st"; cases "fst (m st)")
    (simp_all add: try_catch_def bnd_def logger_def throw_def)

lemma execute_validates_first:
  "\<exists>rest. issued (execute api cfg) st = issued (validateConnection api) st @ rest"
proof -
  let ?l1 = "logger (Section 418 [])"
  let ?l2 = "logger (Log Info 419 [database cfg])"
  let ?l3 = "logger (Log Info 420 [join '', '' (map name (collections cfg))])"
  let ?l4 = "logger (Log Info 421 [if dryRun (exec_opts cfg) then ''dry run'' else ''real run''])"
  let ?st0 = "snd (?l4 (snd (?l3 (snd (?l2 (snd (?l1 st)))))))"
  let ?rest = "block [enableDatabaseSharding api cfg,
            for_of (collections cfg) (processCollection api cfg),
            validateResults api cfg, showSummary cfg]"
  have st0: "cluster ?st0 = cluster st" "calls ?st0 = calls st"
    by (simp_all add: logger_def)
  have ex: "execute api cfg st =
       try_catch (block (validateConnection api # [enableDatabaseSharding api cfg,
            for_of (collections cfg) (processCollection api cfg),
            validateResults api cfg, showSummary cfg]))
         (\<lambda>error. block [logger (Log Error 442 [error]), throw error]) ?st0"
    by (simp only: execute_def block_Cons_returns [OF returns_logger] block_single)
  have "issued (validateConnection api) ?st0 = issued (validateConnection api) st"
    by (simp only: validateConnection_calls st0)
  then have vc: "calls (snd (validateConnection api ?st0)) =
      calls st @ issued (validateConnection api) st"
    using calls_issued [OF extends_validateConnection, of api ?st0] st0 by simp
  have "extends ?rest"
    by (intro extends_rules extends_enableDatabaseSharding extends_processCollection
        extends_validateResults extends_showSummary)
  then have "\<exists>rest. calls (snd (bnd (validateConnection api) (\<lambda>_. ?rest) ?st0)) =
      (calls st @ issued (validateConnection api) st) @ rest \<and>
      (isl (fst (validateConnection api ?st0)) \<longrightarrow> rest = [])"
    by (intro bnd_then vc)
  then obtain rest where "calls (snd (block (validateConnection api # [enableDatabaseSharding api cfg,
            for_of (collections cfg) (processCollection api cfg),
            validateResults api cfg, showSummary cfg]) ?st0)) =
      calls st @ issued (validateConnection api) st @ rest"
    by auto
  then have "calls (snd (execute api cfg st)) = calls st @ issued (validateConnection api) st @ rest"
    by (simp only: ex rethrow_calls)
  then show ?thesis
    by (intro exI [of _ rest]) (simp add: issued_def [of "execute api cfg"])
qed

lemma processCollection_dry_outcome:
  assumes dry: "dryRun (exec_opts cfg)"
  shows "issued (processCollection api cfg cc) st =
     Use (database cfg) #
     (case use api (cluster st) (database cfg) of
        Inl e \<Rightarrow> []
      | Inr u \<Rightarrow>
     GetCollectionNames (database cfg) #
     (case getCollectionNames api (cluster st) (database cfg) of
        Inl e \<Rightarrow> []
      | Inr names \<Rightarrow>
     FindOne_collections (fullName_of cfg cc) #
     (case findOne_collections api (cluster st) (fullName_of cfg cc) of
        Inl e \<Rightarrow> []
      | Inr doc \<Rightarrow>
          if is_sharded doc \<and> skipExistingSharded (exec_opts cfg) then []
          else
            GetIndexes (database cfg) (name cc) #
            (if indexes cc = [] then []
             else (case getIndexes api (cluster st) (database cfg) (name cc) of
                     Inl e \<Rightarrow> []
                   | Inr existing \<Rightarrow> [GetIndexes (database cfg) (name cc)]))))) \<and>
   results (snd (processCollection api cfg cc st)) =
     (case use api (cluster st) (database cfg) of
        Inl e \<Rightarrow> (results st)\<lparr>failed := failed (results st) @ [(name cc, e)]\<rparr>
      | Inr u \<Rightarrow>
     (case getCollectionNames api (cluster st) (database cfg) of
        Inl e \<Rightarrow> (results st)\<lparr>failed := failed (results st) @ [(name cc, e)]\<rparr>
      | Inr names \<Rightarrow>
     (case findOne_collections api (cluster st) (fullName_of cfg cc) of
        Inl e \<Rightarrow> (results st)\<lparr>failed := failed (results st) @ [(name cc, e)]\<rparr>
      | Inr doc \<Rightarrow>
          if is_sharded doc \<and> skipExistingSharded (exec_opts cfg)
          then (results st)\<lparr>skipped := skipped (results st) @ [name cc]\<rparr>
          else
            (case getIndexes api (cluster st) (database cfg) (name cc) of
               Inl e \<Rightarrow> (results st)\<lparr>failed := failed (results st) @ [(name cc, e)]\<rparr>
             | Inr existing \<Rightarrow> (results st)\<lparr>success := success (results st) @ [name cc]\<rparr>))))"
proof (cases "use api (cluster st) (database cfg)")
  case (Inl e)
  then show ?thesis
    by (simp add: processCollection_use_throws issued_def failed_with_def entered_def)
next
  case u: (Inr x)
  then have u: "use api (cluster st) (database cfg) = Inr ()"
    by simp
  show ?thesis
  proof (cases "getCollectionNames api (cluster st) (database cfg)")
    case (Inl e)
    with u show ?thesis
      by (simp add: processCollection_names_throw issued_def failed_with_def entered_def)
  next
    case g: (Inr names)
    have c: "if name cc \<in> set names \<or> dryRun (exec_opts cfg) then cluster st = cluster st
         else createCollection api (cluster st) (database cfg) (name cc) = (Inr (), cluster st)"
      using dry by simp
    show ?thesis
    proof (cases "findOne_collections api (cluster st) (fullName_of cfg cc)")
      case (Inl e)
      from processCollection_findOne_throws [OF u g c Inl] u g Inl dry show ?thesis
        by (simp add: issued_def failed_with_def calls_after_checks)
          (simp add: after_checks_def entered_def)
    next
      case f: (Inr doc)
      have ca: "checks_answer api cfg cc st names (cluster st) doc"
        using u g f dry by (simp add: checks_answer_def)
      show ?thesis
      proof (cases "is_sharded doc \<and> skipExistingSharded (exec_opts cfg)")
        case True
        then have t: "is_sharded doc" "skipExistingSharded (exec_opts cfg)"
          by simp_all
        from processCollection_skips [OF ca t] processCollection_skips_calls [OF ca t]
          u g f True dry
        show ?thesis
          by (simp add: skipped_over_def after_checks_def entered_def)
      next
        case go: False
        show ?thesis
        proof (cases "getIndexes api (cluster st) (database cfg) (name cc)")
          case (Inl e)
          from processCollection_dry_getIndexes_throws [OF dry u g f go Inl] u g f go Inl
          show ?thesis
            by (simp add: issued_def)
        next
          case (Inr existing)
          from processCollection_dry_answers [OF dry u g f go Inr] u g f go Inr
          show ?thesis
            by (simp add: issued_def)
        qed
      qed
    qed
  qed
qed

text \<open>
  C7, as the code has it. In a dry run the connection check runs as in any run, and
  \<open>enableDatabaseSharding\<close> prints line 492 instead of calling. Processing a collection
  issues its reads in order, up to the first one that throws, which fails the collection:
  \<^verbatim>\<open>use\<close>, \<^verbatim>\<open>getCollectionNames\<close>, the read of the sharding document and, unless the
  collection is skipped as sharded already, \<^verbatim>\<open>getIndexes\<close> (once for the configured
  indexes, when there are any, and once for the shard key). It issues no other call: the
  chunk count is not read, and \<open>preSplitChunks\<close> prints line 704 right after line 701. A
  missing collection is not created, so where \<^verbatim>\<open>getIndexes\<close> throws for it the collection
  fails there and no dry-run line is printed for it. When the reads answer, each mutating
  step prints its line instead of calling: a missing collection line 527, each index to
  create line 602, the shard-key index line 643, \<^verbatim>\<open>shardCollection\<close> line 673 and the
  splits line 704.
\<close>

theorem dry_run_reads_and_logs:
  fixes st :: "'s shell"
  assumes "dryRun (exec_opts cfg)"
  shows
  "(\<exists>rest. issued (execute api cfg) st =
      (RunCommand_hello #
       (case runCommand_hello api (cluster st) of
          Inl e \<Rightarrow> []
        | Inr hello \<Rightarrow>
            RunCommand_connectionStatus #
            (case runCommand_connectionStatus api (cluster st) of
               Inl e \<Rightarrow> []
             | Inr None \<Rightarrow> []
             | Inr (Some u) \<Rightarrow> [AdminCommand_usersInfo (user_name u) (user_db u)]))) @ rest) \<and>
   enableDatabaseSharding api cfg st =
     (Inr (), st\<lparr>logs := logs st @ [Log Info 489 [database cfg], Log Info 492 []]\<rparr>) \<and>
   issued (processCollection api cfg cc) st =
     Use (database cfg) #
     (case use api (cluster st) (database cfg) of
        Inl e \<Rightarrow> []
      | Inr u \<Rightarrow>
     GetCollectionNames (database cfg) #
     (case getCollectionNames api (cluster st) (database cfg) of
        Inl e \<Rightarrow> []
      | Inr names \<Rightarrow>
     FindOne_collections (fullName_of cfg cc) #
     (case findOne_collections api (cluster st) (fullName_of cfg cc) of
        Inl e \<Rightarrow> []
      | Inr doc \<Rightarrow>
          if is_sharded doc \<and> skipExistingSharded (exec_opts cfg) then []
          else
            GetIndexes (database cfg) (name cc) #
            (if indexes cc = [] then []
             else (case getIndexes api (cluster st) (database cfg) (name cc) of
                     Inl e \<Rightarrow> []
                   | Inr existing \<Rightarrow> [GetIndexes (database cfg) (name cc)]))))) \<and>
   results (snd (processCollection api cfg cc st)) =
     (case use api (cluster st) (database cfg) of
        Inl e \<Rightarrow> (results st)\<lparr>failed := failed (results st) @ [(name cc, e)]\<rparr>
      | Inr u \<Rightarrow>
     (case getCollectionNames api (cluster st) (database cfg) of
        Inl e \<Rightarrow> (results st)\<lparr>failed := failed (results st) @ [(name cc, e)]\<rparr>
      | Inr names \<Rightarrow>
     (case findOne_collections api (cluster st) (fullName_of cfg cc) of
        Inl e \<Rightarrow> (results st)\<lparr>failed := failed (results st) @ [(name cc, e)]\<rparr>
      | Inr doc \<Rightarrow>
          if is_sharded doc \<and> skipExistingSharded (exec_opts cfg)
          then (results st)\<lparr>skipped := skipped (results st) @ [name cc]\<rparr>
          else
            (case getIndexes api (cluster st) (database cfg) (name cc) of
               Inl e \<Rightarrow> (results st)\<lparr>failed := failed (results st) @ [(name cc, e)]\<rparr>
             | Inr existing \<Rightarrow> (results st)\<lparr>success := success (results st) @ [name cc]\<rparr>)))) \<and>
   (\<forall>names doc existing.
      use api (cluster st) (database cfg) = Inr () \<and>
      getCollectionNames api (cluster st) (database cfg) = Inr names \<and>
      findOne_collections api (cluster st) (fullName_of cfg cc) = Inr doc \<and>
      \<not> (is_sharded doc \<and> skipExistingSharded (exec_opts cfg)) \<and>
      getIndexes api (cluster st) (database cfg) (name cc) = Inr existing \<longrightarrow>
      printed (processCollection api cfg cc) st =
        [Divider, Log Info 516 [name cc, description cc]] @
        (if name cc \<in> set names then [] else [Log Warning 527 [name cc]]) @
        (if indexes cc = [] then []
         else Log Info 585 [string_of_nat (length (indexes cc))] #
              map (index_line existing) (enumerate 0 (indexes cc))) @
        [Log Info 627 [JSON_stringify (shardKey cc)],
         if index_exists existing (shardKey cc) then Log Info 638 [] else Log Info 643 [],
         Log Info 669 [], Log Info 670 [JSON_stringify (shardKey cc)],
         Log Info 673 [fullName_of cfg cc],
         Log Info 701 [string_of_int (initialChunks (sharding cfg))], Log Info 704 [],
         Log Success 555 [name cc]]) \<and>
   (\<forall>names doc e.
      use api (cluster st) (database cfg) = Inr () \<and>
      getCollectionNames api (cluster st) (database cfg) = Inr names \<and>
      findOne_collections api (cluster st) (fullName_of cfg cc) = Inr doc \<and>
      \<not> (is_sharded doc \<and> skipExistingSharded (exec_opts cfg)) \<and>
      getIndexes api (cluster st) (database cfg) (name cc) = Inl e \<longrightarrow>
      printed (processCollection api cfg cc) st =
        [Divider, Log Info 516 [name cc, description cc]] @
        (if name cc \<in> set names then [] else [Log Warning 527 [name cc]]) @
        [if indexes cc = [] then Log Info 627 [JSON_stringify (shardKey cc)]
         else Log Info 585 [string_of_nat (length (indexes cc))],
         Log Error 558 [name cc, e]]) \<and>
   preSplitChunks api cfg cc st =
     (Inr (), st\<lparr>logs := logs st @
        [Log Info 701 [string_of_int (initialChunks (sharding cfg))], Log Info 704 []]\<rparr>)"
proof (intro conjI allI impI; (elim conjE)?)
  show "\<exists>rest. issued (execute api cfg) st =
      (RunCommand_hello #
       (case runCommand_hello api (cluster st) of
          Inl e \<Rightarrow> []
        | Inr hello \<Rightarrow>
            RunCommand_connectionStatus #
            (case runCommand_connectionStatus api (cluster st) of
               Inl e \<Rightarrow> []
             | Inr None \<Rightarrow> []
             | Inr (Some u) \<Rightarrow> [AdminCommand_usersInfo (user_name u) (user_db u)]))) @ rest"
    using execute_validates_first [of api cfg st] by (simp only: validateConnection_calls)
  show "enableDatabaseSharding api cfg st =
     (Inr (), st\<lparr>logs := logs st @ [Log Info 489 [database cfg], Log Info 492 []]\<rparr>)"
    by (rule enableDatabaseSharding_dry [OF assms])
  show "issued (processCollection api cfg cc) st =
     Use (database cfg) #
     (case use api (cluster st) (database cfg) of
        Inl e \<Rightarrow> []
      | Inr u \<Rightarrow>
     GetCollectionNames (database cfg) #
     (case getCollectionNames api (cluster st) (database cfg) of
        Inl e \<Rightarrow> []
      | Inr names \<Rightarrow>
     FindOne_collections (fullName_of cfg cc) #
     (case findOne_collections api (cluster st) (fullName_of cfg cc) of
        Inl e \<Rightarrow> []
      | Inr doc \<Rightarrow>
          if is_sharded doc \<and> skipExistingSharded (exec_opts cfg) then []
          else
            GetIndexes (database cfg) (name cc) #
            (if indexes cc = [] then []
             else (case getIndexes api (cluster st) (database cfg) (name cc) of
                     Inl e \<Rightarrow> []
                   | Inr existing \<Rightarrow> [GetIndexes (database cfg) (name cc)])))))"
    by (rule processCollection_dry_outcome [OF assms, THEN conjunct1])
  show "results (snd (processCollection api cfg cc st)) =
     (case use api (cluster st) (database cfg) of
        Inl e \<Rightarrow> (results st)\<lparr>failed := failed (results st) @ [(name cc, e)]\<rparr>
      | Inr u \<Rightarrow>
     (case getCollectionNames api (cluster st) (database cfg) of
        Inl e \<Rightarrow> (results st)\<lparr>failed := failed (results st) @ [(name cc, e)]\<rparr>
      | Inr names \<Rightarrow>
     (case findOne_collections api (cluster st) (fullName_of cfg cc) of
        Inl e \<Rightarrow> (results st)\<lparr>failed := failed (results st) @ [(name cc, e)]\<rparr>
      | Inr doc \<Rightarrow>
          if is_sharded doc \<and> skipExistingSharded (exec_opts cfg)
          then (results st)\<lparr>skipped := skipped (results st) @ [name cc]\<rparr>
          else
            (case getIndexes api (cluster st) (database cfg) (name cc) of
               Inl e \<Rightarrow> (results st)\<lparr>failed := failed (results st) @ [(name cc, e)]\<rparr>
             | Inr existing \<Rightarrow> (results st)\<lparr>success := success (results st) @ [name cc]\<rparr>))))"
    by (rule processCollection_dry_outcome [OF assms, THEN conjunct2])
  show "preSplitChunks api cfg cc st =
     (Inr (), st\<lparr>logs := logs st @
        [Log Info 701 [string_of_int (initialChunks (sharding cfg))], Log Info 704 []]\<rparr>)"
    by (rule preSplitChunks_dry [OF assms])
next
  fix names doc existing
  assume h: "use api (cluster st) (database cfg) = Inr ()"
    "getCollectionNames api (cluster st) (database cfg) = Inr names"
    "findOne_collections api (cluster st) (fullName_of cfg cc) = Inr doc"
    "\<not> (is_sharded doc \<and> skipExistingSharded (exec_opts cfg))"
    "getIndexes api (cluster st) (database cfg) (name cc) = Inr existing"
  show "printed (processCollection api cfg cc) st =
        [Divider, Log Info 516 [name cc, description cc]] @
        (if name cc \<in> set names then [] else [Log Warning 527 [name cc]]) @
        (if indexes cc = [] then []
         else Log Info 585 [string_of_nat (length (indexes cc))] #
              map (index_line existing) (enumerate 0 (indexes cc))) @
        [Log Info 627 [JSON_stringify (shardKey cc)],
         if index_exists existing (shardKey cc) then Log Info 638 [] else Log Info 643 [],
         Log Info 669 [], Log Info 670 [JSON_stringify (shardKey cc)],
         Log Info 673 [fullName_of cfg cc],
         Log Info 701 [string_of_int (initialChunks (sharding cfg))], Log Info 704 [],
         Log Success 555 [name cc]]"
    by (simp add: processCollection_dry_answers [OF assms h] printed_def)
next
  fix names doc e
  assume h: "use api (cluster st) (database cfg) = Inr ()"
    "getCollectionNames api (cluster st) (database cfg) = Inr names"
    "findOne_collections api (cluster st) (fullName_of cfg cc) = Inr doc"
    "\<not> (is_sharded doc \<and> skipExistingSharded (exec_opts cfg))"
    "getIndexes api (cluster st) (database cfg) (name cc) = Inl e"
  show "printed (processCollection api cfg cc) st =
        [Divider, Log Info 516 [name cc, description cc]] @
        (if name cc \<in> set names then [] else [Log Warning 527 [name cc]]) @
        [if indexes cc = [] then Log Info 627 [JSON_stringify (shardKey cc)]
         else Log Info 585 [string_of_nat (length (indexes cc))],
         Log Error 558 [name cc, e]]"
    by (simp add: processCollection_dry_getIndexes_throws [OF assms h] printed_def)
qed

theorem dry_run_reads_and_logs_witness:
  "(\<exists>rest. issued (execute sim_api (dry small_config)) (new_shell orders_sim ''test'') =
      [RunCommand_hello, RunCommand_connectionStatus, AdminCommand_usersInfo ''root'' ''admin''] @
      rest) \<and>
   issued (processCollection sim_api (dry small_config) orders) (new_shell orders_sim ''test'') =
     [Use ''shop'', GetCollectionNames ''shop'', FindOne_collections ''shop.orders'',
      GetIndexes ''shop'' ''orders'', GetIndexes ''shop'' ''orders''] \<and>
   printed (processCollection sim_api (dry small_config) orders) (new_shell orders_sim ''test'') =
     [Divider, Log Info 516 [''orders'', ''orders''],
      Log Info 585 [''2''],
      Log Info 602 [JSON_stringify [(''uid'', JNum 1)]],
      Log Info 602 [JSON_stringify [(''createTime'', JNum 1)]],
      Log Info 627 [JSON_stringify [(''uid'', JNum 1)]], Log Info 643 [],
      Log Info 669 [], Log Info 670 [JSON_stringify [(''uid'', JNum 1)]],
      Log Info 673 [''shop.orders''], Log Info 701 [''3''], Log Info 704 [],
      Log Success 555 [''orders'']] \<and>
   issued (processCollection sim_api (dry small_config) orders) (new_shell empty_sim ''test'') =
     [Use ''shop'', GetCollectionNames ''shop'', FindOne_collections ''shop.orders'',
      GetIndexes ''shop'' ''orders''] \<and>
   results (snd (processCollection sim_api (dry small_config) orders
     (new_shell empty_sim ''test''))) =
     \<lparr>success = [], skipped = [], failed = [(''orders'', ''ns does not exist'')]\<rparr> \<and>
   printed (processCollection sim_api (dry small_config) orders) (new_shell empty_sim ''test'') =
     [Divider, Log Info 516 [''orders'', ''orders''], Log Warning 527 [''orders''],
      Log Info 585 [''2''], Log Error 558 [''orders'', ''ns does not exist'']] \<and>
   printed (processCollection lenient_api (dry small_config) orders)
     (new_shell empty_sim ''test'') =
     [Divider, Log Info 516 [''orders'', ''orders''], Log Warning 527 [''orders''],
      Log Info 585 [''2''],
      Log Info 602 [JSON_stringify [(''uid'', JNum 1)]],
      Log Info 602 [JSON_stringify [(''createTime'', JNum 1)]],
      Log Info 627 [JSON_stringify [(''uid'', JNum 1)]], Log Info 643 [],
      Log Info 669 [], Log Info 670 [JSON_stringify [(''uid'', JNum 1)]],
      Log Info 673 [''shop.orders''], Log Info 701 [''3''], Log Info 704 [],
      Log Success 555 [''orders'']]"
proof -
  have 1: "dryRun (exec_opts (dry small_config))"
    by (simp add: dry_def)
  note run = dry_run_reads_and_logs [OF 1, THEN conjunct1]
  note reads = dry_run_reads_and_logs [OF 1, THEN conjunct2, THEN conjunct2, THEN conjunct1]
  note outcome = dry_run_reads_and_logs [OF 1, THEN conjunct2, THEN conjunct2, THEN conjunct2,
      THEN conjunct1]
  note lines = dry_run_reads_and_logs [OF 1, THEN conjunct2, THEN conjunct2, THEN conjunct2,
      THEN conjunct2, THEN conjunct1, rule_format]
  note fails = dry_run_reads_and_logs [OF 1, THEN conjunct2, THEN conjunct2, THEN conjunct2,
      THEN conjunct2, THEN conjunct2, THEN conjunct1, rule_format]
  have v: "runCommand_hello sim_api (cluster (new_shell orders_sim ''test'')) =
      Inr (Some ''isdbgrid'')"
    "runCommand_connectionStatus sim_api (cluster (new_shell orders_sim ''test'')) =
      Inr (Some \<lparr>user_name = ''root'', user_db = ''admin''\<rparr>)"
    by code_simp+
  have a: "use sim_api (cluster (new_shell orders_sim ''test'')) (database (dry small_config)) =
      Inr () \<and>
    getCollectionNames sim_api (cluster (new_shell orders_sim ''test''))
      (database (dry small_config)) = Inr [''orders''] \<and>
    findOne_collections sim_api (cluster (new_shell orders_sim ''test''))
      (fullName_of (dry small_config) orders) = Inr None \<and>
    \<not> (is_sharded None \<and> skipExistingSharded (exec_opts (dry small_config))) \<and>
    getIndexes sim_api (cluster (new_shell orders_sim ''test''))
      (database (dry small_config)) (name orders) = Inr [id_index]"
    by code_simp
  have b: "use sim_api (cluster (new_shell empty_sim ''test'')) (database (dry small_config)) =
      Inr () \<and>
    getCollectionNames sim_api (cluster (new_shell empty_sim ''test''))
      (database (dry small_config)) = Inr [] \<and>
    findOne_collections sim_api (cluster (new_shell empty_sim ''test''))
      (fullName_of (dry small_config) orders) = Inr None \<and>
    \<not> (is_sharded None \<and> skipExistingSharded (exec_opts (dry small_config))) \<and>
    getIndexes sim_api (cluster (new_shell empty_sim ''test''))
      (database (dry small_config)) (name orders) = Inl ''ns does not exist''"
    by code_simp
  have c: "use lenient_api (cluster (new_shell empty_sim ''test'')) (database (dry small_config)) =
      Inr () \<and>
    getCollectionNames lenient_api (cluster (new_shell empty_sim ''test''))
      (database (dry small_config)) = Inr [] \<and>
    findOne_collections lenient_api (cluster (new_shell empty_sim ''test''))
      (fullName_of (dry small_config) orders) = Inr None \<and>
    \<not> (is_sharded None \<and> skipExistingSharded (exec_opts (dry small_config))) \<and>
    getIndexes lenient_api (cluster (new_shell empty_sim ''test''))
      (database (dry small_config)) (name orders) = Inr []"
    by code_simp
  have 7: "(if indexes orders = [] then []
      else Log Info 585 [string_of_nat (length (indexes orders))] #
           map (index_line [id_index]) (enumerate 0 (indexes orders))) =
     [Log Info 585 [''2''],
      Log Info 602 [JSON_stringify [(''uid'', JNum 1)]],
      Log Info 602 [JSON_stringify [(''createTime'', JNum 1)]]]"
    "(if indexes orders = [] then []
      else Log Info 585 [string_of_nat (length (indexes orders))] #
           map (index_line []) (enumerate 0 (indexes orders))) =
     [Log Info 585 [''2''],
      Log Info 602 [JSON_stringify [(''uid'', JNum 1)]],
      Log Info 602 [JSON_stringify [(''createTime'', JNum 1)]]]"
    "index_exists [id_index] (shardKey orders) = False"
    "index_exists [] (shardKey orders) = False"
    "string_of_int (initialChunks (sharding (dry small_config))) = ''3''"
    "string_of_nat (length (indexes orders)) = ''2''"
    by code_simp+
  have 8: "database (dry small_config) = ''shop''" "name orders = ''orders''"
    "description orders = ''orders''"
    "fullName_of (dry small_config) orders = ''shop.orders''"
    "indexes orders \<noteq> []" "shardKey orders = [(''uid'', JNum 1)]"
    by (simp_all add: dry_def small_config_def orders_def fullName_of_def idx_def)
  have r: "results (new_shell empty_sim ''test'') = \<lparr>success = [], skipped = [], failed = []\<rparr>"
    by (simp add: new_shell_def)
  have w1: "\<exists>rest. issued (execute sim_api (dry small_config)) (new_shell orders_sim ''test'') =
      [RunCommand_hello, RunCommand_connectionStatus, AdminCommand_usersInfo ''root'' ''admin''] @
      rest"
    using run [of sim_api "new_shell orders_sim ''test''"] v by simp
  have w2: "issued (processCollection sim_api (dry small_config) orders)
      (new_shell orders_sim ''test'') =
     [Use ''shop'', GetCollectionNames ''shop'', FindOne_collections ''shop.orders'',
      GetIndexes ''shop'' ''orders'', GetIndexes ''shop'' ''orders'']"
    using reads [of sim_api orders "new_shell orders_sim ''test''"] a 8 by simp
  have w3: "printed (processCollection sim_api (dry small_config) orders)
      (new_shell orders_sim ''test'') =
     [Divider, Log Info 516 [''orders'', ''orders''],
      Log Info 585 [''2''],
      Log Info 602 [JSON_stringify [(''uid'', JNum 1)]],
      Log Info 602 [JSON_stringify [(''createTime'', JNum 1)]],
      Log Info 627 [JSON_stringify [(''uid'', JNum 1)]], Log Info 643 [],
      Log Info 669 [], Log Info 670 [JSON_stringify [(''uid'', JNum 1)]],
      Log Info 673 [''shop.orders''], Log Info 701 [''3''], Log Info 704 [],
      Log Success 555 [''orders'']]"
    using lines [OF a] 7 8 by simp
  have w4: "issued (processCollection sim_api (dry small_config) orders)
      (new_shell empty_sim ''test'') =
     [Use ''shop'', GetCollectionNames ''shop'', FindOne_collections ''shop.orders'',
      GetIndexes ''shop'' ''orders'']"
    using reads [of sim_api orders "new_shell empty_sim ''test''"] b 8 by simp
  have w5: "results (snd (processCollection sim_api (dry small_config) orders
      (new_shell empty_sim ''test''))) =
     \<lparr>success = [], skipped = [], failed = [(''orders'', ''ns does not exist'')]\<rparr>"
    using outcome [of sim_api orders "new_shell empty_sim ''test''"] b 8 r by simp
  have w6: "printed (processCollection sim_api (dry small_config) orders)
      (new_shell empty_sim ''test'') =
     [Divider, Log Info 516 [''orders'', ''orders''], Log Warning 527 [''orders''],
      Log Info 585 [''2''], Log Error 558 [''orders'', ''ns does not exist'']]"
    using fails [OF b] 7 8 by simp
  have w7: "printed (processCollection lenient_api (dry small_config) orders)
      (new_shell empty_sim ''test'') =
     [Divider, Log Info 516 [''orders'', ''orders''], Log Warning 527 [''orders''],
      Log Info 585 [''2''],
      Log Info 602 [JSON_stringify [(''uid'', JNum 1)]],
      Log Info 602 [JSON_stringify [(''createTime'', JNum 1)]],
      Log Info 627 [JSON_stringify [(''uid'', JNum 1)]], Log Info 643 [],
      Log Info 669 [], Log Info 670 [JSON_stringify [(''uid'', JNum 1)]],
      Log Info 673 [''shop.orders''], Log Info 701 [''3''], Log Info 704 [],
      Log Success 555 [''orders'']]"
    using lines [OF c] 7 8 by simp
  show ?thesis
    using w1 w2 w3 w4 w5 w6 w7 by blast
qed

text \<open>
  The claim as stated fails for the chunk count: processing a collection in a dry run
  goes through all its steps and never asks for the chunk count, which the same
  processing asks for when it is not a dry run.
\<close>

theorem dry_run_skips_the_chunk_count_counterexample:
  "results (snd (processCollection sim_api (dry small_config) orders (new_shell orders_sim ''shop''))) =
     \<lparr>success = [''orders''], skipped = [], failed = []\<rparr> \<and>
   CountDocuments_chunks ''shop.orders''
     \<notin> set (issued (processCollection sim_api (dry small_config) orders)
         (new_shell orders_sim ''shop'')) \<and>
   CountDocuments_chunks ''shop.orders''
     \<in> set (issued (processCollection sim_api small_config orders) (new_shell orders_sim ''shop''))"
  by code_simp

end
